theory Spec2Isabelle
  imports Main "HOL-Library.Word" "HOL-Library.AList"
begin

section \<open>audit-to-sarif: the values the script works on\<close>

text \<open>
  The script \<^verbatim>\<open>scripts/audit-to-sarif.py\<close> reads a JSON document with \<^verbatim>\<open>json.load\<close>,
  reshapes it and writes the result with \<^verbatim>\<open>json.dump\<close>. Every value it touches is one
  of the Python objects \<^verbatim>\<open>json.load\<close> builds: \<^verbatim>\<open>None\<close>, a \<^verbatim>\<open>bool\<close>, an unbounded
  \<^verbatim>\<open>int\<close>, a \<^verbatim>\<open>float\<close>, a \<^verbatim>\<open>str\<close>, a \<^verbatim>\<open>list\<close> or a \<^verbatim>\<open>dict\<close> with \<^verbatim>\<open>str\<close> keys.

  \<^item> A \<^verbatim>\<open>float\<close> is kept as its 64 bits (IEEE 754 binary64): the script does no
    arithmetic on numbers, it only passes them on.
  \<^item> A \<^verbatim>\<open>str\<close> is kept as the bytes of its UTF-8 encoding.
  \<^item> A \<^verbatim>\<open>dict\<close> is an association list in insertion order; a lookup takes the first
    entry of a key (a Python dict never holds a key twice).
\<close>

datatype json =
    JNull
  | JBool bool
  | JInt int
  | JFloat "64 word"
  | JStr string
  | JArr "json list"
  | JObj "(string \<times> json) list"

text \<open>The name Python prints for the type of a value, as in \<^verbatim>\<open>type(v).__name__\<close>.\<close>

fun type_name :: "json \<Rightarrow> string" where
  "type_name JNull = ''NoneType''"
| "type_name (JBool b) = ''bool''"
| "type_name (JInt i) = ''int''"
| "type_name (JFloat x) = ''float''"
| "type_name (JStr s) = ''str''"
| "type_name (JArr xs) = ''list''"
| "type_name (JObj kvs) = ''dict''"

text \<open>
  The exceptions the script can meet. \<open>AttributeError t a\<close>: a value of type \<open>t\<close> has
  no attribute \<open>a\<close>. \<open>NotIterable t\<close> and \<open>NotSubscriptable t\<close>: the two
  \<^verbatim>\<open>TypeError\<close>s, for a value of type \<open>t\<close> in a \<^verbatim>\<open>for\<close> or under a subscript it does
  not take. \<open>EnvError m\<close>: an exception raised outside the script's own code (by
  \<^verbatim>\<open>open\<close> or by \<^verbatim>\<open>json.load\<close>), with its message \<open>m\<close>.
\<close>

datatype error =
    AttributeError string string
  | NotIterable string
  | NotSubscriptable string
  | KeyError string
  | IndexError
  | EnvError string

text \<open>Sequencing of steps that may raise: the first exception ends the computation.\<close>

definition and_then :: "error + 'a \<Rightarrow> ('a \<Rightarrow> error + 'b) \<Rightarrow> error + 'b" where
  "and_then m f = (case m of Inl e \<Rightarrow> Inl e | Inr x \<Rightarrow> f x)"

text \<open>
  \<^verbatim>\<open>d.get(k, default)\<close>. Only a \<^verbatim>\<open>dict\<close> has the method \<^verbatim>\<open>get\<close>; on any other value
  the attribute lookup raises \<^verbatim>\<open>AttributeError\<close>. A key that is present wins over the
  default whatever its value is, \<^verbatim>\<open>None\<close> included.
\<close>

definition get :: "json \<Rightarrow> string \<Rightarrow> json \<Rightarrow> error + json" where
  "get d k dflt =
     (case d of
        JObj kvs \<Rightarrow> Inr (case map_of kvs k of Some v \<Rightarrow> v | None \<Rightarrow> dflt)
      | _ \<Rightarrow> Inl (AttributeError (type_name d) ''get''))"

text \<open>
  \<^verbatim>\<open>s.lower()\<close>. On the bytes of a UTF-8 string the letters \<^verbatim>\<open>A\<close> to \<^verbatim>\<open>Z\<close> become
  \<^verbatim>\<open>a\<close> to \<^verbatim>\<open>z\<close>. Python also rewrites cased characters outside ASCII; the only one
  of them whose lower case is made of ASCII letters is KELVIN SIGN (to \<^verbatim>\<open>k\<close>), and no
  key of the severity table holds a \<^verbatim>\<open>k\<close>, so the table lookup below finds the same
  entry for every string.
\<close>

definition lower_char :: "char \<Rightarrow> char" where
  "lower_char c =
     (case map_of (zip ''ABCDEFGHIJKLMNOPQRSTUVWXYZ'' ''abcdefghijklmnopqrstuvwxyz'') c of
        Some l \<Rightarrow> l
      | None \<Rightarrow> c)"

definition lower :: "string \<Rightarrow> string" where
  "lower s = map lower_char s"

section \<open>The severity table\<close>

definition severity_map :: "(string \<times> string) list" where
  "severity_map =
     [(''critical'', ''error''),
      (''high'', ''error''),
      (''medium'', ''warning''),
      (''low'', ''note''),
      (''informational'', ''note'')]"

text \<open>
  \<^verbatim>\<open>convert_severity(severity)\<close>: \<^verbatim>\<open>severity_map.get(severity.lower(), "warning")\<close>.
  The argument is whatever the report holds under \<^verbatim>\<open>severity\<close>; only a \<^verbatim>\<open>str\<close> has
  the method \<^verbatim>\<open>lower\<close>.
\<close>

definition convert_severity :: "json \<Rightarrow> error + string" where
  "convert_severity severity =
     (case severity of
        JStr s \<Rightarrow> Inr (case map_of severity_map (lower s) of Some l \<Rightarrow> l | None \<Rightarrow> ''warning'')
      | _ \<Rightarrow> Inl (AttributeError (type_name severity) ''lower''))"

section \<open>One result and one rule for a vulnerability\<close>

text \<open>The Python float \<^verbatim>\<open>5.0\<close>, the default CVSS score.\<close>

definition float_5_0 :: json where
  "float_5_0 = JFloat 0x4014000000000000"

text \<open>
  \<^verbatim>\<open>create_sarif_result(vuln)\<close>. The two locals are bound first; the entries of the
  dict display are then evaluated from top to bottom.
\<close>

definition create_sarif_result :: "json \<Rightarrow> error + json" where
  "create_sarif_result vuln =
     and_then (get vuln ''advisory'' (JObj [])) (\<lambda>advisory.
     and_then (get vuln ''package'' (JObj [])) (\<lambda>package.
     and_then (get advisory ''id'' (JStr ''UNKNOWN'')) (\<lambda>rule_id.
     and_then (get vuln ''severity'' (JStr ''medium'')) (\<lambda>severity.
     and_then (convert_severity severity) (\<lambda>level.
     and_then (get advisory ''description'' (JStr ''Unknown vulnerability'')) (\<lambda>text.
     and_then (get package ''name'' (JStr [])) (\<lambda>package_name.
     and_then (get package ''version'' (JStr [])) (\<lambda>package_version.
     and_then (get vuln ''cvss'' (JObj [])) (\<lambda>cvss.
     and_then (get cvss ''score'' float_5_0) (\<lambda>score.
     Inr (JObj
       [(''ruleId'', rule_id),
        (''level'', JStr level),
        (''message'', JObj [(''text'', text)]),
        (''locations'', JArr
           [JObj [(''physicalLocation'', JObj
              [(''artifactLocation'', JObj [(''uri'', JStr ''Cargo.toml'')]),
               (''region'', JObj [(''startLine'', JInt 1), (''startColumn'', JInt 1)])])]]),
        (''partialFingerprints'', JObj
           [(''packageName'', package_name),
            (''packageVersion'', package_version)]),
        (''properties'', JObj
           [(''security-severity'', score),
            (''tags'', JArr [JStr ''security'', JStr ''dependency'', JStr ''vulnerability'']),
            (''precision'', JStr ''very-high'')])])))))))))))"

text \<open>
  A replacement field \<^verbatim>\<open>{v}\<close> of an f-string is \<^verbatim>\<open>format(v, "")\<close>: a \<^verbatim>\<open>str\<close> is
  put in as it is, any other value as the text \<^verbatim>\<open>str(v)\<close>. That text (the printed
  form of a number, of \<^verbatim>\<open>None\<close>, of a list or dict) is Python's business and not the
  script's; it is the parameter \<open>str_of\<close> of every function that formats.
\<close>

definition format_field :: "(json \<Rightarrow> string) \<Rightarrow> json \<Rightarrow> string" where
  "format_field str_of v = (case v of JStr s \<Rightarrow> s | _ \<Rightarrow> str_of v)"

definition newline :: char where
  "newline = CHR 0x0A"

text \<open>
  \<^verbatim>\<open>create_sarif_rule(vuln)\<close>. The help text and the Markdown block are f-strings;
  their fields are evaluated from left to right.
\<close>

definition create_sarif_rule :: "(json \<Rightarrow> string) \<Rightarrow> json \<Rightarrow> error + json" where
  "create_sarif_rule str_of vuln =
     and_then (get vuln ''advisory'' (JObj [])) (\<lambda>advisory.
     and_then (get advisory ''id'' (JStr ''UNKNOWN'')) (\<lambda>rule_id.
     and_then (get advisory ''title'' (JStr ''Unknown vulnerability'')) (\<lambda>name.
     and_then (get advisory ''title'' (JStr ''Unknown vulnerability'')) (\<lambda>short_text.
     and_then (get advisory ''description'' (JStr [])) (\<lambda>full_text.
     and_then (get vuln ''package'' (JObj [])) (\<lambda>package.
     and_then (get package ''name'' (JStr ''package'')) (\<lambda>package_name.
     and_then (get advisory ''title'' (JStr ''Vulnerability'')) (\<lambda>heading.
     and_then (get advisory ''description'' (JStr [])) (\<lambda>body.
     and_then (get advisory ''url'' (JStr [])) (\<lambda>url.
     and_then (get vuln ''cvss'' (JObj [])) (\<lambda>cvss.
     and_then (get cvss ''score'' float_5_0) (\<lambda>score.
     Inr (JObj
       [(''id'', rule_id),
        (''name'', name),
        (''shortDescription'', JObj [(''text'', short_text)]),
        (''fullDescription'', JObj [(''text'', full_text)]),
        (''help'', JObj
           [(''text'', JStr
               (''Update '' @ format_field str_of package_name @ '' to a patched version'')),
            (''markdown'', JStr
               (''## '' @ format_field str_of heading @ [newline, newline]
                 @ format_field str_of body @ [newline, newline]
                 @ ''### References'' @ [newline]
                 @ ''- '' @ format_field str_of url))]),
        (''properties'', JObj
           [(''security-severity'', score),
            (''tags'', JArr [JStr ''security'', JStr ''vulnerability''])])])))))))))))))"

section \<open>Assembling the document\<close>

text \<open>
  The document is a nest of dicts and lists, and the loop appends to two lists deep
  inside it: \<^verbatim>\<open>sarif["runs"][0]["tool"]["driver"]["rules"].append(...)\<close>. A position
  in the nest is the list of subscripts that lead to it.
\<close>

datatype subscript = Key string | Pos nat

text \<open>
  \<open>append_at path x target\<close>: follow the subscripts of \<open>path\<close> from \<open>target\<close> and
  append \<open>x\<close> to the list found there; the result is \<open>target\<close> after the mutation.
  A missing key raises \<^verbatim>\<open>KeyError\<close>, a position past the end \<^verbatim>\<open>IndexError\<close>, a value
  without \<^verbatim>\<open>append\<close> at the end of the path \<^verbatim>\<open>AttributeError\<close>. A subscript of the
  wrong kind for the value is \<open>NotSubscriptable\<close> and not told apart further: the
  function subscripts only the document it has built itself, where none of these
  is raised.
\<close>

fun append_at :: "subscript list \<Rightarrow> json \<Rightarrow> json \<Rightarrow> error + json" where
  "append_at [] x target =
     (case target of
        JArr xs \<Rightarrow> Inr (JArr (xs @ [x]))
      | _ \<Rightarrow> Inl (AttributeError (type_name target) ''append''))"
| "append_at (Key k # path) x target =
     (case target of
        JObj kvs \<Rightarrow>
          (case map_of kvs k of
             None \<Rightarrow> Inl (KeyError k)
           | Some v \<Rightarrow>
               (case append_at path x v of
                  Inl e \<Rightarrow> Inl e
                | Inr v' \<Rightarrow> Inr (JObj (AList.update k v' kvs))))
      | _ \<Rightarrow> Inl (NotSubscriptable (type_name target)))"
| "append_at (Pos i # path) x target =
     (case target of
        JArr xs \<Rightarrow>
          (if i < length xs
           then (case append_at path x (xs ! i) of
                   Inl e \<Rightarrow> Inl e
                 | Inr v' \<Rightarrow> Inr (JArr (xs[i := v'])))
           else Inl IndexError)
      | _ \<Rightarrow> Inl (NotSubscriptable (type_name target)))"

definition rules_path :: "subscript list" where
  "rules_path = [Key ''runs'', Pos 0, Key ''tool'', Key ''driver'', Key ''rules'']"

definition results_path :: "subscript list" where
  "results_path = [Key ''runs'', Pos 0, Key ''results'']"

text \<open>The dict \<^verbatim>\<open>sarif\<close> as the script first builds it, both lists empty.\<close>

definition sarif_skeleton :: json where
  "sarif_skeleton =
     JObj
       [(''$schema'', JStr ''https://json.schemastore.org/sarif-2.1.0.json''),
        (''version'', JStr ''2.1.0''),
        (''runs'', JArr
           [JObj
              [(''tool'', JObj
                  [(''driver'', JObj
                      [(''name'', JStr ''cargo-audit''),
                       (''version'', JStr ''0.18.0''),
                       (''informationUri'', JStr ''https://github.com/RustSec/rustsec''),
                       (''rules'', JArr [])])]),
               (''results'', JArr []),
               (''columnKind'', JStr ''utf16CodeUnits'')]])]"

text \<open>
  What \<^verbatim>\<open>for vuln in vulnerabilities\<close> runs over. A list gives its elements, a dict its
  keys, a str its characters one by one (each a str of one code point, so the bytes
  of the UTF-8 encoding are cut before every byte that does not continue a
  character); \<^verbatim>\<open>None\<close>, a bool or a number cannot be iterated.
\<close>

definition continues :: "char \<Rightarrow> bool" where
  "continues c = (128 \<le> (of_char c :: nat) \<and> (of_char c :: nat) < 192)"

function code_points :: "string \<Rightarrow> string list" where
  "code_points [] = []"
| "code_points (c # cs) =
     (c # takeWhile continues cs) # code_points (dropWhile continues cs)"
  by pat_completeness auto
termination
  by (relation "measure length") (simp_all add: length_dropWhile_le less_Suc_eq_le)

definition iterate :: "json \<Rightarrow> error + json list" where
  "iterate v =
     (case v of
        JArr xs \<Rightarrow> Inr xs
      | JObj kvs \<Rightarrow> Inr (map (\<lambda>(k, _). JStr k) kvs)
      | JStr s \<Rightarrow> Inr (map JStr (code_points s))
      | _ \<Rightarrow> Inl (NotIterable (type_name v)))"

text \<open>
  The body of the loop, once per vulnerability in order: the rule is built and
  appended, then the result is built and appended. The first exception ends the loop.
\<close>

fun add_vulnerabilities :: "(json \<Rightarrow> string) \<Rightarrow> json list \<Rightarrow> json \<Rightarrow> error + json" where
  "add_vulnerabilities str_of [] sarif = Inr sarif"
| "add_vulnerabilities str_of (vuln # rest) sarif =
     (case create_sarif_rule str_of vuln of
        Inl e \<Rightarrow> Inl e
      | Inr rule \<Rightarrow>
          (case append_at rules_path rule sarif of
             Inl e \<Rightarrow> Inl e
           | Inr sarif1 \<Rightarrow>
               (case create_sarif_result vuln of
                  Inl e \<Rightarrow> Inl e
                | Inr result \<Rightarrow>
                    (case append_at results_path result sarif1 of
                       Inl e \<Rightarrow> Inl e
                     | Inr sarif2 \<Rightarrow> add_vulnerabilities str_of rest sarif2))))"

text \<open>\<^verbatim>\<open>convert_audit_to_sarif(audit_data)\<close>.\<close>

definition convert_audit_to_sarif :: "(json \<Rightarrow> string) \<Rightarrow> json \<Rightarrow> error + json" where
  "convert_audit_to_sarif str_of audit_data =
     and_then (get audit_data ''vulnerabilities'' (JObj [])) (\<lambda>report.
     and_then (get report ''list'' (JArr [])) (\<lambda>vulnerabilities.
     and_then (iterate vulnerabilities) (\<lambda>items.
     add_vulnerabilities str_of items sarif_skeleton)))"

section \<open>The command\<close>

text \<open>
  What \<^verbatim>\<open>main\<close> can see and change outside the program: what reading a path gives
  (the text of the file, or the exception \<^verbatim>\<open>open\<close> raises), whether opening a path for
  writing raises, and the lines printed so far. \<open>opened\<close> records every call of
  \<^verbatim>\<open>open\<close> with its path and mode, in order.
\<close>

record world =
  read_file :: "string \<Rightarrow> error + string"
  write_error :: "string \<Rightarrow> error option"
  stdout :: "string list"
  opened :: "(string \<times> string) list"

definition print :: "string \<Rightarrow> world \<Rightarrow> world" where
  "print line w = w\<lparr>stdout := stdout w @ [line]\<rparr>"

definition quoted :: "string \<Rightarrow> string" where
  "quoted s = [CHR 0x27] @ s @ [CHR 0x27]"

text \<open>\<^verbatim>\<open>str(e)\<close> for a caught exception \<open>e\<close>.\<close>

fun message :: "error \<Rightarrow> string" where
  "message (AttributeError t a) = quoted t @ '' object has no attribute '' @ quoted a"
| "message (NotIterable t) = quoted t @ '' object is not iterable''"
| "message (NotSubscriptable t) = quoted t @ '' object is not subscriptable''"
| "message (KeyError k) = quoted k"
| "message IndexError = ''list index out of range''"
| "message (EnvError m) = m"

text \<open>
  \<^verbatim>\<open>main()\<close>, with \<^verbatim>\<open>sys.argv\<close> as \<open>argv\<close>; the result is the exit status and the world
  it leaves. \<^verbatim>\<open>json.load\<close> and \<^verbatim>\<open>json.dump(..., indent=2)\<close> are parameters. The parser
  gives a value or raises. The printer writes the text to the open file piece by
  piece and may raise on the way (from the encoder or from a write): it gives the
  text that has reached the file, and the exception if there was one. Opening the
  output file empties it, so after a failed dump the file holds what was written up
  to the exception.
\<close>

definition main ::
  "(json \<Rightarrow> string) \<Rightarrow> (string \<Rightarrow> error + json) \<Rightarrow> (json \<Rightarrow> string \<times> error option)
     \<Rightarrow> string list \<Rightarrow> world \<Rightarrow> int \<times> world" where
  "main str_of json_load json_dump argv w =
     (if length argv \<noteq> 3
      then (1, print ''Usage: audit-to-sarif.py <input.json> <output.sarif>'' w)
      else
        let input_file = argv ! 1;
            output_file = argv ! 2;
            w1 = w\<lparr>opened := opened w @ [(input_file, ''r'')]\<rparr>
        in case and_then (read_file w1 input_file) (\<lambda>text.
                and_then (json_load text) (\<lambda>audit_data.
                convert_audit_to_sarif str_of audit_data)) of
             Inl e \<Rightarrow> (1, print (''Error: '' @ message e) w1)
           | Inr sarif_data \<Rightarrow>
               let w2 = w1\<lparr>opened := opened w1 @ [(output_file, ''w'')]\<rparr>
               in case write_error w2 output_file of
                    Some e \<Rightarrow> (1, print (''Error: '' @ message e) w2)
                  | None \<Rightarrow>
                      (case json_dump sarif_data of
                         (written, failure) \<Rightarrow>
                           let w3 = w2\<lparr>read_file :=
                                        fun_upd (read_file w2) output_file (Inr written)\<rparr>
                           in case failure of
                                Some e \<Rightarrow> (1, print (''Error: '' @ message e) w3)
                              | None \<Rightarrow>
                                  (0, print (''Successfully converted '' @ input_file
                                               @ '' to '' @ output_file) w3)))"

section \<open>Reading the document\<close>

text \<open>
  \<open>value_at path v\<close> is what \<^verbatim>\<open>v[s1][s2]...\<close> reads for the subscripts of \<open>path\<close>,
  and \<open>None\<close> where the Python expression raises.
\<close>

fun value_at :: "subscript list \<Rightarrow> json \<Rightarrow> json option" where
  "value_at [] v = Some v"
| "value_at (Key k # path) v =
     (case v of
        JObj kvs \<Rightarrow> (case map_of kvs k of None \<Rightarrow> None | Some v' \<Rightarrow> value_at path v')
      | _ \<Rightarrow> None)"
| "value_at (Pos i # path) v =
     (case v of
        JArr xs \<Rightarrow> (if i < length xs then value_at path (xs ! i) else None)
      | _ \<Rightarrow> None)"

text \<open>The value of an optional entry, or the default of a \<^verbatim>\<open>get\<close>.\<close>

definition or_default :: "json option \<Rightarrow> json \<Rightarrow> json" where
  "or_default entry dflt = (case entry of Some v \<Rightarrow> v | None \<Rightarrow> dflt)"

text \<open>
  The vulnerabilities the loop of \<^verbatim>\<open>convert_audit_to_sarif\<close> runs over: the value read
  in its first line, iterated.
\<close>

definition input_vulnerabilities :: "json \<Rightarrow> error + json list" where
  "input_vulnerabilities audit_data =
     and_then (get audit_data ''vulnerabilities'' (JObj [])) (\<lambda>report.
     and_then (get report ''list'' (JArr [])) (\<lambda>vulnerabilities.
     iterate vulnerabilities))"

text \<open>
  The advisory id of a vulnerability as both builders read it:
  \<^verbatim>\<open>vuln.get("advisory", {}).get("id", "UNKNOWN")\<close>.
\<close>

definition advisory_id :: "json \<Rightarrow> error + json" where
  "advisory_id vuln =
     and_then (get vuln ''advisory'' (JObj [])) (\<lambda>advisory.
     get advisory ''id'' (JStr ''UNKNOWN''))"

text \<open>The dict \<^verbatim>\<open>sarif\<close> when its two lists hold \<open>rules\<close> and \<open>results\<close>.\<close>

definition sarif_doc :: "json list \<Rightarrow> json list \<Rightarrow> json" where
  "sarif_doc rules results =
     JObj
       [(''$schema'', JStr ''https://json.schemastore.org/sarif-2.1.0.json''),
        (''version'', JStr ''2.1.0''),
        (''runs'', JArr
           [JObj
              [(''tool'', JObj
                  [(''driver'', JObj
                      [(''name'', JStr ''cargo-audit''),
                       (''version'', JStr ''0.18.0''),
                       (''informationUri'', JStr ''https://github.com/RustSec/rustsec''),
                       (''rules'', JArr rules)])]),
               (''results'', JArr results),
               (''columnKind'', JStr ''utf16CodeUnits'')]])]"

section \<open>The same functions on a store of objects\<close>

text \<open>
  Lists and dicts are objects: a variable holds a reference, two references may name
  one object, and \<^verbatim>\<open>append\<close> changes the object for every holder. The functions are
  translated a second time with the objects in a store, so that what a call does to
  the objects of its caller can be stated. \<^verbatim>\<open>None\<close>, bools, numbers and strs cannot be
  changed and stay values.
\<close>

type_synonym addr = nat

datatype pyval =
    VNone
  | VBool bool
  | VInt int
  | VFloat "64 word"
  | VStr string
  | VRef addr

datatype pyobj = OList "pyval list" | ODict "(string \<times> pyval) list"

text \<open>
  The store: the object at every address, and the next free address. The objects of
  the program are the ones below \<open>next_free\<close>; a new object gets the address
  \<open>next_free\<close>.
\<close>

record store =
  objs :: "addr \<Rightarrow> pyobj"
  next_free :: addr

text \<open>A step takes the store and gives a value, or an exception, and the store it leaves.\<close>

type_synonym 'a step = "store \<Rightarrow> (error + 'a) \<times> store"

definition return :: "'a \<Rightarrow> 'a step" where
  "return x h = (Inr x, h)"

definition raise :: "error \<Rightarrow> 'a step" where
  "raise e h = (Inl e, h)"

definition seq :: "'a step \<Rightarrow> ('a \<Rightarrow> 'b step) \<Rightarrow> 'b step" where
  "seq m f h = (case m h of (Inl e, h') \<Rightarrow> (Inl e, h') | (Inr x, h') \<Rightarrow> f x h')"

text \<open>A list or dict display: a new object.\<close>

definition alloc :: "pyobj \<Rightarrow> pyval step" where
  "alloc obj h =
     (Inr (VRef (next_free h)),
      h\<lparr>objs := (objs h)(next_free h := obj), next_free := next_free h + 1\<rparr>)"

definition type_name_st :: "store \<Rightarrow> pyval \<Rightarrow> string" where
  "type_name_st h v =
     (case v of
        VNone \<Rightarrow> ''NoneType''
      | VBool b \<Rightarrow> ''bool''
      | VInt i \<Rightarrow> ''int''
      | VFloat x \<Rightarrow> ''float''
      | VStr s \<Rightarrow> ''str''
      | VRef a \<Rightarrow> (case objs h a of OList xs \<Rightarrow> ''list'' | ODict kvs \<Rightarrow> ''dict''))"

text \<open>The attribute lookup \<^verbatim>\<open>d.get\<close>: the entries of \<open>d\<close> when it is a dict.\<close>

definition get_method :: "pyval \<Rightarrow> (string \<times> pyval) list step" where
  "get_method d h =
     (case d of
        VRef a \<Rightarrow>
          (case objs h a of
             ODict kvs \<Rightarrow> (Inr kvs, h)
           | OList xs \<Rightarrow> (Inl (AttributeError ''list'' ''get''), h))
      | _ \<Rightarrow> (Inl (AttributeError (type_name_st h d) ''get''), h))"

text \<open>
  \<^verbatim>\<open>d.get(k, default)\<close>: the method is looked up, then the default is evaluated (a
  display there makes a new object, used or not), then the call is made.
\<close>

definition get_st :: "pyval \<Rightarrow> string \<Rightarrow> pyval step \<Rightarrow> pyval step" where
  "get_st d k dflt =
     seq (get_method d) (\<lambda>kvs.
     seq dflt (\<lambda>v.
     return (case map_of kvs k of Some x \<Rightarrow> x | None \<Rightarrow> v)))"

definition convert_severity_st :: "pyval \<Rightarrow> pyval step" where
  "convert_severity_st severity =
     seq (alloc (ODict (map (\<lambda>(k, l). (k, VStr l)) severity_map))) (\<lambda>table.
     (case severity of
        VStr s \<Rightarrow>
          return (VStr (case map_of severity_map (lower s) of Some l \<Rightarrow> l | None \<Rightarrow> ''warning''))
      | _ \<Rightarrow> (\<lambda>h. raise (AttributeError (type_name_st h severity) ''lower'') h)))"

definition create_sarif_result_st :: "pyval \<Rightarrow> pyval step" where
  "create_sarif_result_st vuln =
     seq (get_st vuln ''advisory'' (alloc (ODict []))) (\<lambda>advisory.
     seq (get_st vuln ''package'' (alloc (ODict []))) (\<lambda>package.
     seq (get_st advisory ''id'' (return (VStr ''UNKNOWN''))) (\<lambda>rule_id.
     seq (get_st vuln ''severity'' (return (VStr ''medium''))) (\<lambda>severity.
     seq (convert_severity_st severity) (\<lambda>level.
     seq (get_st advisory ''description'' (return (VStr ''Unknown vulnerability''))) (\<lambda>text.
     seq (alloc (ODict [(''text'', text)])) (\<lambda>message.
     seq (alloc (ODict [(''uri'', VStr ''Cargo.toml'')])) (\<lambda>artifact_location.
     seq (alloc (ODict [(''startLine'', VInt 1), (''startColumn'', VInt 1)])) (\<lambda>region.
     seq (alloc (ODict [(''artifactLocation'', artifact_location), (''region'', region)]))
       (\<lambda>physical_location.
     seq (alloc (ODict [(''physicalLocation'', physical_location)])) (\<lambda>location.
     seq (alloc (OList [location])) (\<lambda>locations.
     seq (get_st package ''name'' (return (VStr []))) (\<lambda>package_name.
     seq (get_st package ''version'' (return (VStr []))) (\<lambda>package_version.
     seq (alloc (ODict [(''packageName'', package_name), (''packageVersion'', package_version)]))
       (\<lambda>fingerprints.
     seq (get_st vuln ''cvss'' (alloc (ODict []))) (\<lambda>cvss.
     seq (get_st cvss ''score'' (return (VFloat 0x4014000000000000))) (\<lambda>score.
     seq (alloc (OList [VStr ''security'', VStr ''dependency'', VStr ''vulnerability'']))
       (\<lambda>tags.
     seq (alloc (ODict [(''security-severity'', score), (''tags'', tags),
                        (''precision'', VStr ''very-high'')])) (\<lambda>properties.
     alloc (ODict
       [(''ruleId'', rule_id),
        (''level'', level),
        (''message'', message),
        (''locations'', locations),
        (''partialFingerprints'', fingerprints),
        (''properties'', properties)]))))))))))))))))))))"

text \<open>
  A field of an f-string. The text \<^verbatim>\<open>str(v)\<close> of a value that is not a str may depend
  on the objects it refers to, so the parameter reads the store.
\<close>

definition format_field_st :: "(store \<Rightarrow> pyval \<Rightarrow> string) \<Rightarrow> pyval \<Rightarrow> string step" where
  "format_field_st str_of v h = (case v of VStr s \<Rightarrow> (Inr s, h) | _ \<Rightarrow> (Inr (str_of h v), h))"

definition create_sarif_rule_st :: "(store \<Rightarrow> pyval \<Rightarrow> string) \<Rightarrow> pyval \<Rightarrow> pyval step" where
  "create_sarif_rule_st str_of vuln =
     seq (get_st vuln ''advisory'' (alloc (ODict []))) (\<lambda>advisory.
     seq (get_st advisory ''id'' (return (VStr ''UNKNOWN''))) (\<lambda>rule_id.
     seq (get_st advisory ''title'' (return (VStr ''Unknown vulnerability''))) (\<lambda>name.
     seq (get_st advisory ''title'' (return (VStr ''Unknown vulnerability''))) (\<lambda>short_text.
     seq (alloc (ODict [(''text'', short_text)])) (\<lambda>short_description.
     seq (get_st advisory ''description'' (return (VStr []))) (\<lambda>full_text.
     seq (alloc (ODict [(''text'', full_text)])) (\<lambda>full_description.
     seq (get_st vuln ''package'' (alloc (ODict []))) (\<lambda>package.
     seq (get_st package ''name'' (return (VStr ''package''))) (\<lambda>package_name.
     seq (format_field_st str_of package_name) (\<lambda>name_text.
     seq (get_st advisory ''title'' (return (VStr ''Vulnerability''))) (\<lambda>heading.
     seq (format_field_st str_of heading) (\<lambda>heading_text.
     seq (get_st advisory ''description'' (return (VStr []))) (\<lambda>body.
     seq (format_field_st str_of body) (\<lambda>body_text.
     seq (get_st advisory ''url'' (return (VStr []))) (\<lambda>url.
     seq (format_field_st str_of url) (\<lambda>url_text.
     seq (alloc (ODict
            [(''text'', VStr (''Update '' @ name_text @ '' to a patched version'')),
             (''markdown'', VStr
                (''## '' @ heading_text @ [newline, newline]
                  @ body_text @ [newline, newline]
                  @ ''### References'' @ [newline]
                  @ ''- '' @ url_text))])) (\<lambda>help.
     seq (get_st vuln ''cvss'' (alloc (ODict []))) (\<lambda>cvss.
     seq (get_st cvss ''score'' (return (VFloat 0x4014000000000000))) (\<lambda>score.
     seq (alloc (OList [VStr ''security'', VStr ''vulnerability''])) (\<lambda>tags.
     seq (alloc (ODict [(''security-severity'', score), (''tags'', tags)])) (\<lambda>properties.
     alloc (ODict
       [(''id'', rule_id),
        (''name'', name),
        (''shortDescription'', short_description),
        (''fullDescription'', full_description),
        (''help'', help),
        (''properties'', properties)]))))))))))))))))))))))"

text \<open>
  One subscript, \<^verbatim>\<open>v[k]\<close> on a dict or \<^verbatim>\<open>v[i]\<close> on a list. The function subscripts
  only the document it has built itself and never meets the error cases; a subscript
  of the wrong kind for the value is not told apart further.
\<close>

definition subscript_st :: "pyval \<Rightarrow> subscript \<Rightarrow> pyval step" where
  "subscript_st v s h =
     (case v of
        VRef a \<Rightarrow>
          (case (objs h a, s) of
             (ODict kvs, Key k) \<Rightarrow>
               (case map_of kvs k of
                  None \<Rightarrow> (Inl (KeyError k), h)
                | Some x \<Rightarrow> (Inr x, h))
           | (OList xs, Pos i) \<Rightarrow>
               (if i < length xs then (Inr (xs ! i), h) else (Inl IndexError, h))
           | _ \<Rightarrow> (Inl (NotSubscriptable (type_name_st h v)), h))
      | _ \<Rightarrow> (Inl (NotSubscriptable (type_name_st h v)), h))"

fun navigate :: "pyval \<Rightarrow> subscript list \<Rightarrow> pyval step" where
  "navigate v [] = return v"
| "navigate v (s # path) = seq (subscript_st v s) (\<lambda>v'. navigate v' path)"

text \<open>The attribute lookup \<^verbatim>\<open>v.append\<close>: the address of \<open>v\<close> when it is a list.\<close>

definition append_method :: "pyval \<Rightarrow> addr step" where
  "append_method v h =
     (case v of
        VRef a \<Rightarrow>
          (case objs h a of
             OList xs \<Rightarrow> (Inr a, h)
           | ODict kvs \<Rightarrow> (Inl (AttributeError ''dict'' ''append''), h))
      | _ \<Rightarrow> (Inl (AttributeError (type_name_st h v) ''append''), h))"

text \<open>The call of a list's \<^verbatim>\<open>append\<close>: the list object itself is changed.\<close>

definition append_st :: "addr \<Rightarrow> pyval \<Rightarrow> unit step" where
  "append_st a x h =
     (case objs h a of
        OList xs \<Rightarrow> (Inr (), h\<lparr>objs := (objs h)(a := OList (xs @ [x]))\<rparr>)
      | ODict kvs \<Rightarrow> (Inl (AttributeError ''dict'' ''append''), h))"

text \<open>
  The elements a \<^verbatim>\<open>for\<close> loop runs over, read when the loop starts. (The loop body
  below changes no object that existed before the call, so the list it runs over
  keeps these elements to the end.)
\<close>

definition iterate_st :: "pyval \<Rightarrow> pyval list step" where
  "iterate_st v h =
     (case v of
        VRef a \<Rightarrow>
          (case objs h a of
             OList xs \<Rightarrow> (Inr xs, h)
           | ODict kvs \<Rightarrow> (Inr (map (\<lambda>(k, _). VStr k) kvs), h))
      | VStr s \<Rightarrow> (Inr (map VStr (code_points s)), h)
      | _ \<Rightarrow> (Inl (NotIterable (type_name_st h v)), h))"

text \<open>
  The loop. In \<^verbatim>\<open>target.append(f(vuln))\<close> the target is found first, then the argument
  is evaluated, then the call is made.
\<close>

fun add_vulnerabilities_st ::
  "(store \<Rightarrow> pyval \<Rightarrow> string) \<Rightarrow> pyval list \<Rightarrow> pyval \<Rightarrow> unit step" where
  "add_vulnerabilities_st str_of [] sarif = return ()"
| "add_vulnerabilities_st str_of (vuln # rest) sarif =
     seq (navigate sarif rules_path) (\<lambda>rules.
     seq (append_method rules) (\<lambda>rules_at.
     seq (create_sarif_rule_st str_of vuln) (\<lambda>rule.
     seq (append_st rules_at rule) (\<lambda>_.
     seq (navigate sarif results_path) (\<lambda>results.
     seq (append_method results) (\<lambda>results_at.
     seq (create_sarif_result_st vuln) (\<lambda>result.
     seq (append_st results_at result) (\<lambda>_.
     add_vulnerabilities_st str_of rest sarif))))))))"

text \<open>The display that makes \<^verbatim>\<open>sarif\<close>: seven new objects, the innermost first.\<close>

definition new_sarif :: "pyval step" where
  "new_sarif =
     seq (alloc (OList [])) (\<lambda>rules.
     seq (alloc (ODict
            [(''name'', VStr ''cargo-audit''),
             (''version'', VStr ''0.18.0''),
             (''informationUri'', VStr ''https://github.com/RustSec/rustsec''),
             (''rules'', rules)])) (\<lambda>driver.
     seq (alloc (ODict [(''driver'', driver)])) (\<lambda>tool.
     seq (alloc (OList [])) (\<lambda>results.
     seq (alloc (ODict
            [(''tool'', tool),
             (''results'', results),
             (''columnKind'', VStr ''utf16CodeUnits'')])) (\<lambda>run.
     seq (alloc (OList [run])) (\<lambda>runs.
     alloc (ODict
       [(''$schema'', VStr ''https://json.schemastore.org/sarif-2.1.0.json''),
        (''version'', VStr ''2.1.0''),
        (''runs'', runs)])))))))"

definition convert_audit_to_sarif_st ::
  "(store \<Rightarrow> pyval \<Rightarrow> string) \<Rightarrow> pyval \<Rightarrow> pyval step" where
  "convert_audit_to_sarif_st str_of audit_data =
     seq (get_st audit_data ''vulnerabilities'' (alloc (ODict []))) (\<lambda>report.
     seq (get_st report ''list'' (alloc (OList []))) (\<lambda>vulnerabilities.
     seq new_sarif (\<lambda>sarif.
     seq (iterate_st vulnerabilities) (\<lambda>items.
     seq (add_vulnerabilities_st str_of items sarif) (\<lambda>_.
     return sarif)))))"

section \<open>What a call leaves alone\<close>

text \<open>
  \<open>grows m\<close>: the step \<open>m\<close> changes no object of the store it starts in; whether it
  returns or raises, all it does to the store is add objects.
\<close>

definition grows :: "'a step \<Rightarrow> bool" where
  "grows m \<longleftrightarrow>
     (\<forall>h. next_free h \<le> next_free (snd (m h)) \<and>
          (\<forall>a<next_free h. objs (snd (m h)) a = objs h a))"

text \<open>
  \<open>skeleton_at b h\<close>: the seven objects of the document lie at the addresses \<open>b\<close> to
  \<open>b + 6\<close> of \<open>h\<close> and refer to each other as the display made them, with any
  elements in the two lists.
\<close>

definition skeleton_at :: "addr \<Rightarrow> store \<Rightarrow> bool" where
  "skeleton_at b h \<longleftrightarrow>
     b + 7 \<le> next_free h \<and>
     (\<exists>rules. objs h b = OList rules) \<and>
     objs h (b + 1) = ODict
       [(''name'', VStr ''cargo-audit''),
        (''version'', VStr ''0.18.0''),
        (''informationUri'', VStr ''https://github.com/RustSec/rustsec''),
        (''rules'', VRef b)] \<and>
     objs h (b + 2) = ODict [(''driver'', VRef (b + 1))] \<and>
     (\<exists>results. objs h (b + 3) = OList results) \<and>
     objs h (b + 4) = ODict
       [(''tool'', VRef (b + 2)),
        (''results'', VRef (b + 3)),
        (''columnKind'', VStr ''utf16CodeUnits'')] \<and>
     objs h (b + 5) = OList [VRef (b + 4)] \<and>
     objs h (b + 6) = ODict
       [(''$schema'', VStr ''https://json.schemastore.org/sarif-2.1.0.json''),
        (''version'', VStr ''2.1.0''),
        (''runs'', VRef (b + 5))]"

section \<open>What a value in the store reads as\<close>

text \<open>
  \<open>reifies A h v j\<close>: in the store \<open>h\<close> the value \<open>v\<close> reads as the JSON value \<open>j\<close>,
  and every object met on the way lies at an address in \<open>A\<close>. A list reads as the
  array of what its elements read as, a dict as the object of what its values read
  as, key by key and in the same order. With \<open>A\<close> all the addresses in use this is
  what \<^verbatim>\<open>json.dump\<close> prints for \<open>v\<close>.
\<close>

inductive reifies :: "addr set \<Rightarrow> store \<Rightarrow> pyval \<Rightarrow> json \<Rightarrow> bool"
  for A :: "addr set" and h :: store where
  none: "reifies A h VNone JNull"
| bool: "reifies A h (VBool b) (JBool b)"
| int: "reifies A h (VInt i) (JInt i)"
| float: "reifies A h (VFloat x) (JFloat x)"
| str: "reifies A h (VStr s) (JStr s)"
| list: "a \<in> A \<Longrightarrow> objs h a = OList xs \<Longrightarrow> list_all2 (reifies A h) xs js
     \<Longrightarrow> reifies A h (VRef a) (JArr js)"
| dict: "a \<in> A \<Longrightarrow> objs h a = ODict kvs
     \<Longrightarrow> list_all2 (\<lambda>kv kj. fst kv = fst kj \<and> reifies A h (snd kv) (snd kj)) kvs kjs
     \<Longrightarrow> reifies A h (VRef a) (JObj kjs)"

text \<open>
  The text an f-string field puts in for \<open>v\<close> in the store \<open>h\<close>: the result of
  \<open>format_field_st\<close>.
\<close>

definition shown :: "(store \<Rightarrow> pyval \<Rightarrow> string) \<Rightarrow> store \<Rightarrow> pyval \<Rightarrow> string" where
  "shown str_of h v = (case v of VStr s \<Rightarrow> s | _ \<Rightarrow> str_of h v)"

text \<open>
  The addresses in use outside the seven objects of the document that starts at \<open>b\<close>.
\<close>

definition outside :: "addr \<Rightarrow> store \<Rightarrow> addr set" where
  "outside b h = {x. x < next_free h \<and> (x < b \<or> b + 6 < x)}"

section \<open>Basic facts\<close>

lemma and_then_Inr [simp]: "and_then (Inr x) f = f x"
  by (simp add: and_then_def)

lemma and_then_Inl [simp]: "and_then (Inl e) f = Inl e"
  by (simp add: and_then_def)

lemma and_then_eq_Inr:
  "and_then m f = Inr y \<longleftrightarrow> (\<exists>x. m = Inr x \<and> f x = Inr y)"
  by (cases m) simp_all

lemma get_dict [simp]:
  "get (JObj kvs) k dflt = Inr (case map_of kvs k of Some v \<Rightarrow> v | None \<Rightarrow> dflt)"
  by (simp add: get_def)

lemma get_eq_Inr:
  "get d k dflt = Inr v \<longleftrightarrow> (\<exists>kvs. d = JObj kvs \<and> v = or_default (map_of kvs k) dflt)"
  by (cases d) (auto simp: get_def or_default_def)

lemma convert_severity_str:
  "convert_severity (JStr s) =
     Inr (case map_of severity_map (lower s) of Some l \<Rightarrow> l | None \<Rightarrow> ''warning'')"
  by (simp add: convert_severity_def)

lemma create_sarif_result_record:
  assumes "map_of vuln ''advisory'' = None \<and> advisory = [] \<or>
           map_of vuln ''advisory'' = Some (JObj advisory)"
    and "map_of vuln ''package'' = None \<and> package = [] \<or>
         map_of vuln ''package'' = Some (JObj package)"
    and "map_of vuln ''severity'' = None \<and> severity = ''medium'' \<or>
         map_of vuln ''severity'' = Some (JStr severity)"
    and "map_of vuln ''cvss'' = None \<and> cvss = [] \<or>
         map_of vuln ''cvss'' = Some (JObj cvss)"
    and "convert_severity (JStr severity) = Inr level"
  shows "create_sarif_result (JObj vuln) =
     Inr (JObj
       [(''ruleId'', or_default (map_of advisory ''id'') (JStr ''UNKNOWN'')),
        (''level'', JStr level),
        (''message'', JObj
           [(''text'', or_default (map_of advisory ''description'')
                         (JStr ''Unknown vulnerability''))]),
        (''locations'', JArr
           [JObj [(''physicalLocation'', JObj
              [(''artifactLocation'', JObj [(''uri'', JStr ''Cargo.toml'')]),
               (''region'', JObj [(''startLine'', JInt 1), (''startColumn'', JInt 1)])])]]),
        (''partialFingerprints'', JObj
           [(''packageName'', or_default (map_of package ''name'') (JStr [])),
            (''packageVersion'', or_default (map_of package ''version'') (JStr []))]),
        (''properties'', JObj
           [(''security-severity'', or_default (map_of cvss ''score'') float_5_0),
            (''tags'', JArr [JStr ''security'', JStr ''dependency'', JStr ''vulnerability'']),
            (''precision'', JStr ''very-high'')])])"
proof -
  have a: "get (JObj vuln) ''advisory'' (JObj []) = Inr (JObj advisory)"
    using assms(1) by auto
  have p: "get (JObj vuln) ''package'' (JObj []) = Inr (JObj package)"
    using assms(2) by auto
  have s: "get (JObj vuln) ''severity'' (JStr ''medium'') = Inr (JStr severity)"
    using assms(3) by auto
  have c: "get (JObj vuln) ''cvss'' (JObj []) = Inr (JObj cvss)"
    using assms(4) by auto
  show ?thesis
    unfolding create_sarif_result_def a p s c and_then_Inr assms(5)
    by (simp add: or_default_def)
qed

lemma create_sarif_rule_record:
  assumes "map_of vuln ''advisory'' = None \<and> advisory = [] \<or>
           map_of vuln ''advisory'' = Some (JObj advisory)"
    and "map_of vuln ''package'' = None \<and> package = [] \<or>
         map_of vuln ''package'' = Some (JObj package)"
    and "map_of vuln ''cvss'' = None \<and> cvss = [] \<or>
         map_of vuln ''cvss'' = Some (JObj cvss)"
  shows "create_sarif_rule str_of (JObj vuln) =
     Inr (JObj
       [(''id'', or_default (map_of advisory ''id'') (JStr ''UNKNOWN'')),
        (''name'', or_default (map_of advisory ''title'') (JStr ''Unknown vulnerability'')),
        (''shortDescription'', JObj
           [(''text'', or_default (map_of advisory ''title'') (JStr ''Unknown vulnerability''))]),
        (''fullDescription'', JObj
           [(''text'', or_default (map_of advisory ''description'') (JStr []))]),
        (''help'', JObj
           [(''text'', JStr
               (''Update ''
                 @ format_field str_of (or_default (map_of package ''name'') (JStr ''package''))
                 @ '' to a patched version'')),
            (''markdown'', JStr
               (''## ''
                 @ format_field str_of (or_default (map_of advisory ''title'') (JStr ''Vulnerability''))
                 @ [newline, newline]
                 @ format_field str_of (or_default (map_of advisory ''description'') (JStr []))
                 @ [newline, newline]
                 @ ''### References'' @ [newline]
                 @ ''- '' @ format_field str_of (or_default (map_of advisory ''url'') (JStr [])))
             )]),
        (''properties'', JObj
           [(''security-severity'', or_default (map_of cvss ''score'') float_5_0),
            (''tags'', JArr [JStr ''security'', JStr ''vulnerability''])])])"
proof -
  have a: "get (JObj vuln) ''advisory'' (JObj []) = Inr (JObj advisory)"
    using assms(1) by auto
  have p: "get (JObj vuln) ''package'' (JObj []) = Inr (JObj package)"
    using assms(2) by auto
  have c: "get (JObj vuln) ''cvss'' (JObj []) = Inr (JObj cvss)"
    using assms(3) by auto
  show ?thesis
    unfolding create_sarif_rule_def a p c and_then_Inr
    by (simp add: or_default_def)
qed

lemma iterate_list [simp]: "iterate (JArr xs) = Inr xs"
  by (simp add: iterate_def)

lemma sarif_skeleton_doc: "sarif_skeleton = sarif_doc [] []"
  by (simp add: sarif_skeleton_def sarif_doc_def)

lemma append_rule:
  "append_at rules_path rule (sarif_doc rules results) = Inr (sarif_doc (rules @ [rule]) results)"
  by (simp add: rules_path_def sarif_doc_def)

lemma append_result:
  "append_at results_path result (sarif_doc rules results) =
     Inr (sarif_doc rules (results @ [result]))"
  by (simp add: results_path_def sarif_doc_def)

lemma rules_of_doc: "value_at rules_path (sarif_doc rules results) = Some (JArr rules)"
  by (simp add: rules_path_def sarif_doc_def)

lemma results_of_doc: "value_at results_path (sarif_doc rules results) = Some (JArr results)"
  by (simp add: results_path_def sarif_doc_def)

lemma add_vulnerabilities_doc:
  "add_vulnerabilities str_of vulns (sarif_doc rules0 results0) = Inr sarif \<longleftrightarrow>
     (\<exists>rules results.
        list_all2 (\<lambda>v r. create_sarif_rule str_of v = Inr r) vulns rules \<and>
        list_all2 (\<lambda>v x. create_sarif_result v = Inr x) vulns results \<and>
        sarif = sarif_doc (rules0 @ rules) (results0 @ results))"
proof (induction vulns arbitrary: rules0 results0)
  case Nil
  then show ?case by auto
next
  case (Cons vuln rest)
  show ?case
  proof (cases "create_sarif_rule str_of vuln")
    case (Inl e)
    then show ?thesis by (auto simp: list_all2_Cons1)
  next
    case rule: (Inr rule)
    show ?thesis
    proof (cases "create_sarif_result vuln")
      case (Inl e)
      then show ?thesis using rule by (auto simp: list_all2_Cons1 append_rule)
    next
      case result: (Inr result)
      have step: "add_vulnerabilities str_of (vuln # rest) (sarif_doc rules0 results0) =
            add_vulnerabilities str_of rest (sarif_doc (rules0 @ [rule]) (results0 @ [result]))"
        by (simp add: rule result append_rule append_result)
      show ?thesis
        unfolding step Cons.IH by (auto simp: list_all2_Cons1 rule result)
    qed
  qed
qed

lemma convert_audit_to_sarif_loop:
  "convert_audit_to_sarif str_of audit_data =
     and_then (input_vulnerabilities audit_data)
       (\<lambda>vulns. add_vulnerabilities str_of vulns (sarif_doc [] []))"
proof (cases "get audit_data ''vulnerabilities'' (JObj [])")
  case (Inl e)
  then show ?thesis
    by (simp add: convert_audit_to_sarif_def input_vulnerabilities_def)
next
  case report: (Inr report)
  show ?thesis
  proof (cases "get report ''list'' (JArr [])")
    case (Inl e)
    then show ?thesis
      by (simp add: convert_audit_to_sarif_def input_vulnerabilities_def report)
  next
    case (Inr vulnerabilities)
    then show ?thesis
      by (simp add: convert_audit_to_sarif_def input_vulnerabilities_def report
          sarif_skeleton_doc)
  qed
qed

lemma convert_audit_to_sarif_doc:
  "convert_audit_to_sarif str_of audit_data = Inr sarif \<longleftrightarrow>
     (\<exists>vulns rules results.
        input_vulnerabilities audit_data = Inr vulns \<and>
        list_all2 (\<lambda>v r. create_sarif_rule str_of v = Inr r) vulns rules \<and>
        list_all2 (\<lambda>v x. create_sarif_result v = Inr x) vulns results \<and>
        sarif = sarif_doc rules results)"
  unfolding convert_audit_to_sarif_loop and_then_eq_Inr
    add_vulnerabilities_doc [of str_of _ "[]" "[]" sarif]
  by simp

lemma create_sarif_rule_id:
  assumes "create_sarif_rule str_of vuln = Inr rule"
  shows "\<exists>id. advisory_id vuln = Inr id \<and> value_at [Key ''id''] rule = Some id"
  using assms
  by (auto simp: create_sarif_rule_def advisory_id_def and_then_eq_Inr)

lemma create_sarif_result_rule_id:
  assumes "create_sarif_result vuln = Inr result"
  shows "\<exists>id. advisory_id vuln = Inr id \<and> value_at [Key ''ruleId''] result = Some id"
  using assms
  by (auto simp: create_sarif_result_def advisory_id_def and_then_eq_Inr)

lemma main_wrong_argc:
  "length argv \<noteq> 3 \<Longrightarrow>
   main str_of json_load json_dump argv w =
     (1, w\<lparr>stdout := stdout w @ [''Usage: audit-to-sarif.py <input.json> <output.sarif>'']\<rparr>)"
  by (simp add: main_def print_def)

lemma get_Inr_dict:
  assumes "get d k dflt = Inr v"
  obtains kvs where "d = JObj kvs" "v = or_default (map_of kvs k) dflt"
  using assms get_eq_Inr by blast

lemma sub_record_shape:
  assumes "get (JObj vuln) k (JObj []) = Inr sub" and "get sub k' dflt = Inr v"
  shows "\<exists>entries. (map_of vuln k = None \<and> entries = [] \<or> map_of vuln k = Some (JObj entries))
           \<and> sub = JObj entries"
proof -
  from assms(2) obtain entries where sub: "sub = JObj entries"
    by (rule get_Inr_dict)
  from assms(1) have "sub = (case map_of vuln k of Some v \<Rightarrow> v | None \<Rightarrow> JObj [])"
    by simp
  with sub show ?thesis
    by (cases "map_of vuln k") auto
qed

lemma create_sarif_result_shape:
  assumes "create_sarif_result (JObj vuln) = Inr result"
  shows "\<exists>advisory package severity cvss.
     (map_of vuln ''advisory'' = None \<and> advisory = [] \<or>
      map_of vuln ''advisory'' = Some (JObj advisory)) \<and>
     (map_of vuln ''package'' = None \<and> package = [] \<or>
      map_of vuln ''package'' = Some (JObj package)) \<and>
     (map_of vuln ''severity'' = None \<and> severity = ''medium'' \<or>
      map_of vuln ''severity'' = Some (JStr severity)) \<and>
     (map_of vuln ''cvss'' = None \<and> cvss = [] \<or>
      map_of vuln ''cvss'' = Some (JObj cvss))"
proof -
  from assms obtain advisory package rule_id severity level package_name cvss score
    where a: "get (JObj vuln) ''advisory'' (JObj []) = Inr advisory"
      and p: "get (JObj vuln) ''package'' (JObj []) = Inr package"
      and i: "get advisory ''id'' (JStr ''UNKNOWN'') = Inr rule_id"
      and s: "get (JObj vuln) ''severity'' (JStr ''medium'') = Inr severity"
      and l: "convert_severity severity = Inr level"
      and n: "get package ''name'' (JStr []) = Inr package_name"
      and c: "get (JObj vuln) ''cvss'' (JObj []) = Inr cvss"
      and sc: "get cvss ''score'' float_5_0 = Inr score"
    unfolding create_sarif_result_def and_then_eq_Inr by blast
  from l obtain sev where sev: "severity = JStr sev"
    by (cases severity) (simp_all add: convert_severity_def)
  have "map_of vuln ''severity'' = None \<and> sev = ''medium'' \<or>
      map_of vuln ''severity'' = Some (JStr sev)"
    using s sev by (cases "map_of vuln ''severity''") auto
  with sub_record_shape [OF a i] sub_record_shape [OF p n] sub_record_shape [OF c sc]
  show ?thesis by blast
qed

lemma create_sarif_rule_shape:
  assumes "create_sarif_rule str_of (JObj vuln) = Inr rule"
  shows "\<exists>advisory package cvss.
     (map_of vuln ''advisory'' = None \<and> advisory = [] \<or>
      map_of vuln ''advisory'' = Some (JObj advisory)) \<and>
     (map_of vuln ''package'' = None \<and> package = [] \<or>
      map_of vuln ''package'' = Some (JObj package)) \<and>
     (map_of vuln ''cvss'' = None \<and> cvss = [] \<or>
      map_of vuln ''cvss'' = Some (JObj cvss))"
proof -
  from assms obtain advisory rule_id package package_name cvss score
    where a: "get (JObj vuln) ''advisory'' (JObj []) = Inr advisory"
      and i: "get advisory ''id'' (JStr ''UNKNOWN'') = Inr rule_id"
      and p: "get (JObj vuln) ''package'' (JObj []) = Inr package"
      and n: "get package ''name'' (JStr ''package'') = Inr package_name"
      and c: "get (JObj vuln) ''cvss'' (JObj []) = Inr cvss"
      and sc: "get cvss ''score'' float_5_0 = Inr score"
    unfolding create_sarif_rule_def and_then_eq_Inr by blast
  from sub_record_shape [OF a i] sub_record_shape [OF p n] sub_record_shape [OF c sc]
  show ?thesis by blast
qed

subsection \<open>Steps on the store\<close>

lemma growsI:
  assumes "\<And>h. next_free h \<le> next_free (snd (m h))"
    and "\<And>h a. a < next_free h \<Longrightarrow> objs (snd (m h)) a = objs h a"
  shows "grows m"
  using assms by (simp add: grows_def)

lemma growsD:
  assumes "grows m" and "m h = (r, h')"
  shows "next_free h \<le> next_free h'" and "a < next_free h \<Longrightarrow> objs h' a = objs h a"
  using assms by (auto simp: grows_def dest!: spec [of _ h])

lemma grows_return [intro!]: "grows (return x)"
  by (simp add: grows_def return_def)

lemma grows_raise [intro!]: "grows (raise e)"
  by (simp add: grows_def raise_def)

lemma grows_alloc [intro!]: "grows (alloc obj)"
  by (simp add: grows_def alloc_def)

lemma grows_seq [intro!]:
  assumes "grows m" and "\<And>x. grows (f x)"
  shows "grows (seq m f)"
proof (rule growsI)
  fix h
  obtain r h1 where m: "m h = (r, h1)" by (cases "m h")
  note g1 = growsD [OF assms(1) m]
  show "next_free h \<le> next_free (snd (seq m f h))"
  proof (cases r)
    case (Inl e)
    then show ?thesis using m g1(1) by (simp add: seq_def)
  next
    case (Inr x)
    obtain r2 h2 where f: "f x h1 = (r2, h2)" by (cases "f x h1")
    from growsD(1) [OF assms(2) f] g1(1) show ?thesis
      using m Inr f by (simp add: seq_def)
  qed
  fix a assume a: "a < next_free h"
  show "objs (snd (seq m f h)) a = objs h a"
  proof (cases r)
    case (Inl e)
    then show ?thesis using m g1(2) [OF a] by (simp add: seq_def)
  next
    case (Inr x)
    obtain r2 h2 where f: "f x h1 = (r2, h2)" by (cases "f x h1")
    have "a < next_free h1" using a g1(1) by simp
    from growsD(2) [OF assms(2) f this] g1(2) [OF a] show ?thesis
      using m Inr f by (simp add: seq_def)
  qed
qed

lemma grows_get_method [intro!]: "grows (get_method d)"
  by (simp add: grows_def get_method_def split: pyval.splits pyobj.splits)

lemma grows_get_st [intro!]: "grows dflt \<Longrightarrow> grows (get_st d k dflt)"
  unfolding get_st_def by blast

lemma grows_convert_severity_st [intro!]: "grows (convert_severity_st severity)"
proof -
  have "grows (case severity of
        VStr s \<Rightarrow>
          return (VStr (case map_of severity_map (lower s) of Some l \<Rightarrow> l | None \<Rightarrow> ''warning''))
      | _ \<Rightarrow> (\<lambda>h. raise (AttributeError (type_name_st h severity) ''lower'') h))"
    by (cases severity) (simp_all add: grows_def return_def raise_def)
  then show ?thesis
    unfolding convert_severity_st_def by blast
qed

lemma grows_format_field_st [intro!]: "grows (format_field_st str_of v)"
  by (simp add: grows_def format_field_st_def split: pyval.splits)

lemma grows_create_sarif_result_st: "grows (create_sarif_result_st vuln)"
  unfolding create_sarif_result_st_def by blast

lemma grows_create_sarif_rule_st: "grows (create_sarif_rule_st str_of vuln)"
  unfolding create_sarif_rule_st_def by blast

lemma skeleton_kept:
  assumes "skeleton_at b h"
    and "next_free h \<le> next_free h'"
    and "\<And>a. b \<le> a \<Longrightarrow> a < b + 7 \<Longrightarrow> a \<noteq> b \<Longrightarrow> a \<noteq> b + 3 \<Longrightarrow> objs h' a = objs h a"
    and "\<And>xs. objs h b = OList xs \<Longrightarrow> \<exists>ys. objs h' b = OList ys"
    and "\<And>xs. objs h (b + 3) = OList xs \<Longrightarrow> \<exists>ys. objs h' (b + 3) = OList ys"
  shows "skeleton_at b h'"
  using assms unfolding skeleton_at_def by (auto simp del: map_of.simps)

lemma skeleton_grows:
  assumes "skeleton_at b h" and "grows m" and "m h = (r, h')"
  shows "skeleton_at b h'"
proof (rule skeleton_kept [OF assms(1)])
  have top: "b + 7 \<le> next_free h"
    using assms(1) by (simp add: skeleton_at_def)
  show "next_free h \<le> next_free h'"
    by (rule growsD(1) [OF assms(2,3)])
  show "objs h' a = objs h a" if "b \<le> a" "a < b + 7" for a
    using growsD(2) [OF assms(2,3), of a] that top by simp
  show "\<exists>ys. objs h' b = OList ys" if "objs h b = OList xs" for xs
    using growsD(2) [OF assms(2,3), of b] that top by simp
  show "\<exists>ys. objs h' (b + 3) = OList ys" if "objs h (b + 3) = OList xs" for xs
    using growsD(2) [OF assms(2,3), of "b + 3"] that top by simp
qed

lemma navigate_rules:
  "skeleton_at b h \<Longrightarrow> navigate (VRef (b + 6)) rules_path h = (Inr (VRef b), h)"
  by (simp add: skeleton_at_def rules_path_def seq_def subscript_st_def return_def)

lemma navigate_results:
  "skeleton_at b h \<Longrightarrow> navigate (VRef (b + 6)) results_path h = (Inr (VRef (b + 3)), h)"
  by (simp add: skeleton_at_def results_path_def seq_def subscript_st_def return_def)

lemma append_method_rules:
  "skeleton_at b h \<Longrightarrow> append_method (VRef b) h = (Inr b, h)"
  by (auto simp: skeleton_at_def append_method_def)

lemma append_method_results:
  "skeleton_at b h \<Longrightarrow> append_method (VRef (b + 3)) h = (Inr (b + 3), h)"
  by (auto simp: skeleton_at_def append_method_def)

lemma append_st_rules:
  assumes "skeleton_at b h"
  shows "\<exists>h'. append_st b x h = (Inr (), h') \<and> skeleton_at b h' \<and>
     next_free h' = next_free h \<and> (\<forall>a. a \<noteq> b \<longrightarrow> objs h' a = objs h a)"
proof -
  from assms obtain xs where xs: "objs h b = OList xs"
    by (auto simp: skeleton_at_def)
  let ?h' = "h\<lparr>objs := (objs h)(b := OList (xs @ [x]))\<rparr>"
  have "append_st b x h = (Inr (), ?h')"
    by (simp add: append_st_def xs)
  moreover have "skeleton_at b ?h'"
    by (rule skeleton_kept [OF assms]) simp_all
  ultimately show ?thesis by simp
qed

lemma append_st_results:
  assumes "skeleton_at b h"
  shows "\<exists>h'. append_st (b + 3) x h = (Inr (), h') \<and> skeleton_at b h' \<and>
     next_free h' = next_free h \<and> (\<forall>a. a \<noteq> b + 3 \<longrightarrow> objs h' a = objs h a)"
proof -
  from assms obtain xs where xs: "objs h (b + 3) = OList xs"
    by (auto simp: skeleton_at_def)
  let ?h' = "h\<lparr>objs := (objs h)(b + 3 := OList (xs @ [x]))\<rparr>"
  have "append_st (b + 3) x h = (Inr (), ?h')"
    by (simp add: append_st_def xs)
  moreover have "skeleton_at b ?h'"
    by (rule skeleton_kept [OF assms]) simp_all
  ultimately show ?thesis by simp
qed

lemma add_vulnerabilities_st_frame:
  assumes "skeleton_at b h"
    and "add_vulnerabilities_st str_of vulns (VRef (b + 6)) h = (r, h')"
  shows "next_free h \<le> next_free h' \<and> (\<forall>a<b. objs h' a = objs h a)"
  using assms
proof (induction vulns arbitrary: h)
  case Nil
  then show ?case by (simp add: return_def)
next
  case (Cons vuln rest)
  note sk = \<open>skeleton_at b h\<close>
  have top: "b + 7 \<le> next_free h"
    using sk by (simp add: skeleton_at_def)
  obtain r1 h1 where rule: "create_sarif_rule_st str_of vuln h = (r1, h1)"
    by (cases "create_sarif_rule_st str_of vuln h")
  note g1 = growsD [OF grows_create_sarif_rule_st rule]
  have sk1: "skeleton_at b h1"
    by (rule skeleton_grows [OF sk grows_create_sarif_rule_st rule])
  show ?case
  proof (cases r1)
    case (Inl e)
    then have "add_vulnerabilities_st str_of (vuln # rest) (VRef (b + 6)) h = (Inl e, h1)"
      by (simp add: seq_def navigate_rules [OF sk] append_method_rules [OF sk] rule)
    then show ?thesis
      using Cons.prems(2) g1 top by auto
  next
    case r1: (Inr new_rule)
    from append_st_rules [OF sk1, of new_rule] obtain h2
      where app1: "append_st b new_rule h1 = (Inr (), h2)"
        and sk2: "skeleton_at b h2"
        and n2: "next_free h2 = next_free h1"
        and o2: "\<forall>a. a \<noteq> b \<longrightarrow> objs h2 a = objs h1 a"
      by blast
    obtain r3 h3 where result: "create_sarif_result_st vuln h2 = (r3, h3)"
      by (cases "create_sarif_result_st vuln h2")
    note g3 = growsD [OF grows_create_sarif_result_st result]
    have sk3: "skeleton_at b h3"
      by (rule skeleton_grows [OF sk2 grows_create_sarif_result_st result])
    have below3: "next_free h \<le> next_free h3 \<and> (\<forall>a<b. objs h3 a = objs h a)"
      using g1 n2 o2 g3 top by auto
    show ?thesis
    proof (cases r3)
      case (Inl e)
      then have "add_vulnerabilities_st str_of (vuln # rest) (VRef (b + 6)) h = (Inl e, h3)"
        by (simp add: seq_def navigate_rules [OF sk] append_method_rules [OF sk] rule r1
            app1 navigate_results [OF sk2] append_method_results [OF sk2] result)
      then show ?thesis
        using Cons.prems(2) below3 by auto
    next
      case r3: (Inr new_result)
      from append_st_results [OF sk3, of new_result] obtain h4
        where app2: "append_st (b + 3) new_result h3 = (Inr (), h4)"
          and sk4: "skeleton_at b h4"
          and n4: "next_free h4 = next_free h3"
          and o4: "\<forall>a. a \<noteq> b + 3 \<longrightarrow> objs h4 a = objs h3 a"
        by blast
      have "add_vulnerabilities_st str_of (vuln # rest) (VRef (b + 6)) h =
            add_vulnerabilities_st str_of rest (VRef (b + 6)) h4"
        by (simp add: seq_def navigate_rules [OF sk] append_method_rules [OF sk] rule r1
            app1 navigate_results [OF sk2] append_method_results [OF sk2] result r3 app2)
      then have "add_vulnerabilities_st str_of rest (VRef (b + 6)) h4 = (r, h')"
        using Cons.prems(2) by simp
      from Cons.IH [OF sk4 this] below3 n4 o4 show ?thesis by auto
    qed
  qed
qed

lemma grows_new_sarif: "grows new_sarif"
  unfolding new_sarif_def by blast

lemma new_sarif_skeleton:
  "\<exists>h'. new_sarif h = (Inr (VRef (next_free h + 6)), h') \<and> skeleton_at (next_free h) h'"
  by (simp add: new_sarif_def seq_def alloc_def skeleton_at_def)

lemma grows_iterate_st: "grows (iterate_st v)"
  by (simp add: grows_def iterate_st_def split: pyval.splits pyobj.splits)

lemma seq_alloc: "seq (alloc obj) f h =
   f (VRef (next_free h)) (h\<lparr>objs := (objs h)(next_free h := obj), next_free := next_free h + 1\<rparr>)"
  by (simp add: seq_def alloc_def)

lemma seq_return: "seq (return x) f h = f x h"
  by (simp add: seq_def return_def)

lemma seq_get_st:
  "objs h a = ODict kvs \<Longrightarrow>
   seq (get_st (VRef a) k dflt) f h =
     seq dflt (\<lambda>v. f (case map_of kvs k of Some x \<Rightarrow> x | None \<Rightarrow> v)) h"
  by (simp add: seq_def get_st_def get_method_def return_def split: prod.splits sum.splits)

lemma seq_format_field_st:
  "seq (format_field_st str_of (VStr s)) f h = f s h"
  by (simp add: seq_def format_field_st_def)

lemma seq_assoc: "seq (seq m g) f = seq m (\<lambda>x. seq (g x) f)"
  by (rule ext) (simp add: seq_def split: prod.splits sum.splits)

lemma seq_convert_severity_st:
  "seq (convert_severity_st (VStr s)) f h =
     f (VStr (case map_of severity_map (lower s) of Some l \<Rightarrow> l | None \<Rightarrow> ''warning''))
       (h\<lparr>objs := (objs h)(next_free h := ODict (map (\<lambda>(k, l). (k, VStr l)) severity_map)),
          next_free := next_free h + 1\<rparr>)"
  by (simp add: convert_severity_st_def seq_def alloc_def return_def)

lemma seq_iterate_st_list:
  "objs h a = OList xs \<Longrightarrow> seq (iterate_st (VRef a)) f h = f xs h"
  by (simp add: seq_def iterate_st_def)

lemma seq_subscript_key:
  "objs h a = ODict kvs \<Longrightarrow> map_of kvs k = Some x \<Longrightarrow>
   seq (subscript_st (VRef a) (Key k)) f h = f x h"
  by (simp add: seq_def subscript_st_def)

lemma seq_subscript_pos:
  "objs h a = OList xs \<Longrightarrow> i < length xs \<Longrightarrow>
   seq (subscript_st (VRef a) (Pos i)) f h = f (xs ! i) h"
  by (simp add: seq_def subscript_st_def)

lemma seq_append_method:
  "objs h a = OList xs \<Longrightarrow> seq (append_method (VRef a)) f h = f a h"
  by (simp add: seq_def append_method_def)

lemma seq_append_st:
  "objs h a = OList xs \<Longrightarrow>
   seq (append_st a x) f h = f () (h\<lparr>objs := (objs h)(a := OList (xs @ [x]))\<rparr>)"
  by (simp add: seq_def append_st_def)

lemma example_run:
  "fst (convert_audit_to_sarif_st (\<lambda>h v. ''None'') (VRef 4)
     \<lparr>objs = (\<lambda>a. ODict [])
        (0 := ODict [(''id'', VStr ''A-1'')],
         1 := ODict [(''advisory'', VRef 0)],
         2 := OList [VRef 1],
         3 := ODict [(''list'', VRef 2)],
         4 := ODict [(''vulnerabilities'', VRef 3)]),
      next_free = 5\<rparr>) = Inr (VRef 13)"
  by (simp add: convert_audit_to_sarif_st_def new_sarif_def
      create_sarif_rule_st_def create_sarif_result_st_def rules_path_def results_path_def
      seq_assoc seq_alloc seq_return seq_get_st seq_format_field_st seq_convert_severity_st
      seq_iterate_st_list seq_subscript_key seq_subscript_pos seq_append_method seq_append_st
      return_def alloc_def)

subsection \<open>The store functions compute what the functions on values compute\<close>

lemma reifies_frame:
  assumes "reifies A h v j" and "A \<subseteq> B" and "\<And>a. a \<in> A \<Longrightarrow> objs h' a = objs h a"
  shows "reifies B h' v j"
  using assms(1)
proof (induction rule: reifies.induct)
  case (list a xs js)
  have "list_all2 (reifies B h') xs js"
    using list.IH by (rule list_all2_mono) simp
  with list.hyps assms(2,3) show ?case
    by (auto intro: reifies.list)
next
  case (dict a kvs kjs)
  have "list_all2 (\<lambda>kv kj. fst kv = fst kj \<and> reifies B h' (snd kv) (snd kj)) kvs kjs"
    using dict.IH by (rule list_all2_mono) simp
  with dict.hyps assms(2,3) show ?case
    by (auto intro: reifies.dict)
qed (auto intro: reifies.intros)

inductive_cases reifies_JObjE: "reifies A h v (JObj kjs)"
inductive_cases reifies_JStrE: "reifies A h v (JStr s)"
inductive_cases reifies_JArrE: "reifies A h v (JArr js)"

lemma entries_lookup:
  assumes "list_all2 (\<lambda>kv kj. fst kv = fst kj \<and> R (snd kv) (snd kj)) kvs kjs"
  shows "(map_of kjs k = None \<longrightarrow> map_of kvs k = None) \<and>
     (\<forall>j. map_of kjs k = Some j \<longrightarrow> (\<exists>v. map_of kvs k = Some v \<and> R v j))"
  using assms by (induction rule: list_all2_induct) auto

lemma create_sarif_result_st_run:
  assumes "a < next_free h" and "objs h a = ODict kvs"
    and "map_of kvs ''advisory'' = None \<and> akvs = [] \<or>
         (\<exists>a'. map_of kvs ''advisory'' = Some (VRef a') \<and> a' < next_free h \<and>
            objs h a' = ODict akvs)"
    and "map_of kvs ''package'' = None \<and> pkvs = [] \<or>
         (\<exists>a'. map_of kvs ''package'' = Some (VRef a') \<and> a' < next_free h \<and>
            objs h a' = ODict pkvs)"
    and "map_of kvs ''severity'' = None \<and> s = ''medium'' \<or>
         map_of kvs ''severity'' = Some (VStr s)"
    and "map_of kvs ''cvss'' = None \<and> ckvs = [] \<or>
         (\<exists>a'. map_of kvs ''cvss'' = Some (VRef a') \<and> a' < next_free h \<and>
            objs h a' = ODict ckvs)"
  shows "\<exists>h'. create_sarif_result_st (VRef a) h = (Inr (VRef (next_free h + 13)), h') \<and>
     next_free h' = next_free h + 14 \<and>
     (\<forall>x<next_free h. objs h' x = objs h x) \<and>
     objs h' (next_free h + 3) = ODict
       [(''text'', case map_of akvs ''description'' of Some x \<Rightarrow> x
                   | None \<Rightarrow> VStr ''Unknown vulnerability'')] \<and>
     objs h' (next_free h + 4) = ODict [(''uri'', VStr ''Cargo.toml'')] \<and>
     objs h' (next_free h + 5) = ODict [(''startLine'', VInt 1), (''startColumn'', VInt 1)] \<and>
     objs h' (next_free h + 6) = ODict
       [(''artifactLocation'', VRef (next_free h + 4)), (''region'', VRef (next_free h + 5))] \<and>
     objs h' (next_free h + 7) = ODict [(''physicalLocation'', VRef (next_free h + 6))] \<and>
     objs h' (next_free h + 8) = OList [VRef (next_free h + 7)] \<and>
     objs h' (next_free h + 9) = ODict
       [(''packageName'', case map_of pkvs ''name'' of Some x \<Rightarrow> x | None \<Rightarrow> VStr []),
        (''packageVersion'', case map_of pkvs ''version'' of Some x \<Rightarrow> x | None \<Rightarrow> VStr [])] \<and>
     objs h' (next_free h + 11) =
       OList [VStr ''security'', VStr ''dependency'', VStr ''vulnerability''] \<and>
     objs h' (next_free h + 12) = ODict
       [(''security-severity'', case map_of ckvs ''score'' of Some x \<Rightarrow> x
                                | None \<Rightarrow> VFloat 0x4014000000000000),
        (''tags'', VRef (next_free h + 11)),
        (''precision'', VStr ''very-high'')] \<and>
     objs h' (next_free h + 13) = ODict
       [(''ruleId'', case map_of akvs ''id'' of Some x \<Rightarrow> x | None \<Rightarrow> VStr ''UNKNOWN''),
        (''level'', VStr (case map_of severity_map (lower s) of Some l \<Rightarrow> l
                          | None \<Rightarrow> ''warning'')),
        (''message'', VRef (next_free h + 3)),
        (''locations'', VRef (next_free h + 8)),
        (''partialFingerprints'', VRef (next_free h + 9)),
        (''properties'', VRef (next_free h + 12))]"
  using assms
  by (auto simp: create_sarif_result_st_def seq_alloc seq_return seq_get_st
      seq_convert_severity_st alloc_def simp del: map_of.simps)

lemma sub_dict:
  assumes "list_all2 (\<lambda>kv kj. fst kv = fst kj \<and> reifies A h (snd kv) (snd kj)) kvs kjs"
    and "map_of kjs k = None \<and> sub = [] \<or> map_of kjs k = Some (JObj sub)"
    and "A \<subseteq> {..<next_free h}"
  shows "\<exists>skvs.
     (map_of kvs k = None \<and> skvs = [] \<or>
      (\<exists>a'. map_of kvs k = Some (VRef a') \<and> a' < next_free h \<and> objs h a' = ODict skvs)) \<and>
     list_all2 (\<lambda>kv kj. fst kv = fst kj \<and> reifies A h (snd kv) (snd kj)) skvs sub"
proof -
  note look = entries_lookup [OF assms(1), of k]
  from assms(2) show ?thesis
  proof
    assume "map_of kjs k = None \<and> sub = []"
    with look show ?thesis by auto
  next
    assume "map_of kjs k = Some (JObj sub)"
    with look obtain v where v: "map_of kvs k = Some v" and r: "reifies A h v (JObj sub)"
      by blast
    from r obtain a' skvs where "v = VRef a'" "a' \<in> A" "objs h a' = ODict skvs"
      "list_all2 (\<lambda>kv kj. fst kv = fst kj \<and> reifies A h (snd kv) (snd kj)) skvs sub"
      by (rule reifies_JObjE)
    with v assms(3) show ?thesis by auto
  qed
qed

lemma lookup_reifies:
  assumes "list_all2 (\<lambda>kv kj. fst kv = fst kj \<and> reifies A h (snd kv) (snd kj)) kvs kjs"
    and "reifies A h dv jd"
  shows "reifies A h (case map_of kvs k of Some x \<Rightarrow> x | None \<Rightarrow> dv)
           (or_default (map_of kjs k) jd)"
  using entries_lookup [OF assms(1), of k] assms(2)
  by (cases "map_of kjs k") (auto simp: or_default_def)

lemma create_sarif_result_st_reifies:
  assumes A: "A \<subseteq> {..<next_free h}"
    and vuln: "reifies A h vuln jv"
    and pure: "create_sarif_result jv = Inr d"
  shows "\<exists>r h'. create_sarif_result_st vuln h = (Inr r, h') \<and>
     reifies (A \<union> {next_free h..<next_free h'}) h' r d"
proof -
  from pure obtain jkvs where jv: "jv = JObj jkvs"
    unfolding create_sarif_result_def and_then_eq_Inr get_eq_Inr by blast
  from create_sarif_result_shape [OF pure [unfolded jv]]
  obtain advisory package severity cvss
    where ja: "map_of jkvs ''advisory'' = None \<and> advisory = [] \<or>
               map_of jkvs ''advisory'' = Some (JObj advisory)"
      and jp: "map_of jkvs ''package'' = None \<and> package = [] \<or>
               map_of jkvs ''package'' = Some (JObj package)"
      and js: "map_of jkvs ''severity'' = None \<and> severity = ''medium'' \<or>
               map_of jkvs ''severity'' = Some (JStr severity)"
      and jc: "map_of jkvs ''cvss'' = None \<and> cvss = [] \<or>
               map_of jkvs ''cvss'' = Some (JObj cvss)"
    by blast
  define level where
    "level = (case map_of severity_map (lower severity) of Some l \<Rightarrow> l | None \<Rightarrow> ''warning'')"
  have level: "convert_severity (JStr severity) = Inr level"
    by (simp add: convert_severity_str level_def)
  note d = pure [unfolded jv create_sarif_result_record [OF ja jp js jc level]]
  from vuln [unfolded jv] obtain a kvs
    where v: "vuln = VRef a" and a: "a \<in> A" and obj: "objs h a = ODict kvs"
      and rel: "list_all2 (\<lambda>kv kj. fst kv = fst kj \<and> reifies A h (snd kv) (snd kj)) kvs jkvs"
    by (rule reifies_JObjE)
  from sub_dict [OF rel ja A] obtain akvs
    where sa: "map_of kvs ''advisory'' = None \<and> akvs = [] \<or>
         (\<exists>a'. map_of kvs ''advisory'' = Some (VRef a') \<and> a' < next_free h \<and>
            objs h a' = ODict akvs)"
      and ra: "list_all2 (\<lambda>kv kj. fst kv = fst kj \<and> reifies A h (snd kv) (snd kj)) akvs advisory"
    by blast
  from sub_dict [OF rel jp A] obtain pkvs
    where sp: "map_of kvs ''package'' = None \<and> pkvs = [] \<or>
         (\<exists>a'. map_of kvs ''package'' = Some (VRef a') \<and> a' < next_free h \<and>
            objs h a' = ODict pkvs)"
      and rp: "list_all2 (\<lambda>kv kj. fst kv = fst kj \<and> reifies A h (snd kv) (snd kj)) pkvs package"
    by blast
  from sub_dict [OF rel jc A] obtain ckvs
    where sc: "map_of kvs ''cvss'' = None \<and> ckvs = [] \<or>
         (\<exists>a'. map_of kvs ''cvss'' = Some (VRef a') \<and> a' < next_free h \<and>
            objs h a' = ODict ckvs)"
      and rc: "list_all2 (\<lambda>kv kj. fst kv = fst kj \<and> reifies A h (snd kv) (snd kj)) ckvs cvss"
    by blast
  have ss: "map_of kvs ''severity'' = None \<and> severity = ''medium'' \<or>
         map_of kvs ''severity'' = Some (VStr severity)"
    using js entries_lookup [OF rel, of "''severity''"]
    by (auto elim: reifies_JStrE)
  have a_lt: "a < next_free h"
    using a A by auto
  let ?N = "next_free h"
  from create_sarif_result_st_run [OF a_lt obj sa sp ss sc]
  obtain h' where run: "create_sarif_result_st (VRef a) h = (Inr (VRef (?N + 13)), h')"
    and nf: "next_free h' = ?N + 14"
    and old: "\<forall>x<?N. objs h' x = objs h x"
    and o3: "objs h' (?N + 3) = ODict
       [(''text'', case map_of akvs ''description'' of Some x \<Rightarrow> x
                   | None \<Rightarrow> VStr ''Unknown vulnerability'')]"
    and o4: "objs h' (?N + 4) = ODict [(''uri'', VStr ''Cargo.toml'')]"
    and o5: "objs h' (?N + 5) = ODict [(''startLine'', VInt 1), (''startColumn'', VInt 1)]"
    and o6: "objs h' (?N + 6) = ODict
       [(''artifactLocation'', VRef (?N + 4)), (''region'', VRef (?N + 5))]"
    and o7: "objs h' (?N + 7) = ODict [(''physicalLocation'', VRef (?N + 6))]"
    and o8: "objs h' (?N + 8) = OList [VRef (?N + 7)]"
    and o9: "objs h' (?N + 9) = ODict
       [(''packageName'', case map_of pkvs ''name'' of Some x \<Rightarrow> x | None \<Rightarrow> VStr []),
        (''packageVersion'', case map_of pkvs ''version'' of Some x \<Rightarrow> x | None \<Rightarrow> VStr [])]"
    and o11: "objs h' (?N + 11) =
       OList [VStr ''security'', VStr ''dependency'', VStr ''vulnerability'']"
    and o12: "objs h' (?N + 12) = ODict
       [(''security-severity'', case map_of ckvs ''score'' of Some x \<Rightarrow> x
                                | None \<Rightarrow> VFloat 0x4014000000000000),
        (''tags'', VRef (?N + 11)),
        (''precision'', VStr ''very-high'')]"
    and o13: "objs h' (?N + 13) = ODict
       [(''ruleId'', case map_of akvs ''id'' of Some x \<Rightarrow> x | None \<Rightarrow> VStr ''UNKNOWN''),
        (''level'', VStr level),
        (''message'', VRef (?N + 3)),
        (''locations'', VRef (?N + 8)),
        (''partialFingerprints'', VRef (?N + 9)),
        (''properties'', VRef (?N + 12))]"
    unfolding level_def by blast
  let ?B = "A \<union> {?N..<next_free h'}"
  have leaf: "reifies ?B h' x j" if "reifies A h x j" for x j
    using that
  proof (rule reifies_frame)
    show "A \<subseteq> ?B" by simp
    show "objs h' x = objs h x" if "x \<in> A" for x
      using that A old by auto
  qed
  have new: "?N + k \<in> ?B" if "k < 14" for k
    using that nf by simp
  have l_id: "reifies ?B h' (case map_of akvs ''id'' of Some x \<Rightarrow> x | None \<Rightarrow> VStr ''UNKNOWN'')
      (or_default (map_of advisory ''id'') (JStr ''UNKNOWN''))"
    by (rule leaf [OF lookup_reifies [OF ra reifies.str]])
  have l_text: "reifies ?B h' (case map_of akvs ''description'' of Some x \<Rightarrow> x
        | None \<Rightarrow> VStr ''Unknown vulnerability'')
      (or_default (map_of advisory ''description'') (JStr ''Unknown vulnerability''))"
    by (rule leaf [OF lookup_reifies [OF ra reifies.str]])
  have l_name: "reifies ?B h' (case map_of pkvs ''name'' of Some x \<Rightarrow> x | None \<Rightarrow> VStr [])
      (or_default (map_of package ''name'') (JStr []))"
    by (rule leaf [OF lookup_reifies [OF rp reifies.str]])
  have l_version: "reifies ?B h' (case map_of pkvs ''version'' of Some x \<Rightarrow> x | None \<Rightarrow> VStr [])
      (or_default (map_of package ''version'') (JStr []))"
    by (rule leaf [OF lookup_reifies [OF rp reifies.str]])
  have l_score: "reifies ?B h' (case map_of ckvs ''score'' of Some x \<Rightarrow> x
        | None \<Rightarrow> VFloat 0x4014000000000000)
      (or_default (map_of cvss ''score'') float_5_0)"
    unfolding float_5_0_def by (rule leaf [OF lookup_reifies [OF rc reifies.float]])
  have r3: "reifies ?B h' (VRef (?N + 3)) (JObj
      [(''text'', or_default (map_of advisory ''description'') (JStr ''Unknown vulnerability''))])"
    by (rule reifies.dict [OF new o3]) (simp_all add: l_text)
  have r4: "reifies ?B h' (VRef (?N + 4)) (JObj [(''uri'', JStr ''Cargo.toml'')])"
    by (rule reifies.dict [OF new o4]) (simp_all add: reifies.str)
  have r5: "reifies ?B h' (VRef (?N + 5))
      (JObj [(''startLine'', JInt 1), (''startColumn'', JInt 1)])"
    by (rule reifies.dict [OF new o5]) (simp_all add: reifies.int)
  have r6: "reifies ?B h' (VRef (?N + 6)) (JObj
      [(''artifactLocation'', JObj [(''uri'', JStr ''Cargo.toml'')]),
       (''region'', JObj [(''startLine'', JInt 1), (''startColumn'', JInt 1)])])"
    by (rule reifies.dict [OF new o6]) (simp_all add: r4 r5)
  have r7: "reifies ?B h' (VRef (?N + 7)) (JObj [(''physicalLocation'', JObj
      [(''artifactLocation'', JObj [(''uri'', JStr ''Cargo.toml'')]),
       (''region'', JObj [(''startLine'', JInt 1), (''startColumn'', JInt 1)])])])"
    by (rule reifies.dict [OF new o7]) (simp_all add: r6)
  have r8: "reifies ?B h' (VRef (?N + 8)) (JArr [JObj [(''physicalLocation'', JObj
      [(''artifactLocation'', JObj [(''uri'', JStr ''Cargo.toml'')]),
       (''region'', JObj [(''startLine'', JInt 1), (''startColumn'', JInt 1)])])]])"
    by (rule reifies.list [OF new o8]) (simp_all add: r7)
  have r9: "reifies ?B h' (VRef (?N + 9)) (JObj
      [(''packageName'', or_default (map_of package ''name'') (JStr [])),
       (''packageVersion'', or_default (map_of package ''version'') (JStr []))])"
    by (rule reifies.dict [OF new o9]) (simp_all add: l_name l_version)
  have r11: "reifies ?B h' (VRef (?N + 11))
      (JArr [JStr ''security'', JStr ''dependency'', JStr ''vulnerability''])"
    by (rule reifies.list [OF new o11]) (simp_all add: reifies.str)
  have r12: "reifies ?B h' (VRef (?N + 12)) (JObj
      [(''security-severity'', or_default (map_of cvss ''score'') float_5_0),
       (''tags'', JArr [JStr ''security'', JStr ''dependency'', JStr ''vulnerability'']),
       (''precision'', JStr ''very-high'')])"
    by (rule reifies.dict [OF new o12]) (simp_all add: l_score r11 reifies.str)
  have r13: "reifies ?B h' (VRef (?N + 13)) d"
    unfolding d [THEN Inr_inject, symmetric]
    by (rule reifies.dict [OF new o13]) (simp_all add: l_id r3 r8 r9 r12 reifies.str)
  from run r13 v show ?thesis by blast
qed

lemma seq_format_field_shown:
  "seq (format_field_st str_of v) f h = f (shown str_of h v) h"
  by (simp add: seq_def format_field_st_def shown_def split: pyval.splits)

lemma create_sarif_rule_st_run:
  assumes "a < next_free h" and "objs h a = ODict kvs"
    and "map_of kvs ''advisory'' = None \<and> akvs = [] \<or>
         (\<exists>a'. map_of kvs ''advisory'' = Some (VRef a') \<and> a' < next_free h \<and>
            objs h a' = ODict akvs)"
    and "map_of kvs ''package'' = None \<and> pkvs = [] \<or>
         (\<exists>a'. map_of kvs ''package'' = Some (VRef a') \<and> a' < next_free h \<and>
            objs h a' = ODict pkvs)"
    and "map_of kvs ''cvss'' = None \<and> ckvs = [] \<or>
         (\<exists>a'. map_of kvs ''cvss'' = Some (VRef a') \<and> a' < next_free h \<and>
            objs h a' = ODict ckvs)"
    and "(case map_of pkvs ''name'' of Some x \<Rightarrow> x | None \<Rightarrow> VStr ''package'') \<in> V"
    and "(case map_of akvs ''title'' of Some x \<Rightarrow> x | None \<Rightarrow> VStr ''Vulnerability'') \<in> V"
    and "(case map_of akvs ''description'' of Some x \<Rightarrow> x | None \<Rightarrow> VStr []) \<in> V"
    and "(case map_of akvs ''url'' of Some x \<Rightarrow> x | None \<Rightarrow> VStr []) \<in> V"
    and stable: "\<And>h1 v. v \<in> V \<Longrightarrow> \<forall>x<next_free h. objs h1 x = objs h x \<Longrightarrow>
         shown str_of h1 v = T v"
  shows "\<exists>h'. create_sarif_rule_st str_of (VRef a) h = (Inr (VRef (next_free h + 8)), h') \<and>
     next_free h' = next_free h + 9 \<and>
     (\<forall>x<next_free h. objs h' x = objs h x) \<and>
     objs h' (next_free h + 1) = ODict
       [(''text'', case map_of akvs ''title'' of Some x \<Rightarrow> x
                   | None \<Rightarrow> VStr ''Unknown vulnerability'')] \<and>
     objs h' (next_free h + 2) = ODict
       [(''text'', case map_of akvs ''description'' of Some x \<Rightarrow> x | None \<Rightarrow> VStr [])] \<and>
     objs h' (next_free h + 4) = ODict
       [(''text'', VStr
           (''Update ''
             @ T
                 (case map_of pkvs ''name'' of Some x \<Rightarrow> x | None \<Rightarrow> VStr ''package'')
             @ '' to a patched version'')),
        (''markdown'', VStr
           (''## ''
             @ T
                 (case map_of akvs ''title'' of Some x \<Rightarrow> x | None \<Rightarrow> VStr ''Vulnerability'')
             @ [newline, newline]
             @ T
                 (case map_of akvs ''description'' of Some x \<Rightarrow> x | None \<Rightarrow> VStr [])
             @ [newline, newline]
             @ ''### References'' @ [newline]
             @ ''- ''
             @ T (case map_of akvs ''url'' of Some x \<Rightarrow> x | None \<Rightarrow> VStr [])))] \<and>
     objs h' (next_free h + 6) = OList [VStr ''security'', VStr ''vulnerability''] \<and>
     objs h' (next_free h + 7) = ODict
       [(''security-severity'', case map_of ckvs ''score'' of Some x \<Rightarrow> x
                                | None \<Rightarrow> VFloat 0x4014000000000000),
        (''tags'', VRef (next_free h + 6))] \<and>
     objs h' (next_free h + 8) = ODict
       [(''id'', case map_of akvs ''id'' of Some x \<Rightarrow> x | None \<Rightarrow> VStr ''UNKNOWN''),
        (''name'', case map_of akvs ''title'' of Some x \<Rightarrow> x
                   | None \<Rightarrow> VStr ''Unknown vulnerability''),
        (''shortDescription'', VRef (next_free h + 1)),
        (''fullDescription'', VRef (next_free h + 2)),
        (''help'', VRef (next_free h + 4)),
        (''properties'', VRef (next_free h + 7))]"
  using assms(1-9)
  by (auto simp: create_sarif_rule_st_def seq_alloc seq_return seq_get_st
      seq_format_field_shown stable alloc_def simp del: map_of.simps)

lemma shown_reifies:
  assumes "\<And>B h1 v j. reifies B h1 v j \<Longrightarrow> str_of_st h1 v = str_of j"
    and "reifies A h v j"
  shows "shown str_of_st h v = format_field str_of j"
  using assms(2) assms(1) [OF assms(2)]
  by (cases rule: reifies.cases) (simp_all add: shown_def format_field_def)

lemma create_sarif_rule_st_reifies:
  assumes A: "A \<subseteq> {..<next_free h}"
    and str: "\<And>B h1 v j. reifies B h1 v j \<Longrightarrow> str_of_st h1 v = str_of j"
    and vuln: "reifies A h vuln jv"
    and pure: "create_sarif_rule str_of jv = Inr d"
  shows "\<exists>r h'. create_sarif_rule_st str_of_st vuln h = (Inr r, h') \<and>
     reifies (A \<union> {next_free h..<next_free h'}) h' r d"
proof -
  from pure obtain jkvs where jv: "jv = JObj jkvs"
    unfolding create_sarif_rule_def and_then_eq_Inr get_eq_Inr by blast
  from create_sarif_rule_shape [OF pure [unfolded jv]]
  obtain advisory package cvss
    where ja: "map_of jkvs ''advisory'' = None \<and> advisory = [] \<or>
               map_of jkvs ''advisory'' = Some (JObj advisory)"
      and jp: "map_of jkvs ''package'' = None \<and> package = [] \<or>
               map_of jkvs ''package'' = Some (JObj package)"
      and jc: "map_of jkvs ''cvss'' = None \<and> cvss = [] \<or>
               map_of jkvs ''cvss'' = Some (JObj cvss)"
    by blast
  note d = pure [unfolded jv create_sarif_rule_record [OF ja jp jc]]
  from vuln [unfolded jv] obtain a kvs
    where v: "vuln = VRef a" and a: "a \<in> A" and obj: "objs h a = ODict kvs"
      and rel: "list_all2 (\<lambda>kv kj. fst kv = fst kj \<and> reifies A h (snd kv) (snd kj)) kvs jkvs"
    by (rule reifies_JObjE)
  from sub_dict [OF rel ja A] obtain akvs
    where sa: "map_of kvs ''advisory'' = None \<and> akvs = [] \<or>
         (\<exists>a'. map_of kvs ''advisory'' = Some (VRef a') \<and> a' < next_free h \<and>
            objs h a' = ODict akvs)"
      and ra: "list_all2 (\<lambda>kv kj. fst kv = fst kj \<and> reifies A h (snd kv) (snd kj)) akvs advisory"
    by blast
  from sub_dict [OF rel jp A] obtain pkvs
    where sp: "map_of kvs ''package'' = None \<and> pkvs = [] \<or>
         (\<exists>a'. map_of kvs ''package'' = Some (VRef a') \<and> a' < next_free h \<and>
            objs h a' = ODict pkvs)"
      and rp: "list_all2 (\<lambda>kv kj. fst kv = fst kj \<and> reifies A h (snd kv) (snd kj)) pkvs package"
    by blast
  from sub_dict [OF rel jc A] obtain ckvs
    where sc: "map_of kvs ''cvss'' = None \<and> ckvs = [] \<or>
         (\<exists>a'. map_of kvs ''cvss'' = Some (VRef a') \<and> a' < next_free h \<and>
            objs h a' = ODict ckvs)"
      and rc: "list_all2 (\<lambda>kv kj. fst kv = fst kj \<and> reifies A h (snd kv) (snd kj)) ckvs cvss"
    by blast
  have a_lt: "a < next_free h"
    using a A by auto
  let ?N = "next_free h"
  let ?pname = "case map_of pkvs ''name'' of Some x \<Rightarrow> x | None \<Rightarrow> VStr ''package''"
  let ?heading = "case map_of akvs ''title'' of Some x \<Rightarrow> x | None \<Rightarrow> VStr ''Vulnerability''"
  let ?body = "case map_of akvs ''description'' of Some x \<Rightarrow> x | None \<Rightarrow> VStr []"
  let ?url = "case map_of akvs ''url'' of Some x \<Rightarrow> x | None \<Rightarrow> VStr []"
  let ?V = "{x. \<exists>j. reifies A h x j}"
  have p_name: "reifies A h ?pname (or_default (map_of package ''name'') (JStr ''package''))"
    by (rule lookup_reifies [OF rp reifies.str])
  have p_heading: "reifies A h ?heading (or_default (map_of advisory ''title'') (JStr ''Vulnerability''))"
    by (rule lookup_reifies [OF ra reifies.str])
  have p_body: "reifies A h ?body (or_default (map_of advisory ''description'') (JStr []))"
    by (rule lookup_reifies [OF ra reifies.str])
  have p_url: "reifies A h ?url (or_default (map_of advisory ''url'') (JStr []))"
    by (rule lookup_reifies [OF ra reifies.str])
  have in_V: "?pname \<in> ?V" "?heading \<in> ?V" "?body \<in> ?V" "?url \<in> ?V"
    using p_name p_heading p_body p_url by blast+
  have stable: "shown str_of_st h1 x = shown str_of_st h x"
    if "x \<in> ?V" and same: "\<forall>y<?N. objs h1 y = objs h y" for h1 x
  proof -
    from that obtain j where j: "reifies A h x j" by blast
    have "reifies A h1 x j"
      using j
    proof (rule reifies_frame)
      show "A \<subseteq> A" by simp
      show "objs h1 y = objs h y" if "y \<in> A" for y
        using that A same by auto
    qed
    with j show ?thesis
      by (simp add: shown_reifies [OF str])
  qed
  from create_sarif_rule_st_run [of a h kvs akvs pkvs ckvs ?V str_of_st "shown str_of_st h",
      OF a_lt obj sa sp sc in_V stable]
  obtain h' where run: "create_sarif_rule_st str_of_st (VRef a) h = (Inr (VRef (?N + 8)), h')"
    and nf: "next_free h' = ?N + 9"
    and old: "\<forall>x<?N. objs h' x = objs h x"
    and o1: "objs h' (?N + 1) = ODict
       [(''text'', case map_of akvs ''title'' of Some x \<Rightarrow> x
                   | None \<Rightarrow> VStr ''Unknown vulnerability'')]"
    and o2: "objs h' (?N + 2) = ODict
       [(''text'', case map_of akvs ''description'' of Some x \<Rightarrow> x | None \<Rightarrow> VStr [])]"
    and o4: "objs h' (?N + 4) = ODict
       [(''text'', VStr (''Update '' @ shown str_of_st h ?pname @ '' to a patched version'')),
        (''markdown'', VStr
           (''## '' @ shown str_of_st h ?heading @ [newline, newline]
             @ shown str_of_st h ?body @ [newline, newline]
             @ ''### References'' @ [newline]
             @ ''- '' @ shown str_of_st h ?url))]"
    and o6: "objs h' (?N + 6) = OList [VStr ''security'', VStr ''vulnerability'']"
    and o7: "objs h' (?N + 7) = ODict
       [(''security-severity'', case map_of ckvs ''score'' of Some x \<Rightarrow> x
                                | None \<Rightarrow> VFloat 0x4014000000000000),
        (''tags'', VRef (?N + 6))]"
    and o8: "objs h' (?N + 8) = ODict
       [(''id'', case map_of akvs ''id'' of Some x \<Rightarrow> x | None \<Rightarrow> VStr ''UNKNOWN''),
        (''name'', case map_of akvs ''title'' of Some x \<Rightarrow> x
                   | None \<Rightarrow> VStr ''Unknown vulnerability''),
        (''shortDescription'', VRef (?N + 1)),
        (''fullDescription'', VRef (?N + 2)),
        (''help'', VRef (?N + 4)),
        (''properties'', VRef (?N + 7))]"
    by blast
  let ?B = "A \<union> {?N..<next_free h'}"
  have leaf: "reifies ?B h' x j" if "reifies A h x j" for x j
    using that
  proof (rule reifies_frame)
    show "A \<subseteq> ?B" by simp
    show "objs h' x = objs h x" if "x \<in> A" for x
      using that A old by auto
  qed
  have new: "?N + k \<in> ?B" if "k < 9" for k
    using that nf by simp
  have l_id: "reifies ?B h' (case map_of akvs ''id'' of Some x \<Rightarrow> x | None \<Rightarrow> VStr ''UNKNOWN'')
      (or_default (map_of advisory ''id'') (JStr ''UNKNOWN''))"
    by (rule leaf [OF lookup_reifies [OF ra reifies.str]])
  have l_title: "reifies ?B h' (case map_of akvs ''title'' of Some x \<Rightarrow> x
        | None \<Rightarrow> VStr ''Unknown vulnerability'')
      (or_default (map_of advisory ''title'') (JStr ''Unknown vulnerability''))"
    by (rule leaf [OF lookup_reifies [OF ra reifies.str]])
  have l_desc: "reifies ?B h' (case map_of akvs ''description'' of Some x \<Rightarrow> x | None \<Rightarrow> VStr [])
      (or_default (map_of advisory ''description'') (JStr []))"
    by (rule leaf [OF lookup_reifies [OF ra reifies.str]])
  have l_score: "reifies ?B h' (case map_of ckvs ''score'' of Some x \<Rightarrow> x
        | None \<Rightarrow> VFloat 0x4014000000000000)
      (or_default (map_of cvss ''score'') float_5_0)"
    unfolding float_5_0_def by (rule leaf [OF lookup_reifies [OF rc reifies.float]])
  have r1: "reifies ?B h' (VRef (?N + 1)) (JObj
      [(''text'', or_default (map_of advisory ''title'') (JStr ''Unknown vulnerability''))])"
    by (rule reifies.dict [OF new o1]) (simp_all add: l_title)
  have r2: "reifies ?B h' (VRef (?N + 2)) (JObj
      [(''text'', or_default (map_of advisory ''description'') (JStr []))])"
    by (rule reifies.dict [OF new o2]) (simp_all add: l_desc)
  have r4: "reifies ?B h' (VRef (?N + 4)) (JObj
           [(''text'', JStr
               (''Update ''
                 @ format_field str_of (or_default (map_of package ''name'') (JStr ''package''))
                 @ '' to a patched version'')),
            (''markdown'', JStr
               (''## ''
                 @ format_field str_of (or_default (map_of advisory ''title'') (JStr ''Vulnerability''))
                 @ [newline, newline]
                 @ format_field str_of (or_default (map_of advisory ''description'') (JStr []))
                 @ [newline, newline]
                 @ ''### References'' @ [newline]
                 @ ''- '' @ format_field str_of (or_default (map_of advisory ''url'') (JStr []))))])"
    by (rule reifies.dict [OF new o4])
      (simp_all add: reifies.str shown_reifies [OF str p_name] shown_reifies [OF str p_heading]
        shown_reifies [OF str p_body] shown_reifies [OF str p_url])
  have r6: "reifies ?B h' (VRef (?N + 6)) (JArr [JStr ''security'', JStr ''vulnerability''])"
    by (rule reifies.list [OF new o6]) (simp_all add: reifies.str)
  have r7: "reifies ?B h' (VRef (?N + 7)) (JObj
      [(''security-severity'', or_default (map_of cvss ''score'') float_5_0),
       (''tags'', JArr [JStr ''security'', JStr ''vulnerability''])])"
    by (rule reifies.dict [OF new o7]) (simp_all add: l_score r6)
  have "8 < (9::nat)" by simp
  note top = new [OF this]
  have r8: "reifies ?B h' (VRef (?N + 8)) d"
    unfolding d [THEN Inr_inject, symmetric]
    apply (rule reifies.dict [OF top o8])
    using l_id l_title r1 r2 r4 r7 apply simp
    done
  from run r8 v show ?thesis by blast
qed

lemma reifies_list_frame:
  assumes "list_all2 (reifies A h) xs js" and "A \<subseteq> B"
    and "\<And>a. a \<in> A \<Longrightarrow> objs h' a = objs h a"
  shows "list_all2 (reifies B h') xs js"
  using assms(1)
  by (rule list_all2_mono) (rule reifies_frame [OF _ assms(2,3)])

lemma append_st_list:
  "objs h a = OList xs \<Longrightarrow>
   append_st a x h = (Inr (), h\<lparr>objs := (objs h)(a := OList (xs @ [x]))\<rparr>)"
  by (simp add: append_st_def)

lemma add_vulnerabilities_st_reifies:
  assumes str: "\<And>B h1 v j. reifies B h1 v j \<Longrightarrow> str_of_st h1 v = str_of j"
    and A: "A \<subseteq> {..<b}"
    and "skeleton_at b h"
    and "list_all2 (reifies A h) items jitems"
    and "list_all2 (\<lambda>v r. create_sarif_rule str_of v = Inr r) jitems jrules"
    and "list_all2 (\<lambda>v x. create_sarif_result v = Inr x) jitems jresults"
    and "objs h b = OList rs" and "list_all2 (reifies (outside b h) h) rs jrs"
    and "objs h (b + 3) = OList xs" and "list_all2 (reifies (outside b h) h) xs jxs"
  shows "\<exists>h' rs' xs'.
     add_vulnerabilities_st str_of_st items (VRef (b + 6)) h = (Inr (), h') \<and>
     skeleton_at b h' \<and>
     (\<forall>a<b. objs h' a = objs h a) \<and>
     objs h' b = OList rs' \<and>
     list_all2 (reifies (outside b h') h') rs' (jrs @ jrules) \<and>
     objs h' (b + 3) = OList xs' \<and>
     list_all2 (reifies (outside b h') h') xs' (jxs @ jresults)"
  using assms(3-)
proof (induction items arbitrary: h jitems jrules jresults rs jrs xs jxs)
  case Nil
  then show ?case by (auto simp: return_def)
next
  case (Cons vuln rest)
  note sk = \<open>skeleton_at b h\<close>
  have top: "b + 7 \<le> next_free h"
    using sk by (simp add: skeleton_at_def)
  from Cons.prems(2) obtain jv jrest
    where jitems: "jitems = jv # jrest" and v: "reifies A h vuln jv"
      and rest: "list_all2 (reifies A h) rest jrest"
    by (auto simp: list_all2_Cons1)
  from Cons.prems(3) jitems obtain jr jrules'
    where jrules: "jrules = jr # jrules'" and pr: "create_sarif_rule str_of jv = Inr jr"
      and prs: "list_all2 (\<lambda>v r. create_sarif_rule str_of v = Inr r) jrest jrules'"
    by (auto simp: list_all2_Cons1)
  from Cons.prems(4) jitems obtain jx jresults'
    where jresults: "jresults = jx # jresults'" and px: "create_sarif_result jv = Inr jx"
      and pxs: "list_all2 (\<lambda>v x. create_sarif_result v = Inr x) jrest jresults'"
    by (auto simp: list_all2_Cons1)
  note rs = \<open>objs h b = OList rs\<close> and rrs = \<open>list_all2 (reifies (outside b h) h) rs jrs\<close>
  note xs = \<open>objs h (b + 3) = OList xs\<close> and rxs = \<open>list_all2 (reifies (outside b h) h) xs jxs\<close>
  have A_h: "A \<subseteq> {..<next_free h}"
    using A top by auto
  \<comment> \<open>the rule is built\<close>
  have "\<exists>r h1. create_sarif_rule_st str_of_st vuln h = (Inr r, h1) \<and>
      reifies (A \<union> {next_free h..<next_free h1}) h1 r jr"
    by (rule create_sarif_rule_st_reifies [where str_of = str_of, OF A_h _ v pr]) (rule str)
  then obtain r h1 where rule: "create_sarif_rule_st str_of_st vuln h = (Inr r, h1)"
    and rr: "reifies (A \<union> {next_free h..<next_free h1}) h1 r jr"
    by blast
  note g1 = growsD [OF grows_create_sarif_rule_st rule]
  have sk1: "skeleton_at b h1"
    by (rule skeleton_grows [OF sk grows_create_sarif_rule_st rule])
  have rs1: "objs h1 b = OList rs"
    using g1(2) [of b] rs top by simp
  \<comment> \<open>and appended\<close>
  let ?h2 = "h1\<lparr>objs := (objs h1)(b := OList (rs @ [r]))\<rparr>"
  note app1 = append_st_list [OF rs1, of r]
  have sk2: "skeleton_at b ?h2"
    by (rule skeleton_kept [OF sk1]) simp_all
  have out12: "outside b ?h2 = outside b h1"
    by (simp add: outside_def)
  have sub01: "outside b h \<subseteq> outside b h1"
    using g1(1) by (auto simp: outside_def)
  have keep02: "objs ?h2 a = objs h a" if "a \<in> outside b h" for a
    using that g1(2) [of a] by (auto simp: outside_def)
  have rrs2: "list_all2 (reifies (outside b ?h2) ?h2) (rs @ [r]) (jrs @ [jr])"
  proof -
    have "list_all2 (reifies (outside b ?h2) ?h2) rs jrs"
      using rrs unfolding out12 by (rule reifies_list_frame [OF _ sub01 keep02])
    moreover have "reifies (outside b ?h2) ?h2 r jr"
      using rr unfolding out12
    proof (rule reifies_frame)
      show "A \<union> {next_free h..<next_free h1} \<subseteq> outside b h1"
        using A top g1(1) by (auto simp: outside_def)
      show "objs ?h2 a = objs h1 a" if "a \<in> A \<union> {next_free h..<next_free h1}" for a
        using that A top by auto
    qed
    ultimately show ?thesis
      by (simp add: list_all2_appendI)
  qed
  have rxs2: "list_all2 (reifies (outside b ?h2) ?h2) xs jxs"
    using rxs unfolding out12 by (rule reifies_list_frame [OF _ sub01 keep02])
  have xs2: "objs ?h2 (b + 3) = OList xs"
    using g1(2) [of "b + 3"] xs top by simp
  have A_h2: "A \<subseteq> {..<next_free ?h2}"
    using A_h g1(1) by auto
  have keepA02: "objs ?h2 a = objs h a" if "a \<in> A" for a
    using that A top g1(2) [of a] by auto
  have v2: "reifies A ?h2 vuln jv"
    using v by (rule reifies_frame [OF _ subset_refl keepA02])
  \<comment> \<open>the result is built\<close>
  from create_sarif_result_st_reifies [OF A_h2 v2 px]
  obtain x h3 where result: "create_sarif_result_st vuln ?h2 = (Inr x, h3)"
    and rx: "reifies (A \<union> {next_free ?h2..<next_free h3}) h3 x jx"
    by blast
  note g3 = growsD [OF grows_create_sarif_result_st result]
  have sk3: "skeleton_at b h3"
    by (rule skeleton_grows [OF sk2 grows_create_sarif_result_st result])
  have top2: "b + 7 \<le> next_free ?h2"
    using sk2 by (simp add: skeleton_at_def)
  have xs3: "objs h3 (b + 3) = OList xs"
    using g3(2) [of "b + 3"] xs2 top2 by simp
  have rs3: "objs h3 b = OList (rs @ [r])"
    using g3(2) [of b] top2 by simp
  \<comment> \<open>and appended\<close>
  let ?h4 = "h3\<lparr>objs := (objs h3)(b + 3 := OList (xs @ [x]))\<rparr>"
  note app2 = append_st_list [OF xs3, of x]
  have sk4: "skeleton_at b ?h4"
    by (rule skeleton_kept [OF sk3]) simp_all
  have out34: "outside b ?h4 = outside b h3"
    by (simp add: outside_def)
  have sub23: "outside b ?h2 \<subseteq> outside b h3"
    using g3(1) by (auto simp: outside_def)
  have keep24: "objs ?h4 a = objs ?h2 a" if "a \<in> outside b ?h2" for a
    using that g3(2) [of a] by (auto simp: outside_def)
  have rrs4: "list_all2 (reifies (outside b ?h4) ?h4) (rs @ [r]) (jrs @ [jr])"
    using rrs2 unfolding out34 by (rule reifies_list_frame [OF _ sub23 keep24])
  have rxs4: "list_all2 (reifies (outside b ?h4) ?h4) (xs @ [x]) (jxs @ [jx])"
  proof -
    have "list_all2 (reifies (outside b ?h4) ?h4) xs jxs"
      using rxs2 unfolding out34 by (rule reifies_list_frame [OF _ sub23 keep24])
    moreover have "reifies (outside b ?h4) ?h4 x jx"
      using rx unfolding out34
    proof (rule reifies_frame)
      show "A \<union> {next_free ?h2..<next_free h3} \<subseteq> outside b h3"
        using A top2 g3(1) by (auto simp: outside_def)
      show "objs ?h4 a = objs h3 a" if "a \<in> A \<union> {next_free ?h2..<next_free h3}" for a
        using that A top2 by auto
    qed
    ultimately show ?thesis
      by (simp add: list_all2_appendI)
  qed
  have rs4: "objs ?h4 b = OList (rs @ [r])"
    using rs3 by simp
  have xs4: "objs ?h4 (b + 3) = OList (xs @ [x])"
    by simp
  have keepA04: "objs ?h4 a = objs h a" if "a \<in> A" for a
    using that A top top2 g1(2) [of a] g3(2) [of a] by auto
  have rest4: "list_all2 (reifies A ?h4) rest jrest"
    using rest by (rule reifies_list_frame [OF _ subset_refl keepA04])
  have below04: "objs ?h4 a = objs h a" if "a < b" for a
    using that top top2 g1(2) [of a] g3(2) [of a] by auto
  have step: "add_vulnerabilities_st str_of_st (vuln # rest) (VRef (b + 6)) h =
      add_vulnerabilities_st str_of_st rest (VRef (b + 6)) ?h4"
    by (simp add: seq_def navigate_rules [OF sk] append_method_rules [OF sk] rule
        app1 navigate_results [OF sk2] append_method_results [OF sk2] result app2)
  from Cons.IH [OF sk4 rest4 prs pxs rs4 rrs4 xs4 rxs4]
  obtain h' rs' xs'
    where "add_vulnerabilities_st str_of_st rest (VRef (b + 6)) ?h4 = (Inr (), h')"
      and "skeleton_at b h'"
      and "\<forall>a<b. objs h' a = objs ?h4 a"
      and "objs h' b = OList rs'"
      and "list_all2 (reifies (outside b h') h') rs' ((jrs @ [jr]) @ jrules')"
      and "objs h' (b + 3) = OList xs'"
      and "list_all2 (reifies (outside b h') h') xs' ((jxs @ [jx]) @ jresults')"
    by blast
  with step below04 show ?case
    unfolding jrules jresults by auto
qed

lemma get_st_alloc_reifies:
  assumes "reifies A h d (JObj kjs)" and A: "A \<subseteq> {..<next_free h}"
    and dflt: "obj = ODict [] \<and> jd = JObj [] \<or> obj = OList [] \<and> jd = JArr []"
  shows "\<exists>v h1. get_st d k (alloc obj) h = (Inr v, h1) \<and>
     next_free h1 = next_free h + 1 \<and>
     (\<forall>x<next_free h. objs h1 x = objs h x) \<and>
     reifies (insert (next_free h) A) h1 v (or_default (map_of kjs k) jd)"
proof -
  from assms(1) obtain a kvs
    where d: "d = VRef a" and a: "a \<in> A" and obj: "objs h a = ODict kvs"
      and rel: "list_all2 (\<lambda>kv kj. fst kv = fst kj \<and> reifies A h (snd kv) (snd kj)) kvs kjs"
    by (rule reifies_JObjE)
  let ?N = "next_free h"
  let ?h1 = "h\<lparr>objs := (objs h)(?N := obj), next_free := ?N + 1\<rparr>"
  let ?v = "case map_of kvs k of Some x \<Rightarrow> x | None \<Rightarrow> VRef ?N"
  have run: "get_st d k (alloc obj) h = (Inr ?v, ?h1)"
    by (simp add: get_st_def get_method_def seq_def alloc_def return_def d obj)
  have keep: "objs ?h1 x = objs h x" if "x \<in> A" for x
    using that A by auto
  have fresh: "reifies (insert ?N A) ?h1 (VRef ?N) jd"
    using dflt
  proof
    assume "obj = ODict [] \<and> jd = JObj []"
    then show ?thesis
      by (auto intro!: reifies.dict [where kvs = "[]"])
  next
    assume "obj = OList [] \<and> jd = JArr []"
    then show ?thesis
      by (auto intro!: reifies.list [where xs = "[]"])
  qed
  have "reifies (insert ?N A) ?h1 ?v (or_default (map_of kjs k) jd)"
  proof (cases "map_of kjs k")
    case None
    with entries_lookup [OF rel, of k] fresh show ?thesis
      by (simp add: or_default_def)
  next
    case (Some j)
    with entries_lookup [OF rel, of k] obtain x
      where x: "map_of kvs k = Some x" and rx: "reifies A h x j"
      by blast
    have "reifies (insert ?N A) ?h1 x j"
      using rx by (rule reifies_frame [OF _ subset_insertI keep])
    with x Some show ?thesis
      by (simp add: or_default_def)
  qed
  with run show ?thesis by auto
qed

lemma iterate_st_reifies:
  assumes "reifies A h v j" and "iterate j = Inr js"
  shows "\<exists>items. iterate_st v h = (Inr items, h) \<and> list_all2 (reifies A h) items js"
  using assms
proof (cases rule: reifies.cases)
  case (list a xs js')
  with assms(2) show ?thesis
    by (simp add: iterate_def iterate_st_def)
next
  case (dict a kvs kjs)
  have "list_all2 (reifies A h) (map (\<lambda>(k, _). VStr k) kvs) (map (\<lambda>(k, _). JStr k) kjs)"
    using dict(5)
    by (induction rule: list_all2_induct) (auto intro: reifies.str split: prod.splits)
  with dict assms(2) show ?thesis
    by (auto simp: iterate_def iterate_st_def)
next
  case (str s)
  have "list_all2 (reifies A h) (map VStr (code_points s)) (map JStr (code_points s))"
    by (simp add: list_all2_map1 list_all2_map2 list_all2_same reifies.str)
  with str assms(2) show ?thesis
    by (auto simp: iterate_def iterate_st_def)
qed (simp_all add: iterate_def)

lemma new_sarif_empty:
  "\<exists>h'. new_sarif h = (Inr (VRef (next_free h + 6)), h') \<and>
     skeleton_at (next_free h) h' \<and>
     objs h' (next_free h) = OList [] \<and>
     objs h' (next_free h + 3) = OList []"
  by (simp add: new_sarif_def seq_def alloc_def skeleton_at_def)

lemma skeleton_reifies:
  assumes sk: "skeleton_at b h"
    and rs: "objs h b = OList rs" "list_all2 (reifies (outside b h) h) rs jrules"
    and xs: "objs h (b + 3) = OList xs" "list_all2 (reifies (outside b h) h) xs jresults"
  shows "reifies {..<next_free h} h (VRef (b + 6)) (sarif_doc jrules jresults)"
proof -
  let ?S = "{..<next_free h}"
  have top: "b + 7 \<le> next_free h"
    using sk by (simp add: skeleton_at_def)
  have sub: "outside b h \<subseteq> ?S"
    by (auto simp: outside_def)
  have new: "b + k \<in> ?S" if "k < 7" for k
    using that top by simp
  have "b \<in> ?S" using top by simp
  then have r0: "reifies ?S h (VRef b) (JArr jrules)"
    using rs(1)
    by (rule reifies.list) (rule reifies_list_frame [OF rs(2) sub refl])
  have r3: "reifies ?S h (VRef (b + 3)) (JArr jresults)"
    by (rule reifies.list [OF new xs(1)])
      (simp, rule reifies_list_frame [OF xs(2) sub refl])
  have o1: "objs h (b + 1) = ODict
       [(''name'', VStr ''cargo-audit''),
        (''version'', VStr ''0.18.0''),
        (''informationUri'', VStr ''https://github.com/RustSec/rustsec''),
        (''rules'', VRef b)]"
    and o2: "objs h (b + 2) = ODict [(''driver'', VRef (b + 1))]"
    and o4: "objs h (b + 4) = ODict
       [(''tool'', VRef (b + 2)),
        (''results'', VRef (b + 3)),
        (''columnKind'', VStr ''utf16CodeUnits'')]"
    and o5: "objs h (b + 5) = OList [VRef (b + 4)]"
    and o6: "objs h (b + 6) = ODict
       [(''$schema'', VStr ''https://json.schemastore.org/sarif-2.1.0.json''),
        (''version'', VStr ''2.1.0''),
        (''runs'', VRef (b + 5))]"
    using sk by (simp_all add: skeleton_at_def)
  have r1: "reifies ?S h (VRef (b + 1)) (JObj
       [(''name'', JStr ''cargo-audit''),
        (''version'', JStr ''0.18.0''),
        (''informationUri'', JStr ''https://github.com/RustSec/rustsec''),
        (''rules'', JArr jrules)])"
    apply (rule reifies.dict [OF new o1])
    using r0 apply (simp_all add: reifies.str)
    done
  have r2: "reifies ?S h (VRef (b + 2)) (JObj [(''driver'', JObj
       [(''name'', JStr ''cargo-audit''),
        (''version'', JStr ''0.18.0''),
        (''informationUri'', JStr ''https://github.com/RustSec/rustsec''),
        (''rules'', JArr jrules)])])"
    apply (rule reifies.dict [OF new o2])
    using r1 apply simp_all
    done
  have r4: "reifies ?S h (VRef (b + 4)) (JObj
       [(''tool'', JObj [(''driver'', JObj
           [(''name'', JStr ''cargo-audit''),
            (''version'', JStr ''0.18.0''),
            (''informationUri'', JStr ''https://github.com/RustSec/rustsec''),
            (''rules'', JArr jrules)])]),
        (''results'', JArr jresults),
        (''columnKind'', JStr ''utf16CodeUnits'')])"
    apply (rule reifies.dict [OF new o4])
    using r2 r3 apply (simp_all add: reifies.str)
    done
  have r5: "reifies ?S h (VRef (b + 5)) (JArr [JObj
       [(''tool'', JObj [(''driver'', JObj
           [(''name'', JStr ''cargo-audit''),
            (''version'', JStr ''0.18.0''),
            (''informationUri'', JStr ''https://github.com/RustSec/rustsec''),
            (''rules'', JArr jrules)])]),
        (''results'', JArr jresults),
        (''columnKind'', JStr ''utf16CodeUnits'')]])"
    apply (rule reifies.list [OF new o5])
    using r4 apply simp_all
    done
  show ?thesis
    unfolding sarif_doc_def
    apply (rule reifies.dict [OF new o6])
    using r5 apply (simp_all add: reifies.str)
    done
qed

lemma convert_audit_to_sarif_st_reifies:
  assumes str: "\<And>B h1 v j. reifies B h1 v j \<Longrightarrow> str_of_st h1 v = str_of j"
    and A: "A \<subseteq> {..<next_free h}"
    and audit: "reifies A h audit_data jaudit"
    and pure: "convert_audit_to_sarif str_of jaudit = Inr doc"
  shows "\<exists>sarif h'. convert_audit_to_sarif_st str_of_st audit_data h = (Inr sarif, h') \<and>
     reifies {..<next_free h'} h' sarif doc"
proof -
  from pure obtain jitems jrules jresults
    where input: "input_vulnerabilities jaudit = Inr jitems"
      and prs: "list_all2 (\<lambda>v r. create_sarif_rule str_of v = Inr r) jitems jrules"
      and pxs: "list_all2 (\<lambda>v x. create_sarif_result v = Inr x) jitems jresults"
      and doc: "doc = sarif_doc jrules jresults"
    unfolding convert_audit_to_sarif_doc by blast
  from input obtain jreport jlist
    where g1: "get jaudit ''vulnerabilities'' (JObj []) = Inr jreport"
      and g2: "get jreport ''list'' (JArr []) = Inr jlist"
      and it: "iterate jlist = Inr jitems"
    unfolding input_vulnerabilities_def and_then_eq_Inr by blast
  from g1 obtain jkvs where jaudit: "jaudit = JObj jkvs"
    and jreport: "jreport = or_default (map_of jkvs ''vulnerabilities'') (JObj [])"
    by (rule get_Inr_dict)
  from g2 obtain rkjs where jr: "jreport = JObj rkjs"
    and jlist: "jlist = or_default (map_of rkjs ''list'') (JArr [])"
    by (rule get_Inr_dict)
  let ?N = "next_free h"
  \<comment> \<open>the two lookups\<close>
  from get_st_alloc_reifies [OF audit [unfolded jaudit] A, of "ODict []" "JObj []"
      "''vulnerabilities''"]
  obtain report h1
    where s1: "get_st audit_data ''vulnerabilities'' (alloc (ODict [])) h = (Inr report, h1)"
      and n1: "next_free h1 = ?N + 1"
      and k1: "\<forall>x<?N. objs h1 x = objs h x"
      and r1: "reifies (insert ?N A) h1 report (JObj rkjs)"
    using jreport jr by auto
  have A1: "insert ?N A \<subseteq> {..<next_free h1}"
    using A n1 by auto
  from get_st_alloc_reifies [OF r1 A1, of "OList []" "JArr []" "''list''"]
  obtain vulnerabilities h2
    where s2: "get_st report ''list'' (alloc (OList [])) h1 = (Inr vulnerabilities, h2)"
      and n2: "next_free h2 = ?N + 2"
      and k2: "\<forall>x<?N + 1. objs h2 x = objs h1 x"
      and r2: "reifies (insert (?N + 1) (insert ?N A)) h2 vulnerabilities jlist"
    using jlist n1 by auto
  let ?A2 = "insert (?N + 1) (insert ?N A)"
  let ?b = "next_free h2"
  have A2: "?A2 \<subseteq> {..<?b}"
    using A n2 by auto
  \<comment> \<open>the new document\<close>
  from new_sarif_empty [of h2] obtain h3
    where s3: "new_sarif h2 = (Inr (VRef (?b + 6)), h3)"
      and sk3: "skeleton_at ?b h3"
      and e0: "objs h3 ?b = OList []"
      and e3: "objs h3 (?b + 3) = OList []"
    by blast
  note g3 = growsD [OF grows_new_sarif s3]
  have keep3: "objs h3 x = objs h2 x" if "x \<in> ?A2" for x
    using that A2 g3(2) [of x] by auto
  have r3: "reifies ?A2 h3 vulnerabilities jlist"
    using r2 by (rule reifies_frame [OF _ subset_refl keep3])
  \<comment> \<open>the loop\<close>
  from iterate_st_reifies [OF r3 it] obtain items
    where s4: "iterate_st vulnerabilities h3 = (Inr items, h3)"
      and ritems: "list_all2 (reifies ?A2 h3) items jitems"
    by blast
  have "\<exists>h' rs' xs'.
     add_vulnerabilities_st str_of_st items (VRef (?b + 6)) h3 = (Inr (), h') \<and>
     skeleton_at ?b h' \<and>
     (\<forall>a<?b. objs h' a = objs h3 a) \<and>
     objs h' ?b = OList rs' \<and>
     list_all2 (reifies (outside ?b h') h') rs' ([] @ jrules) \<and>
     objs h' (?b + 3) = OList xs' \<and>
     list_all2 (reifies (outside ?b h') h') xs' ([] @ jresults)"
    by (rule add_vulnerabilities_st_reifies
        [where str_of = str_of, OF _ A2 sk3 ritems prs pxs e0 _ e3])
      (rule str, simp_all)
  then obtain h5 rs xs
    where s5: "add_vulnerabilities_st str_of_st items (VRef (?b + 6)) h3 = (Inr (), h5)"
      and sk5: "skeleton_at ?b h5"
      and rs: "objs h5 ?b = OList rs" "list_all2 (reifies (outside ?b h5) h5) rs jrules"
      and xs: "objs h5 (?b + 3) = OList xs" "list_all2 (reifies (outside ?b h5) h5) xs jresults"
    by auto
  have run: "convert_audit_to_sarif_st str_of_st audit_data h = (Inr (VRef (?b + 6)), h5)"
    by (simp add: convert_audit_to_sarif_st_def seq_def s1 s2 s3 s4 s5 return_def)
  have "reifies {..<next_free h5} h5 (VRef (?b + 6)) doc"
    unfolding doc by (rule skeleton_reifies [OF sk5 rs xs])
  with run show ?thesis by blast
qed

lemma type_name_reifies:
  "reifies B h v j \<Longrightarrow> type_name_st h v = type_name j"
  by (induction rule: reifies.induct) (simp_all add: type_name_st_def)

section \<open>The severity mapping\<close>

text \<open>
  C2. On every string the severity mapper returns (it does not raise), and what it
  returns is fixed by the lower-cased string: \<open>error\<close> for \<open>critical\<close> and \<open>high\<close>,
  \<open>warning\<close> for \<open>medium\<close>, \<open>note\<close> for \<open>low\<close> and \<open>informational\<close>, \<open>warning\<close> for
  everything else. Two strings with the same lower case get the same level.
\<close>

theorem convert_severity_table:
  "(\<exists>level. convert_severity (JStr s) = Inr level) \<and>
   (lower s = ''critical'' \<or> lower s = ''high'' \<longrightarrow> convert_severity (JStr s) = Inr ''error'') \<and>
   (lower s = ''medium'' \<longrightarrow> convert_severity (JStr s) = Inr ''warning'') \<and>
   (lower s = ''low'' \<or> lower s = ''informational'' \<longrightarrow> convert_severity (JStr s) = Inr ''note'') \<and>
   (lower s \<notin> {''critical'', ''high'', ''medium'', ''low'', ''informational''}
      \<longrightarrow> convert_severity (JStr s) = Inr ''warning'') \<and>
   (lower s = lower t \<longrightarrow> convert_severity (JStr s) = convert_severity (JStr t))"
  by (simp add: convert_severity_str severity_map_def)

theorem convert_severity_table_witness:
  "convert_severity (JStr ''HIGH'') = Inr ''error'' \<and>
   convert_severity (JStr ''Critical'') = Inr ''error'' \<and>
   convert_severity (JStr ''MeDiUm'') = Inr ''warning'' \<and>
   convert_severity (JStr ''Low'') = Inr ''note'' \<and>
   convert_severity (JStr ''INFORMATIONAL'') = Inr ''note'' \<and>
   convert_severity (JStr ''severe'') = Inr ''warning'' \<and>
   convert_severity (JStr ''hIGH'') = convert_severity (JStr ''High'')"
proof -
  have high: "lower ''HIGH'' = ''high''"
    by (simp add: lower_def lower_char_def)
  have critical: "lower ''Critical'' = ''critical''"
    by (simp add: lower_def lower_char_def)
  have medium: "lower ''MeDiUm'' = ''medium''"
    by (simp add: lower_def lower_char_def)
  have low: "lower ''Low'' = ''low''"
    by (simp add: lower_def lower_char_def)
  have informational: "lower ''INFORMATIONAL'' = ''informational''"
    by (simp add: lower_def lower_char_def)
  have severe: "lower ''severe'' = ''severe''"
    by (simp add: lower_def lower_char_def)
  have other: "''severe'' \<notin> {''critical'', ''high'', ''medium'', ''low'', ''informational''}"
    by simp
  have same: "lower ''hIGH'' = lower ''High''"
    by (simp add: lower_def lower_char_def)
  have 1: "convert_severity (JStr ''HIGH'') = Inr ''error''"
    using convert_severity_table [of "''HIGH''" "''HIGH''"] high by blast
  have 2: "convert_severity (JStr ''Critical'') = Inr ''error''"
    using convert_severity_table [of "''Critical''" "''Critical''"] critical by blast
  have 3: "convert_severity (JStr ''MeDiUm'') = Inr ''warning''"
    using convert_severity_table [of "''MeDiUm''" "''MeDiUm''"] medium by blast
  have 4: "convert_severity (JStr ''Low'') = Inr ''note''"
    using convert_severity_table [of "''Low''" "''Low''"] low by blast
  have 5: "convert_severity (JStr ''INFORMATIONAL'') = Inr ''note''"
    using convert_severity_table [of "''INFORMATIONAL''" "''INFORMATIONAL''"] informational
    by blast
  have 6: "convert_severity (JStr ''severe'') = Inr ''warning''"
    using convert_severity_table [of "''severe''" "''severe''"] severe other by metis
  have 7: "convert_severity (JStr ''hIGH'') = convert_severity (JStr ''High'')"
    using convert_severity_table [of "''hIGH''" "''High''"] same by blast
  from 1 2 3 4 5 6 7 show ?thesis by blast
qed

section \<open>Results and rules\<close>

text \<open>
  C5. Take a vulnerability that is a dict. \<^verbatim>\<open>create_sarif_result\<close> returns a result for
  it exactly when its entries \<open>advisory\<close>, \<open>package\<close> and \<open>cvss\<close> are dicts or missing
  and its \<open>severity\<close> is a str or missing (otherwise a \<^verbatim>\<open>get\<close> or \<^verbatim>\<open>lower\<close> raises).
  The result then has: \<open>ruleId\<close> the advisory's \<open>id\<close> (default \<open>UNKNOWN\<close>); \<open>level\<close> the
  severity mapping of \<open>severity\<close> (default \<open>medium\<close>); \<open>message.text\<close> the advisory's
  \<open>description\<close> (default \<open>Unknown vulnerability\<close>); one location, \<open>Cargo.toml\<close> at
  line 1, column 1; the package's \<open>name\<close> and \<open>version\<close> as fingerprints (default the
  empty string); and as properties the CVSS \<open>score\<close> (default 5.0), the three tags and
  the precision \<open>very-high\<close>.
\<close>

theorem create_sarif_result_fields:
  "((map_of vuln ''advisory'' = None \<and> advisory = [] \<or>
     map_of vuln ''advisory'' = Some (JObj advisory)) \<and>
    (map_of vuln ''package'' = None \<and> package = [] \<or>
     map_of vuln ''package'' = Some (JObj package)) \<and>
    (map_of vuln ''severity'' = None \<and> severity = ''medium'' \<or>
     map_of vuln ''severity'' = Some (JStr severity)) \<and>
    (map_of vuln ''cvss'' = None \<and> cvss = [] \<or>
     map_of vuln ''cvss'' = Some (JObj cvss))
    \<longrightarrow>
    (\<exists>result level.
     create_sarif_result (JObj vuln) = Inr result \<and>
     convert_severity (JStr severity) = Inr level \<and>
     value_at [Key ''ruleId''] result =
       Some (or_default (map_of advisory ''id'') (JStr ''UNKNOWN'')) \<and>
     value_at [Key ''level''] result = Some (JStr level) \<and>
     value_at [Key ''message'', Key ''text''] result =
       Some (or_default (map_of advisory ''description'') (JStr ''Unknown vulnerability'')) \<and>
     value_at [Key ''locations''] result =
       Some (JArr
         [JObj [(''physicalLocation'', JObj
            [(''artifactLocation'', JObj [(''uri'', JStr ''Cargo.toml'')]),
             (''region'', JObj [(''startLine'', JInt 1), (''startColumn'', JInt 1)])])]]) \<and>
     value_at [Key ''partialFingerprints''] result =
       Some (JObj
         [(''packageName'', or_default (map_of package ''name'') (JStr [])),
          (''packageVersion'', or_default (map_of package ''version'') (JStr []))]) \<and>
     value_at [Key ''properties''] result =
       Some (JObj
         [(''security-severity'', or_default (map_of cvss ''score'') float_5_0),
          (''tags'', JArr [JStr ''security'', JStr ''dependency'', JStr ''vulnerability'']),
          (''precision'', JStr ''very-high'')]))) \<and>
   (\<forall>built. create_sarif_result (JObj vuln) = Inr built \<longrightarrow>
      (\<exists>a p s c.
         (map_of vuln ''advisory'' = None \<and> a = [] \<or>
          map_of vuln ''advisory'' = Some (JObj a)) \<and>
         (map_of vuln ''package'' = None \<and> p = [] \<or>
          map_of vuln ''package'' = Some (JObj p)) \<and>
         (map_of vuln ''severity'' = None \<and> s = ''medium'' \<or>
          map_of vuln ''severity'' = Some (JStr s)) \<and>
         (map_of vuln ''cvss'' = None \<and> c = [] \<or>
          map_of vuln ''cvss'' = Some (JObj c))))"
proof (intro conjI impI allI)
  assume shape: "(map_of vuln ''advisory'' = None \<and> advisory = [] \<or>
     map_of vuln ''advisory'' = Some (JObj advisory)) \<and>
    (map_of vuln ''package'' = None \<and> package = [] \<or>
     map_of vuln ''package'' = Some (JObj package)) \<and>
    (map_of vuln ''severity'' = None \<and> severity = ''medium'' \<or>
     map_of vuln ''severity'' = Some (JStr severity)) \<and>
    (map_of vuln ''cvss'' = None \<and> cvss = [] \<or>
     map_of vuln ''cvss'' = Some (JObj cvss))"
  obtain level where level: "convert_severity (JStr severity) = Inr level"
    by (simp add: convert_severity_str)
  from shape have a: "map_of vuln ''advisory'' = None \<and> advisory = [] \<or>
     map_of vuln ''advisory'' = Some (JObj advisory)"
    and p: "map_of vuln ''package'' = None \<and> package = [] \<or>
     map_of vuln ''package'' = Some (JObj package)"
    and s: "map_of vuln ''severity'' = None \<and> severity = ''medium'' \<or>
     map_of vuln ''severity'' = Some (JStr severity)"
    and c: "map_of vuln ''cvss'' = None \<and> cvss = [] \<or>
     map_of vuln ''cvss'' = Some (JObj cvss)"
    by blast+
  note result = create_sarif_result_record [OF a p s c level]
  show "\<exists>result level.
     create_sarif_result (JObj vuln) = Inr result \<and>
     convert_severity (JStr severity) = Inr level \<and>
     value_at [Key ''ruleId''] result =
       Some (or_default (map_of advisory ''id'') (JStr ''UNKNOWN'')) \<and>
     value_at [Key ''level''] result = Some (JStr level) \<and>
     value_at [Key ''message'', Key ''text''] result =
       Some (or_default (map_of advisory ''description'') (JStr ''Unknown vulnerability'')) \<and>
     value_at [Key ''locations''] result =
       Some (JArr
         [JObj [(''physicalLocation'', JObj
            [(''artifactLocation'', JObj [(''uri'', JStr ''Cargo.toml'')]),
             (''region'', JObj [(''startLine'', JInt 1), (''startColumn'', JInt 1)])])]]) \<and>
     value_at [Key ''partialFingerprints''] result =
       Some (JObj
         [(''packageName'', or_default (map_of package ''name'') (JStr [])),
          (''packageVersion'', or_default (map_of package ''version'') (JStr []))]) \<and>
     value_at [Key ''properties''] result =
       Some (JObj
         [(''security-severity'', or_default (map_of cvss ''score'') float_5_0),
          (''tags'', JArr [JStr ''security'', JStr ''dependency'', JStr ''vulnerability'']),
          (''precision'', JStr ''very-high'')])"
    unfolding result level by simp
next
  fix built
  assume "create_sarif_result (JObj vuln) = Inr built"
  then show "\<exists>a p s c.
         (map_of vuln ''advisory'' = None \<and> a = [] \<or>
          map_of vuln ''advisory'' = Some (JObj a)) \<and>
         (map_of vuln ''package'' = None \<and> p = [] \<or>
          map_of vuln ''package'' = Some (JObj p)) \<and>
         (map_of vuln ''severity'' = None \<and> s = ''medium'' \<or>
          map_of vuln ''severity'' = Some (JStr s)) \<and>
         (map_of vuln ''cvss'' = None \<and> c = [] \<or>
          map_of vuln ''cvss'' = Some (JObj c))"
    by (rule create_sarif_result_shape)
qed

theorem create_sarif_result_fields_witness:
  "\<exists>result.
     create_sarif_result (JObj
       [(''advisory'', JObj
           [(''id'', JStr ''RUSTSEC-2023-0001''),
            (''title'', JStr ''Bad crate''),
            (''description'', JStr ''desc''),
            (''url'', JStr ''http://x'')]),
        (''package'', JObj [(''name'', JStr ''foo''), (''version'', JStr ''1.2.3'')]),
        (''severity'', JStr ''high''),
        (''cvss'', JObj [(''score'', JFloat 0x4020333333333333)])]) = Inr result \<and>
     value_at [Key ''ruleId''] result = Some (JStr ''RUSTSEC-2023-0001'') \<and>
     value_at [Key ''level''] result = Some (JStr ''error'') \<and>
     value_at [Key ''message'', Key ''text''] result = Some (JStr ''desc'') \<and>
     value_at [Key ''partialFingerprints''] result =
       Some (JObj [(''packageName'', JStr ''foo''), (''packageVersion'', JStr ''1.2.3'')]) \<and>
     value_at [Key ''properties'', Key ''security-severity''] result =
       Some (JFloat 0x4020333333333333) \<and>
     (\<exists>a. map_of
       [(''advisory'', JObj
           [(''id'', JStr ''RUSTSEC-2023-0001''),
            (''title'', JStr ''Bad crate''),
            (''description'', JStr ''desc''),
            (''url'', JStr ''http://x'')]),
        (''package'', JObj [(''name'', JStr ''foo''), (''version'', JStr ''1.2.3'')]),
        (''severity'', JStr ''high''),
        (''cvss'', JObj [(''score'', JFloat 0x4020333333333333)])] ''advisory'' =
       Some (JObj a))"
proof -
  let ?advisory = "[(''id'', JStr ''RUSTSEC-2023-0001''), (''title'', JStr ''Bad crate''),
     (''description'', JStr ''desc''), (''url'', JStr ''http://x'')]"
  let ?package = "[(''name'', JStr ''foo''), (''version'', JStr ''1.2.3'')]"
  let ?cvss = "[(''score'', JFloat 0x4020333333333333)]"
  let ?vuln = "[(''advisory'', JObj ?advisory), (''package'', JObj ?package),
     (''severity'', JStr ''high''), (''cvss'', JObj ?cvss)]"
  have a: "map_of ?vuln ''advisory'' = None \<and> ?advisory = [] \<or>
           map_of ?vuln ''advisory'' = Some (JObj ?advisory)"
    by simp
  have p: "map_of ?vuln ''package'' = None \<and> ?package = [] \<or>
           map_of ?vuln ''package'' = Some (JObj ?package)"
    by simp
  have s: "map_of ?vuln ''severity'' = None \<and> ''high'' = ''medium'' \<or>
           map_of ?vuln ''severity'' = Some (JStr ''high'')"
    by simp
  have c: "map_of ?vuln ''cvss'' = None \<and> ?cvss = [] \<or>
           map_of ?vuln ''cvss'' = Some (JObj ?cvss)"
    by simp
  have high: "convert_severity (JStr ''high'') = Inr ''error''"
    by (simp add: convert_severity_str severity_map_def lower_def lower_char_def)
  from create_sarif_result_fields
    [THEN conjunct1, rule_format, OF conjI [OF a conjI [OF p conjI [OF s c]]]]
  obtain result level where r: "create_sarif_result (JObj ?vuln) = Inr result"
    and l: "convert_severity (JStr ''high'') = Inr level"
    and f1: "value_at [Key ''ruleId''] result =
       Some (or_default (map_of ?advisory ''id'') (JStr ''UNKNOWN''))"
    and f2: "value_at [Key ''level''] result = Some (JStr level)"
    and f3: "value_at [Key ''message'', Key ''text''] result =
       Some (or_default (map_of ?advisory ''description'') (JStr ''Unknown vulnerability''))"
    and f5: "value_at [Key ''partialFingerprints''] result =
       Some (JObj
         [(''packageName'', or_default (map_of ?package ''name'') (JStr [])),
          (''packageVersion'', or_default (map_of ?package ''version'') (JStr []))])"
    and f6: "value_at [Key ''properties''] result =
       Some (JObj
         [(''security-severity'', or_default (map_of ?cvss ''score'') float_5_0),
          (''tags'', JArr [JStr ''security'', JStr ''dependency'', JStr ''vulnerability'']),
          (''precision'', JStr ''very-high'')])"
    by blast
  have g1: "value_at [Key ''ruleId''] result = Some (JStr ''RUSTSEC-2023-0001'')"
    using f1 by (simp add: or_default_def)
  have g2: "value_at [Key ''level''] result = Some (JStr ''error'')"
    using f2 l high by simp
  have g3: "value_at [Key ''message'', Key ''text''] result = Some (JStr ''desc'')"
    using f3 by (simp add: or_default_def)
  have g5: "value_at [Key ''partialFingerprints''] result =
       Some (JObj [(''packageName'', JStr ''foo''), (''packageVersion'', JStr ''1.2.3'')])"
    using f5 by (simp add: or_default_def)
  have g6: "value_at [Key ''properties'', Key ''security-severity''] result =
       Some (JFloat 0x4020333333333333)"
    using f6 by (auto simp: or_default_def split: json.splits option.splits)
  from create_sarif_result_fields [THEN conjunct2, rule_format, OF r]
  have "\<exists>a. map_of ?vuln ''advisory'' = None \<and> a = [] \<or>
             map_of ?vuln ''advisory'' = Some (JObj a)"
    by blast
  then have g7: "\<exists>a. map_of ?vuln ''advisory'' = Some (JObj a)"
    by simp
  from r g1 g2 g3 g5 g6 g7 show ?thesis by blast
qed

text \<open>
  C6. Take a vulnerability that is a dict. \<^verbatim>\<open>create_sarif_rule\<close> returns a rule for it
  exactly when its entries \<open>advisory\<close>, \<open>package\<close> and \<open>cvss\<close> are dicts or missing.
  The rule then has: \<open>id\<close> the advisory's \<open>id\<close> (default \<open>UNKNOWN\<close>); \<open>name\<close> and
  \<open>shortDescription.text\<close> its \<open>title\<close> (default \<open>Unknown vulnerability\<close>);
  \<open>fullDescription.text\<close> its \<open>description\<close> (default empty); \<open>help.text\<close> the
  sentence "Update \<open>name\<close> to a patched version" with the package's \<open>name\<close> (default
  \<open>package\<close>); \<open>help.markdown\<close> the block with the title as heading (default
  \<open>Vulnerability\<close>), the description as body and the advisory's \<open>url\<close> (default empty)
  under References; and as properties the CVSS \<open>score\<close> (default 5.0) and the two
  tags.
\<close>

theorem create_sarif_rule_fields:
  "((map_of vuln ''advisory'' = None \<and> advisory = [] \<or>
     map_of vuln ''advisory'' = Some (JObj advisory)) \<and>
    (map_of vuln ''package'' = None \<and> package = [] \<or>
     map_of vuln ''package'' = Some (JObj package)) \<and>
    (map_of vuln ''cvss'' = None \<and> cvss = [] \<or>
     map_of vuln ''cvss'' = Some (JObj cvss))
    \<longrightarrow>
    (\<exists>rule.
     create_sarif_rule str_of (JObj vuln) = Inr rule \<and>
     value_at [Key ''id''] rule =
       Some (or_default (map_of advisory ''id'') (JStr ''UNKNOWN'')) \<and>
     value_at [Key ''name''] rule =
       Some (or_default (map_of advisory ''title'') (JStr ''Unknown vulnerability'')) \<and>
     value_at [Key ''shortDescription'', Key ''text''] rule =
       Some (or_default (map_of advisory ''title'') (JStr ''Unknown vulnerability'')) \<and>
     value_at [Key ''fullDescription'', Key ''text''] rule =
       Some (or_default (map_of advisory ''description'') (JStr [])) \<and>
     value_at [Key ''help'', Key ''text''] rule =
       Some (JStr
         (''Update ''
           @ format_field str_of (or_default (map_of package ''name'') (JStr ''package''))
           @ '' to a patched version'')) \<and>
     value_at [Key ''help'', Key ''markdown''] rule =
       Some (JStr
         (''## ''
           @ format_field str_of (or_default (map_of advisory ''title'') (JStr ''Vulnerability''))
           @ [newline, newline]
           @ format_field str_of (or_default (map_of advisory ''description'') (JStr []))
           @ [newline, newline]
           @ ''### References'' @ [newline]
           @ ''- '' @ format_field str_of (or_default (map_of advisory ''url'') (JStr [])))) \<and>
     value_at [Key ''properties''] rule =
       Some (JObj
         [(''security-severity'', or_default (map_of cvss ''score'') float_5_0),
          (''tags'', JArr [JStr ''security'', JStr ''vulnerability''])]))) \<and>
   (\<forall>built. create_sarif_rule str_of (JObj vuln) = Inr built \<longrightarrow>
      (\<exists>a p c.
         (map_of vuln ''advisory'' = None \<and> a = [] \<or>
          map_of vuln ''advisory'' = Some (JObj a)) \<and>
         (map_of vuln ''package'' = None \<and> p = [] \<or>
          map_of vuln ''package'' = Some (JObj p)) \<and>
         (map_of vuln ''cvss'' = None \<and> c = [] \<or>
          map_of vuln ''cvss'' = Some (JObj c))))"
proof (intro conjI impI allI)
  assume shape: "(map_of vuln ''advisory'' = None \<and> advisory = [] \<or>
     map_of vuln ''advisory'' = Some (JObj advisory)) \<and>
    (map_of vuln ''package'' = None \<and> package = [] \<or>
     map_of vuln ''package'' = Some (JObj package)) \<and>
    (map_of vuln ''cvss'' = None \<and> cvss = [] \<or>
     map_of vuln ''cvss'' = Some (JObj cvss))"
  then have a: "map_of vuln ''advisory'' = None \<and> advisory = [] \<or>
     map_of vuln ''advisory'' = Some (JObj advisory)"
    and p: "map_of vuln ''package'' = None \<and> package = [] \<or>
     map_of vuln ''package'' = Some (JObj package)"
    and c: "map_of vuln ''cvss'' = None \<and> cvss = [] \<or>
     map_of vuln ''cvss'' = Some (JObj cvss)"
    by blast+
  show "\<exists>rule.
     create_sarif_rule str_of (JObj vuln) = Inr rule \<and>
     value_at [Key ''id''] rule =
       Some (or_default (map_of advisory ''id'') (JStr ''UNKNOWN'')) \<and>
     value_at [Key ''name''] rule =
       Some (or_default (map_of advisory ''title'') (JStr ''Unknown vulnerability'')) \<and>
     value_at [Key ''shortDescription'', Key ''text''] rule =
       Some (or_default (map_of advisory ''title'') (JStr ''Unknown vulnerability'')) \<and>
     value_at [Key ''fullDescription'', Key ''text''] rule =
       Some (or_default (map_of advisory ''description'') (JStr [])) \<and>
     value_at [Key ''help'', Key ''text''] rule =
       Some (JStr
         (''Update ''
           @ format_field str_of (or_default (map_of package ''name'') (JStr ''package''))
           @ '' to a patched version'')) \<and>
     value_at [Key ''help'', Key ''markdown''] rule =
       Some (JStr
         (''## ''
           @ format_field str_of (or_default (map_of advisory ''title'') (JStr ''Vulnerability''))
           @ [newline, newline]
           @ format_field str_of (or_default (map_of advisory ''description'') (JStr []))
           @ [newline, newline]
           @ ''### References'' @ [newline]
           @ ''- '' @ format_field str_of (or_default (map_of advisory ''url'') (JStr [])))) \<and>
     value_at [Key ''properties''] rule =
       Some (JObj
         [(''security-severity'', or_default (map_of cvss ''score'') float_5_0),
          (''tags'', JArr [JStr ''security'', JStr ''vulnerability''])])"
    unfolding create_sarif_rule_record [OF a p c] by simp
next
  fix built
  assume "create_sarif_rule str_of (JObj vuln) = Inr built"
  then show "\<exists>a p c.
         (map_of vuln ''advisory'' = None \<and> a = [] \<or>
          map_of vuln ''advisory'' = Some (JObj a)) \<and>
         (map_of vuln ''package'' = None \<and> p = [] \<or>
          map_of vuln ''package'' = Some (JObj p)) \<and>
         (map_of vuln ''cvss'' = None \<and> c = [] \<or>
          map_of vuln ''cvss'' = Some (JObj c))"
    by (rule create_sarif_rule_shape)
qed

theorem create_sarif_rule_fields_witness:
  "\<exists>rule.
     create_sarif_rule (\<lambda>v. ''None'') (JObj
       [(''advisory'', JObj
           [(''id'', JStr ''RUSTSEC-2023-0001''),
            (''title'', JStr ''Bad crate''),
            (''description'', JStr ''desc''),
            (''url'', JStr ''http://x'')]),
        (''package'', JObj [(''name'', JStr ''foo''), (''version'', JStr ''1.2.3'')]),
        (''severity'', JStr ''high''),
        (''cvss'', JObj [(''score'', JFloat 0x4020333333333333)])]) = Inr rule \<and>
     value_at [Key ''id''] rule = Some (JStr ''RUSTSEC-2023-0001'') \<and>
     value_at [Key ''name''] rule = Some (JStr ''Bad crate'') \<and>
     value_at [Key ''shortDescription'', Key ''text''] rule = Some (JStr ''Bad crate'') \<and>
     value_at [Key ''fullDescription'', Key ''text''] rule = Some (JStr ''desc'') \<and>
     value_at [Key ''help'', Key ''text''] rule =
       Some (JStr ''Update foo to a patched version'') \<and>
     value_at [Key ''help'', Key ''markdown''] rule =
       Some (JStr (''## Bad crate'' @ [newline, newline] @ ''desc'' @ [newline, newline]
                    @ ''### References'' @ [newline] @ ''- http://x'')) \<and>
     value_at [Key ''properties'', Key ''security-severity''] rule =
       Some (JFloat 0x4020333333333333) \<and>
     (\<exists>a. map_of
       [(''advisory'', JObj
           [(''id'', JStr ''RUSTSEC-2023-0001''),
            (''title'', JStr ''Bad crate''),
            (''description'', JStr ''desc''),
            (''url'', JStr ''http://x'')]),
        (''package'', JObj [(''name'', JStr ''foo''), (''version'', JStr ''1.2.3'')]),
        (''severity'', JStr ''high''),
        (''cvss'', JObj [(''score'', JFloat 0x4020333333333333)])] ''advisory'' =
       Some (JObj a))"
proof -
  let ?advisory = "[(''id'', JStr ''RUSTSEC-2023-0001''), (''title'', JStr ''Bad crate''),
     (''description'', JStr ''desc''), (''url'', JStr ''http://x'')]"
  let ?package = "[(''name'', JStr ''foo''), (''version'', JStr ''1.2.3'')]"
  let ?cvss = "[(''score'', JFloat 0x4020333333333333)]"
  let ?vuln = "[(''advisory'', JObj ?advisory), (''package'', JObj ?package),
     (''severity'', JStr ''high''), (''cvss'', JObj ?cvss)]"
  have a: "map_of ?vuln ''advisory'' = None \<and> ?advisory = [] \<or>
           map_of ?vuln ''advisory'' = Some (JObj ?advisory)"
    by simp
  have p: "map_of ?vuln ''package'' = None \<and> ?package = [] \<or>
           map_of ?vuln ''package'' = Some (JObj ?package)"
    by simp
  have c: "map_of ?vuln ''cvss'' = None \<and> ?cvss = [] \<or>
           map_of ?vuln ''cvss'' = Some (JObj ?cvss)"
    by simp
  have id: "or_default (map_of ?advisory ''id'') (JStr ''UNKNOWN'') = JStr ''RUSTSEC-2023-0001''"
    by (simp add: or_default_def)
  have title: "or_default (map_of ?advisory ''title'') d = JStr ''Bad crate''" for d
    by (simp add: or_default_def)
  have description: "or_default (map_of ?advisory ''description'') d = JStr ''desc''" for d
    by (simp add: or_default_def)
  have url: "or_default (map_of ?advisory ''url'') d = JStr ''http://x''" for d
    by (simp add: or_default_def)
  have name: "or_default (map_of ?package ''name'') d = JStr ''foo''" for d
    by (simp add: or_default_def)
  have score: "or_default (map_of ?cvss ''score'') d = JFloat 0x4020333333333333" for d
    by (simp add: or_default_def)
  have fmt: "format_field str_of (JStr s) = s" for s str_of
    by (simp add: format_field_def)
  from create_sarif_rule_fields
    [THEN conjunct1, rule_format, OF conjI [OF a conjI [OF p c]], of "\<lambda>v. ''None''"]
  obtain rule where r: "create_sarif_rule (\<lambda>v. ''None'') (JObj ?vuln) = Inr rule"
    and f1: "value_at [Key ''id''] rule = Some (JStr ''RUSTSEC-2023-0001'')"
    and f2: "value_at [Key ''name''] rule = Some (JStr ''Bad crate'')"
    and f3: "value_at [Key ''shortDescription'', Key ''text''] rule = Some (JStr ''Bad crate'')"
    and f4: "value_at [Key ''fullDescription'', Key ''text''] rule = Some (JStr ''desc'')"
    and f5: "value_at [Key ''help'', Key ''text''] rule =
       Some (JStr (''Update '' @ ''foo'' @ '' to a patched version''))"
    and f6: "value_at [Key ''help'', Key ''markdown''] rule =
       Some (JStr (''## '' @ ''Bad crate'' @ [newline, newline] @ ''desc'' @ [newline, newline]
                    @ ''### References'' @ [newline] @ ''- '' @ ''http://x''))"
    and f7: "value_at [Key ''properties''] rule =
       Some (JObj
         [(''security-severity'', JFloat 0x4020333333333333),
          (''tags'', JArr [JStr ''security'', JStr ''vulnerability''])])"
    unfolding id title description url name score fmt by blast
  have g5: "value_at [Key ''help'', Key ''text''] rule =
       Some (JStr ''Update foo to a patched version'')"
    using f5 by simp
  have g6: "value_at [Key ''help'', Key ''markdown''] rule =
       Some (JStr (''## Bad crate'' @ [newline, newline] @ ''desc'' @ [newline, newline]
                    @ ''### References'' @ [newline] @ ''- http://x''))"
    using f6 by simp
  have g7: "value_at [Key ''properties'', Key ''security-severity''] rule =
       Some (JFloat 0x4020333333333333)"
    using f7 by (auto split: json.splits option.splits)
  from create_sarif_rule_fields [THEN conjunct2, rule_format, OF r]
  have "\<exists>a. map_of ?vuln ''advisory'' = None \<and> a = [] \<or>
             map_of ?vuln ''advisory'' = Some (JObj a)"
    by blast
  then have g8: "\<exists>a. map_of ?vuln ''advisory'' = Some (JObj a)"
    by simp
  from r f1 f2 f3 f4 g5 g6 g7 g8 show ?thesis by blast
qed

text \<open>
  C3. A vulnerability dict that has none of the keys \<open>advisory\<close>, \<open>package\<close>,
  \<open>severity\<close> and \<open>cvss\<close> still gets a result and a rule, made of the defaults only:
  id \<open>UNKNOWN\<close>, text and name \<open>Unknown vulnerability\<close>, level \<open>warning\<close>, score 5.0,
  empty package name and version.
\<close>

theorem defaults_when_keys_missing:
  assumes "''advisory'' \<notin> fst ` set vuln"
    and "''package'' \<notin> fst ` set vuln"
    and "''severity'' \<notin> fst ` set vuln"
    and "''cvss'' \<notin> fst ` set vuln"
  shows "create_sarif_result (JObj vuln) =
     Inr (JObj
       [(''ruleId'', JStr ''UNKNOWN''),
        (''level'', JStr ''warning''),
        (''message'', JObj [(''text'', JStr ''Unknown vulnerability'')]),
        (''locations'', JArr
           [JObj [(''physicalLocation'', JObj
              [(''artifactLocation'', JObj [(''uri'', JStr ''Cargo.toml'')]),
               (''region'', JObj [(''startLine'', JInt 1), (''startColumn'', JInt 1)])])]]),
        (''partialFingerprints'', JObj
           [(''packageName'', JStr []), (''packageVersion'', JStr [])]),
        (''properties'', JObj
           [(''security-severity'', JFloat 0x4014000000000000),
            (''tags'', JArr [JStr ''security'', JStr ''dependency'', JStr ''vulnerability'']),
            (''precision'', JStr ''very-high'')])]) \<and>
   create_sarif_rule str_of (JObj vuln) =
     Inr (JObj
       [(''id'', JStr ''UNKNOWN''),
        (''name'', JStr ''Unknown vulnerability''),
        (''shortDescription'', JObj [(''text'', JStr ''Unknown vulnerability'')]),
        (''fullDescription'', JObj [(''text'', JStr [])]),
        (''help'', JObj
           [(''text'', JStr ''Update package to a patched version''),
            (''markdown'', JStr
               (''## Vulnerability'' @ [newline, newline] @ [newline, newline]
                 @ ''### References'' @ [newline] @ ''- ''))]),
        (''properties'', JObj
           [(''security-severity'', JFloat 0x4014000000000000),
            (''tags'', JArr [JStr ''security'', JStr ''vulnerability''])])])"
proof -
  have a: "map_of vuln ''advisory'' = None \<and> ([]::(string \<times> json) list) = [] \<or>
           map_of vuln ''advisory'' = Some (JObj [])"
    using assms(1) by (simp add: map_of_eq_None_iff)
  have p: "map_of vuln ''package'' = None \<and> ([]::(string \<times> json) list) = [] \<or>
           map_of vuln ''package'' = Some (JObj [])"
    using assms(2) by (simp add: map_of_eq_None_iff)
  have s: "map_of vuln ''severity'' = None \<and> ''medium'' = ''medium'' \<or>
           map_of vuln ''severity'' = Some (JStr ''medium'')"
    using assms(3) by (simp add: map_of_eq_None_iff)
  have c: "map_of vuln ''cvss'' = None \<and> ([]::(string \<times> json) list) = [] \<or>
           map_of vuln ''cvss'' = Some (JObj [])"
    using assms(4) by (simp add: map_of_eq_None_iff)
  have medium: "convert_severity (JStr ''medium'') = Inr ''warning''"
    by (simp add: convert_severity_str severity_map_def lower_def lower_char_def)
  have result: "create_sarif_result (JObj vuln) = Inr (JObj
       [(''ruleId'', JStr ''UNKNOWN''),
        (''level'', JStr ''warning''),
        (''message'', JObj [(''text'', JStr ''Unknown vulnerability'')]),
        (''locations'', JArr
           [JObj [(''physicalLocation'', JObj
              [(''artifactLocation'', JObj [(''uri'', JStr ''Cargo.toml'')]),
               (''region'', JObj [(''startLine'', JInt 1), (''startColumn'', JInt 1)])])]]),
        (''partialFingerprints'', JObj
           [(''packageName'', JStr []), (''packageVersion'', JStr [])]),
        (''properties'', JObj
           [(''security-severity'', JFloat 0x4014000000000000),
            (''tags'', JArr [JStr ''security'', JStr ''dependency'', JStr ''vulnerability'']),
            (''precision'', JStr ''very-high'')])])"
    unfolding create_sarif_result_record [OF a p s c medium]
    by (simp add: or_default_def float_5_0_def)
  have rule: "create_sarif_rule str_of (JObj vuln) = Inr (JObj
       [(''id'', JStr ''UNKNOWN''),
        (''name'', JStr ''Unknown vulnerability''),
        (''shortDescription'', JObj [(''text'', JStr ''Unknown vulnerability'')]),
        (''fullDescription'', JObj [(''text'', JStr [])]),
        (''help'', JObj
           [(''text'', JStr ''Update package to a patched version''),
            (''markdown'', JStr
               (''## Vulnerability'' @ [newline, newline] @ [newline, newline]
                 @ ''### References'' @ [newline] @ ''- ''))]),
        (''properties'', JObj
           [(''security-severity'', JFloat 0x4014000000000000),
            (''tags'', JArr [JStr ''security'', JStr ''vulnerability''])])])"
    unfolding create_sarif_rule_record [OF a p c]
    by (simp add: or_default_def float_5_0_def format_field_def)
  from result rule show ?thesis by (rule conjI)
qed

theorem defaults_when_keys_missing_witness:
  "\<exists>result rule.
     create_sarif_result (JObj [(''kind'', JStr ''unsound'')]) = Inr result \<and>
     create_sarif_rule (\<lambda>v. ''None'') (JObj [(''kind'', JStr ''unsound'')]) = Inr rule \<and>
     value_at [Key ''ruleId''] result = Some (JStr ''UNKNOWN'') \<and>
     value_at [Key ''level''] result = Some (JStr ''warning'') \<and>
     value_at [Key ''message'', Key ''text''] result = Some (JStr ''Unknown vulnerability'') \<and>
     value_at [Key ''partialFingerprints''] result =
       Some (JObj [(''packageName'', JStr []), (''packageVersion'', JStr [])]) \<and>
     value_at [Key ''properties'', Key ''security-severity''] result =
       Some (JFloat 0x4014000000000000) \<and>
     value_at [Key ''id''] rule = Some (JStr ''UNKNOWN'') \<and>
     value_at [Key ''name''] rule = Some (JStr ''Unknown vulnerability'') \<and>
     value_at [Key ''properties'', Key ''security-severity''] rule =
       Some (JFloat 0x4014000000000000)"
proof -
  let ?vuln = "[(''kind'', JStr ''unsound'')]"
  have a: "''advisory'' \<notin> fst ` set ?vuln" by simp
  have p: "''package'' \<notin> fst ` set ?vuln" by simp
  have s: "''severity'' \<notin> fst ` set ?vuln" by simp
  have c: "''cvss'' \<notin> fst ` set ?vuln" by simp
  note both = defaults_when_keys_missing [OF a p s c, of "\<lambda>v. ''None''"]
  show ?thesis
    unfolding both [THEN conjunct1] both [THEN conjunct2] by simp
qed

section \<open>The assembled document\<close>

text \<open>
  C1. The conversion returns a document exactly when the input's vulnerability list can
  be read and every entry gets its rule and its result. The document then holds, under
  \<open>runs[0].tool.driver.rules\<close> and \<open>runs[0].results\<close>, two arrays as long as the input
  list, and the rule and the result at index \<open>i\<close> are the ones built from the \<open>i\<close>-th
  vulnerability: the order of the input is kept and nothing is merged.
\<close>

theorem rules_and_results_parallel:
  "convert_audit_to_sarif str_of audit_data = Inr sarif \<longleftrightarrow>
     (\<exists>vulns rules results.
        input_vulnerabilities audit_data = Inr vulns \<and>
        sarif = sarif_doc rules results \<and>
        value_at rules_path sarif = Some (JArr rules) \<and>
        value_at results_path sarif = Some (JArr results) \<and>
        length rules = length vulns \<and>
        length results = length vulns \<and>
        (\<forall>i<length vulns.
           create_sarif_rule str_of (vulns ! i) = Inr (rules ! i) \<and>
           create_sarif_result (vulns ! i) = Inr (results ! i)))"
proof
  assume "convert_audit_to_sarif str_of audit_data = Inr sarif"
  then obtain vulns rules results
    where vulns: "input_vulnerabilities audit_data = Inr vulns"
      and rules: "list_all2 (\<lambda>v r. create_sarif_rule str_of v = Inr r) vulns rules"
      and results: "list_all2 (\<lambda>v x. create_sarif_result v = Inr x) vulns results"
      and sarif: "sarif = sarif_doc rules results"
    unfolding convert_audit_to_sarif_doc by blast
  have "length rules = length vulns"
    using list_all2_lengthD [OF rules] by simp
  moreover have "length results = length vulns"
    using list_all2_lengthD [OF results] by simp
  moreover have "\<forall>i<length vulns.
      create_sarif_rule str_of (vulns ! i) = Inr (rules ! i) \<and>
      create_sarif_result (vulns ! i) = Inr (results ! i)"
    using rules results by (simp add: list_all2_conv_all_nth)
  ultimately show "\<exists>vulns rules results.
        input_vulnerabilities audit_data = Inr vulns \<and>
        sarif = sarif_doc rules results \<and>
        value_at rules_path sarif = Some (JArr rules) \<and>
        value_at results_path sarif = Some (JArr results) \<and>
        length rules = length vulns \<and>
        length results = length vulns \<and>
        (\<forall>i<length vulns.
           create_sarif_rule str_of (vulns ! i) = Inr (rules ! i) \<and>
           create_sarif_result (vulns ! i) = Inr (results ! i))"
    using vulns sarif rules_of_doc results_of_doc by blast
next
  assume "\<exists>vulns rules results.
        input_vulnerabilities audit_data = Inr vulns \<and>
        sarif = sarif_doc rules results \<and>
        value_at rules_path sarif = Some (JArr rules) \<and>
        value_at results_path sarif = Some (JArr results) \<and>
        length rules = length vulns \<and>
        length results = length vulns \<and>
        (\<forall>i<length vulns.
           create_sarif_rule str_of (vulns ! i) = Inr (rules ! i) \<and>
           create_sarif_result (vulns ! i) = Inr (results ! i))"
  then obtain vulns rules results
    where vulns: "input_vulnerabilities audit_data = Inr vulns"
      and sarif: "sarif = sarif_doc rules results"
      and len: "length rules = length vulns" "length results = length vulns"
      and each: "\<forall>i<length vulns.
           create_sarif_rule str_of (vulns ! i) = Inr (rules ! i) \<and>
           create_sarif_result (vulns ! i) = Inr (results ! i)"
    by blast
  have "list_all2 (\<lambda>v r. create_sarif_rule str_of v = Inr r) vulns rules"
    using len each by (simp add: list_all2_conv_all_nth)
  moreover have "list_all2 (\<lambda>v x. create_sarif_result v = Inr x) vulns results"
    using len each by (simp add: list_all2_conv_all_nth)
  ultimately show "convert_audit_to_sarif str_of audit_data = Inr sarif"
    unfolding convert_audit_to_sarif_doc using vulns sarif by blast
qed

theorem rules_and_results_parallel_witness:
  "\<exists>sarif rules results.
     convert_audit_to_sarif (\<lambda>v. ''None'')
       (JObj [(''vulnerabilities'', JObj [(''list'', JArr
          [JObj [(''advisory'', JObj [(''id'', JStr ''A-1'')])],
           JObj [(''advisory'', JObj [(''id'', JStr ''B-2'')])],
           JObj [(''advisory'', JObj [(''id'', JStr ''A-1'')])]])])]) = Inr sarif \<and>
     value_at rules_path sarif = Some (JArr rules) \<and>
     value_at results_path sarif = Some (JArr results) \<and>
     length rules = 3 \<and>
     length results = 3 \<and>
     create_sarif_rule (\<lambda>v. ''None'')
       (JObj [(''advisory'', JObj [(''id'', JStr ''A-1'')])]) = Inr (rules ! 0) \<and>
     create_sarif_rule (\<lambda>v. ''None'')
       (JObj [(''advisory'', JObj [(''id'', JStr ''B-2'')])]) = Inr (rules ! 1) \<and>
     create_sarif_rule (\<lambda>v. ''None'')
       (JObj [(''advisory'', JObj [(''id'', JStr ''A-1'')])]) = Inr (rules ! 2) \<and>
     create_sarif_result (JObj [(''advisory'', JObj [(''id'', JStr ''B-2'')])]) =
       Inr (results ! 1)"
proof -
  let ?f = "\<lambda>v::json. ''None''"
  let ?a = "JObj [(''advisory'', JObj [(''id'', JStr ''A-1'')])]"
  let ?b = "JObj [(''advisory'', JObj [(''id'', JStr ''B-2'')])]"
  let ?audit = "JObj [(''vulnerabilities'', JObj [(''list'', JArr [?a, ?b, ?a])])]"
  have input: "input_vulnerabilities ?audit = Inr [?a, ?b, ?a]"
    by (simp add: input_vulnerabilities_def)
  obtain ra where ra: "create_sarif_rule ?f ?a = Inr ra"
    by (simp add: create_sarif_rule_def)
  obtain rb where rb: "create_sarif_rule ?f ?b = Inr rb"
    by (simp add: create_sarif_rule_def)
  have medium: "convert_severity (JStr ''medium'') = Inr ''warning''"
    by (simp add: convert_severity_str severity_map_def lower_def lower_char_def)
  obtain xa where xa: "create_sarif_result ?a = Inr xa"
    by (simp add: create_sarif_result_def medium)
  obtain xb where xb: "create_sarif_result ?b = Inr xb"
    by (simp add: create_sarif_result_def medium)
  have rules: "list_all2 (\<lambda>v r. create_sarif_rule ?f v = Inr r) [?a, ?b, ?a] [ra, rb, ra]"
    using ra rb by simp
  have results: "list_all2 (\<lambda>v x. create_sarif_result v = Inr x) [?a, ?b, ?a] [xa, xb, xa]"
    using xa xb by simp
  have "convert_audit_to_sarif ?f ?audit = Inr (sarif_doc [ra, rb, ra] [xa, xb, xa])"
    unfolding convert_audit_to_sarif_doc using input rules results by blast
  from rules_and_results_parallel [THEN iffD1, OF this]
  obtain vulns rules results
    where vulns: "input_vulnerabilities ?audit = Inr vulns"
      and sarif: "sarif_doc [ra, rb, ra] [xa, xb, xa] = sarif_doc rules results"
      and arrays: "value_at rules_path (sarif_doc [ra, rb, ra] [xa, xb, xa]) = Some (JArr rules)"
        "value_at results_path (sarif_doc [ra, rb, ra] [xa, xb, xa]) = Some (JArr results)"
      and len: "length rules = length vulns" "length results = length vulns"
      and each: "\<forall>i<length vulns.
           create_sarif_rule ?f (vulns ! i) = Inr (rules ! i) \<and>
           create_sarif_result (vulns ! i) = Inr (results ! i)"
    by blast
  have v: "vulns = [?a, ?b, ?a]"
    using vulns input by simp
  have l: "length rules = 3" "length results = 3"
    using len v by simp_all
  have e0: "create_sarif_rule ?f ?a = Inr (rules ! 0)"
    using each [rule_format, of 0] v by simp
  have e1: "create_sarif_rule ?f ?b = Inr (rules ! 1)"
      "create_sarif_result ?b = Inr (results ! 1)"
    using each [rule_format, of 1] v by simp_all
  have e2: "create_sarif_rule ?f ?a = Inr (rules ! 2)"
    using each [rule_format, of 2] v by simp
  from \<open>convert_audit_to_sarif ?f ?audit = Inr (sarif_doc [ra, rb, ra] [xa, xb, xa])\<close>
    arrays l e0 e1 e2
  show ?thesis by blast
qed

text \<open>
  C9. In every document the conversion returns, the result at index \<open>i\<close> names the rule
  at index \<open>i\<close>: its \<open>ruleId\<close> and the rule's \<open>id\<close> are both the advisory id of the
  \<open>i\<close>-th vulnerability (\<open>UNKNOWN\<close> when it has none).
\<close>

theorem result_references_rule:
  assumes "convert_audit_to_sarif str_of audit_data = Inr sarif"
  shows "\<exists>vulns rules results.
     input_vulnerabilities audit_data = Inr vulns \<and>
     value_at rules_path sarif = Some (JArr rules) \<and>
     value_at results_path sarif = Some (JArr results) \<and>
     length rules = length vulns \<and>
     length results = length vulns \<and>
     (\<forall>i<length vulns. \<exists>id.
        advisory_id (vulns ! i) = Inr id \<and>
        value_at [Key ''id''] (rules ! i) = Some id \<and>
        value_at [Key ''ruleId''] (results ! i) = Some id)"
proof -
  from assms obtain vulns rules results
    where vulns: "input_vulnerabilities audit_data = Inr vulns"
      and rules: "list_all2 (\<lambda>v r. create_sarif_rule str_of v = Inr r) vulns rules"
      and results: "list_all2 (\<lambda>v x. create_sarif_result v = Inr x) vulns results"
      and sarif: "sarif = sarif_doc rules results"
    unfolding convert_audit_to_sarif_doc by blast
  have len: "length rules = length vulns" "length results = length vulns"
    using list_all2_lengthD [OF rules] list_all2_lengthD [OF results] by simp_all
  have ids: "\<exists>id. advisory_id (vulns ! i) = Inr id \<and>
        value_at [Key ''id''] (rules ! i) = Some id \<and>
        value_at [Key ''ruleId''] (results ! i) = Some id" if "i < length vulns" for i
  proof -
    have r: "create_sarif_rule str_of (vulns ! i) = Inr (rules ! i)"
      using rules that by (simp add: list_all2_conv_all_nth)
    have x: "create_sarif_result (vulns ! i) = Inr (results ! i)"
      using results that by (simp add: list_all2_conv_all_nth)
    from create_sarif_rule_id [OF r] create_sarif_result_rule_id [OF x]
    show ?thesis by auto
  qed
  show ?thesis
    using vulns len ids by (auto simp: sarif rules_of_doc results_of_doc)
qed

theorem result_references_rule_witness:
  "\<exists>sarif rules results.
     convert_audit_to_sarif (\<lambda>v. ''None'')
       (JObj [(''vulnerabilities'', JObj [(''list'', JArr
          [JObj [(''advisory'', JObj [(''id'', JStr ''A-1'')])],
           JObj [(''package'', JObj [(''name'', JStr ''foo'')])]])])]) = Inr sarif \<and>
     value_at rules_path sarif = Some (JArr rules) \<and>
     value_at results_path sarif = Some (JArr results) \<and>
     value_at [Key ''id''] (rules ! 0) = Some (JStr ''A-1'') \<and>
     value_at [Key ''ruleId''] (results ! 0) = Some (JStr ''A-1'') \<and>
     value_at [Key ''id''] (rules ! 1) = Some (JStr ''UNKNOWN'') \<and>
     value_at [Key ''ruleId''] (results ! 1) = Some (JStr ''UNKNOWN'')"
proof -
  let ?f = "\<lambda>v::json. ''None''"
  let ?a = "JObj [(''advisory'', JObj [(''id'', JStr ''A-1'')])]"
  let ?b = "JObj [(''package'', JObj [(''name'', JStr ''foo'')])]"
  let ?audit = "JObj [(''vulnerabilities'', JObj [(''list'', JArr [?a, ?b])])]"
  have input: "input_vulnerabilities ?audit = Inr [?a, ?b]"
    by (simp add: input_vulnerabilities_def)
  obtain ra where ra: "create_sarif_rule ?f ?a = Inr ra"
    by (simp add: create_sarif_rule_def)
  obtain rb where rb: "create_sarif_rule ?f ?b = Inr rb"
    by (simp add: create_sarif_rule_def)
  have medium: "convert_severity (JStr ''medium'') = Inr ''warning''"
    by (simp add: convert_severity_str severity_map_def lower_def lower_char_def)
  obtain xa where xa: "create_sarif_result ?a = Inr xa"
    by (simp add: create_sarif_result_def medium)
  obtain xb where xb: "create_sarif_result ?b = Inr xb"
    by (simp add: create_sarif_result_def medium)
  have rules: "list_all2 (\<lambda>v r. create_sarif_rule ?f v = Inr r) [?a, ?b] [ra, rb]"
    using ra rb by simp
  have results: "list_all2 (\<lambda>v x. create_sarif_result v = Inr x) [?a, ?b] [xa, xb]"
    using xa xb by simp
  have conv: "convert_audit_to_sarif ?f ?audit = Inr (sarif_doc [ra, rb] [xa, xb])"
    unfolding convert_audit_to_sarif_doc using input rules results by blast
  from result_references_rule [OF conv]
  obtain vulns rules results
    where vulns: "input_vulnerabilities ?audit = Inr vulns"
      and arrays: "value_at rules_path (sarif_doc [ra, rb] [xa, xb]) = Some (JArr rules)"
        "value_at results_path (sarif_doc [ra, rb] [xa, xb]) = Some (JArr results)"
      and each: "\<forall>i<length vulns. \<exists>id.
        advisory_id (vulns ! i) = Inr id \<and>
        value_at [Key ''id''] (rules ! i) = Some id \<and>
        value_at [Key ''ruleId''] (results ! i) = Some id"
    by blast
  have v: "vulns = [?a, ?b]"
    using vulns input by simp
  have ida: "advisory_id ?a = Inr (JStr ''A-1'')"
    by (simp add: advisory_id_def)
  have idb: "advisory_id ?b = Inr (JStr ''UNKNOWN'')"
    by (simp add: advisory_id_def)
  have e0: "value_at [Key ''id''] (rules ! 0) = Some (JStr ''A-1'')"
      "value_at [Key ''ruleId''] (results ! 0) = Some (JStr ''A-1'')"
    using each [rule_format, of 0] v ida by auto
  have e1: "value_at [Key ''id''] (rules ! 1) = Some (JStr ''UNKNOWN'')"
      "value_at [Key ''ruleId''] (results ! 1) = Some (JStr ''UNKNOWN'')"
    using each [rule_format, of 1] v idb by auto
  from conv arrays e0 e1 show ?thesis by blast
qed

text \<open>
  C4, as the spec states it: whenever the path \<open>vulnerabilities.list\<close> is absent or
  malformed, a \<open>vulnerabilities\<close> value that is not a mapping included, the assembly
  does not raise and gives the empty document. The code only defaults a missing key:
  on \<^verbatim>\<open>{"vulnerabilities": []}\<close> the second \<^verbatim>\<open>get\<close> is called on a list and raises.
\<close>

theorem malformed_path_counterexample:
  "convert_audit_to_sarif (\<lambda>v. ''None'') (JObj [(''vulnerabilities'', JArr [])]) =
     Inl (AttributeError ''list'' ''get'')"
  by (simp add: convert_audit_to_sarif_def get_def)

text \<open>
  C4, amended. When the key \<open>vulnerabilities\<close> is missing, or its value is a mapping in
  which \<open>list\<close> is missing or is the empty list, the assembly returns a document with
  empty \<open>rules\<close> and \<open>results\<close> and the fixed schema, version, tool driver and
  \<open>columnKind\<close>. When \<open>vulnerabilities\<close> is present and is not a mapping, the assembly
  raises \<^verbatim>\<open>AttributeError\<close>.
\<close>

theorem empty_document_when_list_absent:
  "(map_of audit ''vulnerabilities'' = None \<or>
    (\<exists>report. map_of audit ''vulnerabilities'' = Some (JObj report) \<and>
       (map_of report ''list'' = None \<or> map_of report ''list'' = Some (JArr [])))
    \<longrightarrow>
    (\<exists>sarif.
       convert_audit_to_sarif str_of (JObj audit) = Inr sarif \<and>
       value_at rules_path sarif = Some (JArr []) \<and>
       value_at results_path sarif = Some (JArr []) \<and>
       value_at [Key ''$schema''] sarif =
         Some (JStr ''https://json.schemastore.org/sarif-2.1.0.json'') \<and>
       value_at [Key ''version''] sarif = Some (JStr ''2.1.0'') \<and>
       value_at [Key ''runs'', Pos 0, Key ''tool'', Key ''driver'', Key ''name''] sarif =
         Some (JStr ''cargo-audit'') \<and>
       value_at [Key ''runs'', Pos 0, Key ''tool'', Key ''driver'', Key ''version''] sarif =
         Some (JStr ''0.18.0'') \<and>
       value_at [Key ''runs'', Pos 0, Key ''tool'', Key ''driver'', Key ''informationUri''] sarif =
         Some (JStr ''https://github.com/RustSec/rustsec'') \<and>
       value_at [Key ''runs'', Pos 0, Key ''columnKind''] sarif =
         Some (JStr ''utf16CodeUnits''))) \<and>
   (map_of audit ''vulnerabilities'' = Some v \<and> (\<forall>report. v \<noteq> JObj report)
    \<longrightarrow> convert_audit_to_sarif str_of (JObj audit) = Inl (AttributeError (type_name v) ''get''))"
proof (intro conjI impI)
  assume absent: "map_of audit ''vulnerabilities'' = None \<or>
    (\<exists>report. map_of audit ''vulnerabilities'' = Some (JObj report) \<and>
       (map_of report ''list'' = None \<or> map_of report ''list'' = Some (JArr [])))"
  then have "input_vulnerabilities (JObj audit) = Inr []"
    by (auto simp: input_vulnerabilities_def)
  then have conv: "convert_audit_to_sarif str_of (JObj audit) = Inr (sarif_doc [] [])"
    by (simp add: convert_audit_to_sarif_loop)
  have meta:
    "value_at [Key ''$schema''] (sarif_doc [] []) =
       Some (JStr ''https://json.schemastore.org/sarif-2.1.0.json'')"
    "value_at [Key ''version''] (sarif_doc [] []) = Some (JStr ''2.1.0'')"
    "value_at [Key ''runs'', Pos 0, Key ''tool'', Key ''driver'', Key ''name'']
       (sarif_doc [] []) = Some (JStr ''cargo-audit'')"
    "value_at [Key ''runs'', Pos 0, Key ''tool'', Key ''driver'', Key ''version'']
       (sarif_doc [] []) = Some (JStr ''0.18.0'')"
    "value_at [Key ''runs'', Pos 0, Key ''tool'', Key ''driver'', Key ''informationUri'']
       (sarif_doc [] []) = Some (JStr ''https://github.com/RustSec/rustsec'')"
    "value_at [Key ''runs'', Pos 0, Key ''columnKind''] (sarif_doc [] []) =
       Some (JStr ''utf16CodeUnits'')"
    by (simp_all add: sarif_doc_def)
  show "\<exists>sarif.
       convert_audit_to_sarif str_of (JObj audit) = Inr sarif \<and>
       value_at rules_path sarif = Some (JArr []) \<and>
       value_at results_path sarif = Some (JArr []) \<and>
       value_at [Key ''$schema''] sarif =
         Some (JStr ''https://json.schemastore.org/sarif-2.1.0.json'') \<and>
       value_at [Key ''version''] sarif = Some (JStr ''2.1.0'') \<and>
       value_at [Key ''runs'', Pos 0, Key ''tool'', Key ''driver'', Key ''name''] sarif =
         Some (JStr ''cargo-audit'') \<and>
       value_at [Key ''runs'', Pos 0, Key ''tool'', Key ''driver'', Key ''version''] sarif =
         Some (JStr ''0.18.0'') \<and>
       value_at [Key ''runs'', Pos 0, Key ''tool'', Key ''driver'', Key ''informationUri''] sarif =
         Some (JStr ''https://github.com/RustSec/rustsec'') \<and>
       value_at [Key ''runs'', Pos 0, Key ''columnKind''] sarif =
         Some (JStr ''utf16CodeUnits'')"
    using conv rules_of_doc [of "[]" "[]"] results_of_doc [of "[]" "[]"] meta by blast
next
  assume "map_of audit ''vulnerabilities'' = Some v \<and> (\<forall>report. v \<noteq> JObj report)"
  then show "convert_audit_to_sarif str_of (JObj audit) =
      Inl (AttributeError (type_name v) ''get'')"
    by (cases v) (simp_all add: convert_audit_to_sarif_def get_def)
qed

theorem empty_document_when_list_absent_witness:
  "(\<exists>sarif.
      convert_audit_to_sarif (\<lambda>v. ''None'') (JObj [(''database'', JObj [])]) = Inr sarif \<and>
      value_at rules_path sarif = Some (JArr []) \<and>
      value_at results_path sarif = Some (JArr []) \<and>
      value_at [Key ''version''] sarif = Some (JStr ''2.1.0'')) \<and>
   (\<exists>sarif.
      convert_audit_to_sarif (\<lambda>v. ''None'')
        (JObj [(''vulnerabilities'', JObj [(''found'', JBool False)])]) = Inr sarif \<and>
      value_at rules_path sarif = Some (JArr []) \<and>
      value_at results_path sarif = Some (JArr []) \<and>
      value_at [Key ''version''] sarif = Some (JStr ''2.1.0'')) \<and>
   convert_audit_to_sarif (\<lambda>v. ''None'') (JObj [(''vulnerabilities'', JNull)]) =
     Inl (AttributeError ''NoneType'' ''get'')"
proof -
  let ?f = "\<lambda>v::json. ''None''"
  have a: "map_of [(''database'', JObj [])] ''vulnerabilities'' = None \<or>
    (\<exists>report. map_of [(''database'', JObj [])] ''vulnerabilities'' = Some (JObj report) \<and>
       (map_of report ''list'' = None \<or> map_of report ''list'' = Some (JArr [])))"
    by simp
  have b: "map_of [(''vulnerabilities'', JObj [(''found'', JBool False)])] ''vulnerabilities''
      = None \<or>
    (\<exists>report. map_of [(''vulnerabilities'', JObj [(''found'', JBool False)])] ''vulnerabilities''
        = Some (JObj report) \<and>
       (map_of report ''list'' = None \<or> map_of report ''list'' = Some (JArr [])))"
    by simp
  have c: "map_of [(''vulnerabilities'', JNull)] ''vulnerabilities'' = Some JNull \<and>
    (\<forall>report. JNull \<noteq> JObj report)"
    by simp
  have 1: "\<exists>sarif.
      convert_audit_to_sarif ?f (JObj [(''database'', JObj [])]) = Inr sarif \<and>
      value_at rules_path sarif = Some (JArr []) \<and>
      value_at results_path sarif = Some (JArr []) \<and>
      value_at [Key ''version''] sarif = Some (JStr ''2.1.0'')"
    using empty_document_when_list_absent
      [of "[(''database'', JObj [])]" ?f JNull, THEN conjunct1, rule_format, OF a]
    by blast
  have 2: "\<exists>sarif.
      convert_audit_to_sarif ?f
        (JObj [(''vulnerabilities'', JObj [(''found'', JBool False)])]) = Inr sarif \<and>
      value_at rules_path sarif = Some (JArr []) \<and>
      value_at results_path sarif = Some (JArr []) \<and>
      value_at [Key ''version''] sarif = Some (JStr ''2.1.0'')"
    using empty_document_when_list_absent
      [of "[(''vulnerabilities'', JObj [(''found'', JBool False)])]" ?f JNull,
        THEN conjunct1, rule_format, OF b]
    by blast
  have 3: "convert_audit_to_sarif ?f (JObj [(''vulnerabilities'', JNull)]) =
     Inl (AttributeError ''NoneType'' ''get'')"
    using empty_document_when_list_absent
      [of "[(''vulnerabilities'', JNull)]" ?f JNull, THEN conjunct2, rule_format, OF c]
    by simp
  from 1 2 3 show ?thesis by blast
qed

section \<open>The command line\<close>

text \<open>
  C7. When \<^verbatim>\<open>sys.argv\<close> does not hold exactly the program name and two arguments,
  \<^verbatim>\<open>main\<close> prints the usage line, exits with status 1 and has called \<^verbatim>\<open>open\<close> on
  nothing: no file is read and none is written.
\<close>

theorem usage_error:
  assumes "length argv \<noteq> 3"
  shows "\<exists>w'. main str_of json_load json_dump argv w = (1, w') \<and>
     stdout w' = stdout w @ [''Usage: audit-to-sarif.py <input.json> <output.sarif>''] \<and>
     opened w' = opened w \<and>
     read_file w' = read_file w \<and>
     write_error w' = write_error w"
  using assms by (simp add: main_wrong_argc)

theorem usage_error_witness:
  "length [''audit-to-sarif.py'', ''audit.json''] \<noteq> 3 \<and>
   (\<exists>w'. main (\<lambda>v. ''None'') (\<lambda>t. Inl (EnvError ''Expecting value'')) (\<lambda>v. (''{}'', None))
           [''audit-to-sarif.py'', ''audit.json'']
           \<lparr>read_file = (\<lambda>p. Inl (EnvError ''No such file or directory'')),
            write_error = (\<lambda>p. None), stdout = [], opened = []\<rparr> = (1, w') \<and>
      stdout w' = [''Usage: audit-to-sarif.py <input.json> <output.sarif>''] \<and>
      opened w' = [])"
proof -
  have argc: "length [''audit-to-sarif.py'', ''audit.json''] \<noteq> 3"
    by simp
  let ?w = "\<lparr>read_file = (\<lambda>p. Inl (EnvError ''No such file or directory'')),
        write_error = (\<lambda>p. None), stdout = [], opened = []\<rparr>"
  from usage_error [OF argc, of "\<lambda>v. ''None''" "\<lambda>t. Inl (EnvError ''Expecting value'')"
      "\<lambda>v. (''{}'', None)" ?w]
  obtain w' where run: "main (\<lambda>v. ''None'') (\<lambda>t. Inl (EnvError ''Expecting value''))
        (\<lambda>v. (''{}'', None)) [''audit-to-sarif.py'', ''audit.json''] ?w = (1, w')"
    and printed: "stdout w' =
        stdout ?w @ [''Usage: audit-to-sarif.py <input.json> <output.sarif>'']"
    and files: "opened w' = opened ?w"
    by blast
  have 1: "stdout w' = [''Usage: audit-to-sarif.py <input.json> <output.sarif>'']"
    using printed by simp
  have 2: "opened w' = []"
    using files by simp
  from argc run 1 2 show ?thesis by blast
qed

section \<open>Two runs on the same input\<close>

text \<open>
  C8. The document depends on the content of the input and on nothing else. Take any
  two stores and, in each, a reference that reads as the same report: the objects may
  lie at other addresses, next to other objects, and one store may be the one an
  earlier run has left. (\<^verbatim>\<open>str\<close> is taken to depend on what a value reads as, like the
  rest of Python here.) If the conversion of that report returns a document, then
  both runs return, and both return a reference that reads as exactly that document:
  the two outputs are identical, and they are the output the functions on values
  compute.
\<close>

theorem conversion_deterministic:
  assumes "\<forall>B h v j. reifies B h v j \<longrightarrow> str_of_st h v = str_of j"
    and "reifies {..<next_free h1} h1 audit_data1 audit"
    and "reifies {..<next_free h2} h2 audit_data2 audit"
    and "convert_audit_to_sarif str_of audit = Inr sarif"
  shows "\<exists>sarif1 h1' sarif2 h2'.
     convert_audit_to_sarif_st str_of_st audit_data1 h1 = (Inr sarif1, h1') \<and>
     convert_audit_to_sarif_st str_of_st audit_data2 h2 = (Inr sarif2, h2') \<and>
     reifies {..<next_free h1'} h1' sarif1 sarif \<and>
     reifies {..<next_free h2'} h2' sarif2 sarif"
proof -
  have str: "str_of_st h v = str_of j" if "reifies B h v j" for B h v j
    using assms(1) that by blast
  have "\<exists>sarif1 h1'. convert_audit_to_sarif_st str_of_st audit_data1 h1 = (Inr sarif1, h1') \<and>
     reifies {..<next_free h1'} h1' sarif1 sarif"
    by (rule convert_audit_to_sarif_st_reifies
        [where str_of = str_of, OF _ subset_refl assms(2) assms(4)]) (rule str)
  moreover
  have "\<exists>sarif2 h2'. convert_audit_to_sarif_st str_of_st audit_data2 h2 = (Inr sarif2, h2') \<and>
     reifies {..<next_free h2'} h2' sarif2 sarif"
    by (rule convert_audit_to_sarif_st_reifies
        [where str_of = str_of, OF _ subset_refl assms(3) assms(4)]) (rule str)
  ultimately show ?thesis by blast
qed

theorem conversion_deterministic_witness:
  "\<exists>sarif sarif1 h1' sarif2 h2' rule.
     convert_audit_to_sarif type_name
       (JObj [(''vulnerabilities'', JObj [(''list'', JArr
          [JObj [(''advisory'', JObj [(''id'', JStr ''A-1'')])]])])]) = Inr sarif \<and>
     value_at rules_path sarif = Some (JArr [rule]) \<and>
     value_at [Key ''id''] rule = Some (JStr ''A-1'') \<and>
     convert_audit_to_sarif_st type_name_st (VRef 4)
       \<lparr>objs = (\<lambda>a. ODict [])
          (0 := ODict [(''id'', VStr ''A-1'')],
           1 := ODict [(''advisory'', VRef 0)],
           2 := OList [VRef 1],
           3 := ODict [(''list'', VRef 2)],
           4 := ODict [(''vulnerabilities'', VRef 3)]),
        next_free = 5\<rparr> = (Inr sarif1, h1') \<and>
     convert_audit_to_sarif_st type_name_st (VRef 1)
       \<lparr>objs = (\<lambda>a. OList [])
          (1 := ODict [(''vulnerabilities'', VRef 3)],
           2 := ODict [(''id'', VStr ''A-1'')],
           3 := ODict [(''list'', VRef 5)],
           4 := ODict [(''advisory'', VRef 2)],
           5 := OList [VRef 4]),
        next_free = 6\<rparr> = (Inr sarif2, h2') \<and>
     reifies {..<next_free h1'} h1' sarif1 sarif \<and>
     reifies {..<next_free h2'} h2' sarif2 sarif"
proof -
  let ?vuln = "JObj [(''advisory'', JObj [(''id'', JStr ''A-1'')])]"
  let ?audit = "JObj [(''vulnerabilities'', JObj [(''list'', JArr [?vuln])])]"
  let ?h1 = "\<lparr>objs = (\<lambda>a. ODict [])
          (0 := ODict [(''id'', VStr ''A-1'')],
           1 := ODict [(''advisory'', VRef 0)],
           2 := OList [VRef 1],
           3 := ODict [(''list'', VRef 2)],
           4 := ODict [(''vulnerabilities'', VRef 3)]),
        next_free = 5\<rparr>"
  let ?h2 = "\<lparr>objs = (\<lambda>a. OList [])
          (1 := ODict [(''vulnerabilities'', VRef 3)],
           2 := ODict [(''id'', VStr ''A-1'')],
           3 := ODict [(''list'', VRef 5)],
           4 := ODict [(''advisory'', VRef 2)],
           5 := OList [VRef 4]),
        next_free = 6\<rparr>"
  \<comment> \<open>the conversion of the report as a value\<close>
  have input: "input_vulnerabilities ?audit = Inr [?vuln]"
    by (simp add: input_vulnerabilities_def)
  obtain r where r: "create_sarif_rule type_name ?vuln = Inr r"
    by (simp add: create_sarif_rule_def)
  have medium: "convert_severity (JStr ''medium'') = Inr ''warning''"
    by (simp add: convert_severity_str severity_map_def lower_def lower_char_def)
  obtain x where x: "create_sarif_result ?vuln = Inr x"
    by (simp add: create_sarif_result_def medium)
  have rules: "list_all2 (\<lambda>v r. create_sarif_rule type_name v = Inr r) [?vuln] [r]"
    using r by simp
  have results: "list_all2 (\<lambda>v x. create_sarif_result v = Inr x) [?vuln] [x]"
    using x by simp
  have conv: "convert_audit_to_sarif type_name ?audit = Inr (sarif_doc [r] [x])"
    unfolding convert_audit_to_sarif_doc using input rules results by blast
  have id: "value_at [Key ''id''] r = Some (JStr ''A-1'')"
    using create_sarif_rule_id [OF r] by (auto simp: advisory_id_def)
  \<comment> \<open>the report in the first store\<close>
  have a0: "reifies {..<next_free ?h1} ?h1 (VRef 0) (JObj [(''id'', JStr ''A-1'')])"
    by (rule reifies.dict [where kvs = "[(''id'', VStr ''A-1'')]"]) (simp_all add: reifies.str)
  have a1: "reifies {..<next_free ?h1} ?h1 (VRef 1) ?vuln"
    apply (rule reifies.dict [where kvs = "[(''advisory'', VRef 0)]"])
    using a0 apply simp_all
    done
  have a2: "reifies {..<next_free ?h1} ?h1 (VRef 2) (JArr [?vuln])"
    apply (rule reifies.list [where xs = "[VRef 1]"])
    using a1 apply simp_all
    done
  have a3: "reifies {..<next_free ?h1} ?h1 (VRef 3) (JObj [(''list'', JArr [?vuln])])"
    apply (rule reifies.dict [where kvs = "[(''list'', VRef 2)]"])
    using a2 apply simp_all
    done
  have in1: "reifies {..<next_free ?h1} ?h1 (VRef 4) ?audit"
    apply (rule reifies.dict [where kvs = "[(''vulnerabilities'', VRef 3)]"])
    using a3 apply simp_all
    done
  \<comment> \<open>the same report at other addresses of the second store\<close>
  have b2: "reifies {..<next_free ?h2} ?h2 (VRef 2) (JObj [(''id'', JStr ''A-1'')])"
    by (rule reifies.dict [where kvs = "[(''id'', VStr ''A-1'')]"]) (simp_all add: reifies.str)
  have b4: "reifies {..<next_free ?h2} ?h2 (VRef 4) ?vuln"
    apply (rule reifies.dict [where kvs = "[(''advisory'', VRef 2)]"])
    using b2 apply simp_all
    done
  have b5: "reifies {..<next_free ?h2} ?h2 (VRef 5) (JArr [?vuln])"
    apply (rule reifies.list [where xs = "[VRef 4]"])
    using b4 apply simp_all
    done
  have b3: "reifies {..<next_free ?h2} ?h2 (VRef 3) (JObj [(''list'', JArr [?vuln])])"
    apply (rule reifies.dict [where kvs = "[(''list'', VRef 5)]"])
    using b5 apply simp_all
    done
  have in2: "reifies {..<next_free ?h2} ?h2 (VRef 1) ?audit"
    apply (rule reifies.dict [where kvs = "[(''vulnerabilities'', VRef 3)]"])
    using b3 apply simp_all
    done
  have str: "\<forall>B h v j. reifies B h v j \<longrightarrow> type_name_st h v = type_name j"
    by (simp add: type_name_reifies)
  from conversion_deterministic [OF str in1 in2 conv]
  obtain sarif1 h1' sarif2 h2'
    where "convert_audit_to_sarif_st type_name_st (VRef 4) ?h1 = (Inr sarif1, h1')"
      and "convert_audit_to_sarif_st type_name_st (VRef 1) ?h2 = (Inr sarif2, h2')"
      and "reifies {..<next_free h1'} h1' sarif1 (sarif_doc [r] [x])"
      and "reifies {..<next_free h2'} h2' sarif2 (sarif_doc [r] [x])"
    by blast
  with conv id rules_of_doc [of "[r]" "[x]"] show ?thesis by blast
qed

section \<open>The input after the call\<close>

text \<open>
  C10. \<^verbatim>\<open>convert_audit_to_sarif\<close> changes none of the objects it is given. Run on any
  store, with any value as its argument, it leaves every object that was in the store
  before the call as it was, whether it returns or raises; so the input report, and
  everything reachable from it, reads the same after the call as before. The only
  objects it changes are the two lists of the document it has made itself. The
  document it returns is a new object.
\<close>

theorem input_not_mutated:
  assumes "convert_audit_to_sarif_st str_of audit_data h = (r, h')"
  shows "next_free h \<le> next_free h' \<and>
     (\<forall>a<next_free h. objs h' a = objs h a) \<and>
     (\<forall>sarif. r = Inr sarif \<longrightarrow>
        (\<exists>a. sarif = VRef a \<and> next_free h \<le> a \<and> a < next_free h'))"
proof -
  let ?get1 = "get_st audit_data ''vulnerabilities'' (alloc (ODict []))"
  obtain r1 h1 where s1: "?get1 h = (r1, h1)"
    by (cases "?get1 h")
  have g1: "grows ?get1" by blast
  note f1 = growsD [OF g1 s1]
  show ?thesis
  proof (cases r1)
    case (Inl e)
    then have "convert_audit_to_sarif_st str_of audit_data h = (Inl e, h1)"
      by (simp add: convert_audit_to_sarif_st_def seq_def s1)
    then show ?thesis using assms f1 by auto
  next
    case r1: (Inr report)
    let ?get2 = "get_st report ''list'' (alloc (OList []))"
    obtain r2 h2 where s2: "?get2 h1 = (r2, h2)"
      by (cases "?get2 h1")
    have g2: "grows ?get2" by blast
    note f2 = growsD [OF g2 s2]
    have below2: "next_free h \<le> next_free h2" "\<And>a. a < next_free h \<Longrightarrow> objs h2 a = objs h a"
      using f1 f2 by auto
    show ?thesis
    proof (cases r2)
      case (Inl e)
      then have "convert_audit_to_sarif_st str_of audit_data h = (Inl e, h2)"
        by (simp add: convert_audit_to_sarif_st_def seq_def s1 r1 s2)
      then show ?thesis using assms below2 by auto
    next
      case r2: (Inr vulnerabilities)
      from new_sarif_skeleton [of h2] obtain h3
        where s3: "new_sarif h2 = (Inr (VRef (next_free h2 + 6)), h3)"
          and sk3: "skeleton_at (next_free h2) h3"
        by blast
      note f3 = growsD [OF grows_new_sarif s3]
      have top3: "next_free h2 + 7 \<le> next_free h3"
        using sk3 by (simp add: skeleton_at_def)
      obtain r4 h4 where s4: "iterate_st vulnerabilities h3 = (r4, h4)"
        by (cases "iterate_st vulnerabilities h3")
      have h4: "h4 = h3"
        using s4 by (auto simp: iterate_st_def split: pyval.splits pyobj.splits)
      show ?thesis
      proof (cases r4)
        case (Inl e)
        then have "convert_audit_to_sarif_st str_of audit_data h = (Inl e, h3)"
          using s4 h4
          by (simp add: convert_audit_to_sarif_st_def seq_def s1 r1 s2 r2 s3)
        then show ?thesis using assms below2 f3 by auto
      next
        case r4: (Inr items)
        let ?loop = "add_vulnerabilities_st str_of items (VRef (next_free h2 + 6))"
        obtain r5 h5 where s5: "?loop h3 = (r5, h5)"
          by (cases "?loop h3")
        note f5 = add_vulnerabilities_st_frame [OF sk3 s5]
        have below5: "next_free h \<le> next_free h5" "\<And>a. a < next_free h \<Longrightarrow> objs h5 a = objs h a"
          using below2 f3 f5 by auto
        have run: "convert_audit_to_sarif_st str_of audit_data h =
            (case r5 of Inl e \<Rightarrow> Inl e | Inr u \<Rightarrow> Inr (VRef (next_free h2 + 6)), h5)"
          using s4 h4 r4 s5
          by (simp add: convert_audit_to_sarif_st_def seq_def s1 r1 s2 r2 s3 return_def
              split: sum.splits)
        have fresh: "next_free h \<le> next_free h2 + 6" "next_free h2 + 6 < next_free h5"
          using below2(1) top3 f5 by auto
        show ?thesis
          using assms run below5 fresh by (auto split: sum.splits)
      qed
    qed
  qed
qed

theorem input_not_mutated_witness:
  "\<exists>h'. convert_audit_to_sarif_st (\<lambda>h v. ''None'') (VRef 4)
     \<lparr>objs = (\<lambda>a. ODict [])
        (0 := ODict [(''id'', VStr ''A-1'')],
         1 := ODict [(''advisory'', VRef 0)],
         2 := OList [VRef 1],
         3 := ODict [(''list'', VRef 2)],
         4 := ODict [(''vulnerabilities'', VRef 3)]),
      next_free = 5\<rparr> = (Inr (VRef 13), h') \<and>
     objs h' 0 = ODict [(''id'', VStr ''A-1'')] \<and>
     objs h' 1 = ODict [(''advisory'', VRef 0)] \<and>
     objs h' 2 = OList [VRef 1] \<and>
     objs h' 3 = ODict [(''list'', VRef 2)] \<and>
     objs h' 4 = ODict [(''vulnerabilities'', VRef 3)] \<and>
     13 < next_free h'"
proof -
  let ?h = "\<lparr>objs = (\<lambda>a. ODict [])
        (0 := ODict [(''id'', VStr ''A-1'')],
         1 := ODict [(''advisory'', VRef 0)],
         2 := OList [VRef 1],
         3 := ODict [(''list'', VRef 2)],
         4 := ODict [(''vulnerabilities'', VRef 3)]),
      next_free = 5\<rparr>"
  obtain r h' where run: "convert_audit_to_sarif_st (\<lambda>h v. ''None'') (VRef 4) ?h = (r, h')"
    by (cases "convert_audit_to_sarif_st (\<lambda>h v. ''None'') (VRef 4) ?h")
  have r: "r = Inr (VRef 13)"
    using example_run run by simp
  from input_not_mutated [OF run]
  have kept: "\<forall>a<next_free ?h. objs h' a = objs ?h a"
    and fresh: "\<forall>sarif. r = Inr sarif \<longrightarrow>
        (\<exists>a. sarif = VRef a \<and> next_free ?h \<le> a \<and> a < next_free h')"
    by blast+
  have 0: "objs h' 0 = ODict [(''id'', VStr ''A-1'')]"
    using kept [rule_format, of 0] by simp
  have 1: "objs h' 1 = ODict [(''advisory'', VRef 0)]"
    using kept [rule_format, of 1] by simp
  have 2: "objs h' 2 = OList [VRef 1]"
    using kept [rule_format, of 2] by simp
  have 3: "objs h' 3 = ODict [(''list'', VRef 2)]"
    using kept [rule_format, of 3] by simp
  have 4: "objs h' 4 = ODict [(''vulnerabilities'', VRef 3)]"
    using kept [rule_format, of 4] by simp
  have 5: "13 < next_free h'"
    using fresh [rule_format, OF r] by simp
  from run r 0 1 2 3 4 5 show ?thesis by blast
qed

end
